theory Spec2Isabelle
  imports Complex_Main "HOL-Library.Monad_Syntax"
begin

section \<open>Knot vectors\<close>

text \<open>
  The class \<open>gsKnotVector\<close> is used by \<open>gsApproxC1Spline.hpp\<close> but its implementation is
  not among the source files.  A knot vector is kept as the list of its unique knots, each
  with its multiplicity, together with the stored degree.  Knot values are \<open>real_t\<close>; the
  code only copies and compares them, so they are modelled as \<open>real\<close>.  Multiplicities
  and degrees are \<open>index_t\<close>, modelled as \<open>int\<close> (no value here comes near the machine range).
\<close>

record gsKnotVector =
  m_knots :: "(real \<times> int) list"
  m_deg :: int

text \<open>Modelled from the spec: the accessor \<open>unique()\<close> of the absent class
  \<open>gsKnotVector\<close> (section 3: a knot vector has break points with multiplicities).\<close>

definition unique :: "gsKnotVector \<Rightarrow> real list" where
  "unique kv = map fst (m_knots kv)"

text \<open>Modelled from the spec: the accessor \<open>multiplicities()\<close> of the absent class
  \<open>gsKnotVector\<close>, the multiplicities in the order of the break points (section 3).\<close>

definition multiplicities :: "gsKnotVector \<Rightarrow> int list" where
  "multiplicities kv = map snd (m_knots kv)"

text \<open>Modelled from the spec: the accessor \<open>degree()\<close> of the absent class
  \<open>gsKnotVector\<close> (section 3).\<close>

definition degree :: "gsKnotVector \<Rightarrow> int" where
  "degree kv = m_deg kv"

text \<open>A C++ read \<open>v[i]\<close> of a \<open>std::vector\<close>: outside the range the behaviour is undefined,
  which the model records as \<open>None\<close>.\<close>

definition elem_at :: "'a list \<Rightarrow> nat \<Rightarrow> 'a option" where
  "elem_at xs i = (if i < length xs then Some (xs ! i) else None)"

text \<open>Modelled from the spec: the absent class \<open>gsKnotVector\<close> changes multiplicities
  either at the interior knots only (all but the first and the last unique knot) or at the
  two end knots only (section 3).  The next five functions are the helpers for that:
  \<open>interior_upd\<close> (through \<open>inner_upd\<close>) changes the interior, \<open>ends_upd\<close> (through
  \<open>last_upd\<close>) the two ends, and \<open>drop_empty\<close> removes a knot that has no multiplicity
  left.\<close>

fun inner_upd :: "(int \<Rightarrow> int) \<Rightarrow> (real \<times> int) list \<Rightarrow> (real \<times> int) list" where
  "inner_upd f [] = []"
| "inner_upd f [b] = [b]"
| "inner_upd f (b # c # ks) = (fst b, f (snd b)) # inner_upd f (c # ks)"

fun interior_upd :: "(int \<Rightarrow> int) \<Rightarrow> (real \<times> int) list \<Rightarrow> (real \<times> int) list" where
  "interior_upd f [] = []"
| "interior_upd f (a # ks) = a # inner_upd f ks"

fun last_upd :: "(int \<Rightarrow> int) \<Rightarrow> (real \<times> int) list \<Rightarrow> (real \<times> int) list" where
  "last_upd f [] = []"
| "last_upd f [b] = [(fst b, f (snd b))]"
| "last_upd f (b # c # ks) = b # last_upd f (c # ks)"

fun ends_upd :: "(int \<Rightarrow> int) \<Rightarrow> (real \<times> int) list \<Rightarrow> (real \<times> int) list" where
  "ends_upd f [] = []"
| "ends_upd f (a # ks) = last_upd f ((fst a, f (snd a)) # ks)"

definition drop_empty :: "(real \<times> int) list \<Rightarrow> (real \<times> int) list" where
  "drop_empty ks = filter (\<lambda>k. 0 < snd k) ks"

text \<open>Modelled from the spec: \<open>gsKnotVector::reduceMultiplicity(i)\<close> of the absent class
  (section 4.1: "reduce interior multiplicity"; section 3: "adjusting interior
  multiplicity"), with the default \<open>boundary = false\<close>, so the end knots are left alone.
  An interior knot whose multiplicity drops to zero is no longer a knot.\<close>

definition reduceMultiplicity :: "int \<Rightarrow> gsKnotVector \<Rightarrow> gsKnotVector" where
  "reduceMultiplicity i kv =
     kv\<lparr>m_knots := drop_empty (interior_upd (\<lambda>m. m - i) (m_knots kv))\<rparr>"

text \<open>Modelled from the spec: \<open>gsKnotVector::increaseMultiplicity(i)\<close> of the absent
  class (section 4.1: "multiplicity increased"), with the default \<open>boundary = false\<close>.\<close>

definition increaseMultiplicity :: "int \<Rightarrow> gsKnotVector \<Rightarrow> gsKnotVector" where
  "increaseMultiplicity i kv = kv\<lparr>m_knots := interior_upd (\<lambda>m. m + i) (m_knots kv)\<rparr>"

text \<open>Modelled from the spec: \<open>gsKnotVector::degreeDecrease(i)\<close> of the absent class
  (section 3: the degree goes with the end multiplicities, a clamped knot vector has end
  multiplicity degree + 1; section 4.1: "degree decreased by 1"): the degree drops by \<open>i\<close>
  and so does the multiplicity of the two end knots; interior knots are left alone.\<close>

definition degreeDecrease :: "int \<Rightarrow> gsKnotVector \<Rightarrow> gsKnotVector" where
  "degreeDecrease i kv =
     \<lparr>m_knots = drop_empty (ends_upd (\<lambda>m. m - i) (m_knots kv)), m_deg = m_deg kv - i\<rparr>"

text \<open>Modelled from the spec: \<open>gsKnotVector::degreeIncrease(i)\<close> of the absent class,
  the converse of \<open>degreeDecrease\<close>: the degree and the multiplicity of the two end knots
  grow by \<open>i\<close> (section 3).\<close>

definition degreeIncrease :: "int \<Rightarrow> gsKnotVector \<Rightarrow> gsKnotVector" where
  "degreeIncrease i kv =
     \<lparr>m_knots = ends_upd (\<lambda>m. m + i) (m_knots kv), m_deg = m_deg kv + i\<rparr>"

text \<open>Modelled from the spec: \<open>gsKnotVector::degreeElevate(i)\<close>, degree elevation that
  keeps the smoothness (the source's comment at the call: "Keep smoothness"): the degree
  and the multiplicity of every knot grow by \<open>i\<close>.\<close>

definition degreeElevate :: "int \<Rightarrow> gsKnotVector \<Rightarrow> gsKnotVector" where
  "degreeElevate i kv =
     \<lparr>m_knots = map (\<lambda>k. (fst k, snd k + i)) (m_knots kv), m_deg = m_deg kv + i\<rparr>"

text \<open>Modelled from the spec: the constructor \<open>gsKnotVector(knots)\<close> of the absent class,
  from a plain non-decreasing list of knots, without a degree: equal neighbours are one
  knot with their number as multiplicity (\<open>group_knots\<close>), and the degree is read off the
  end multiplicities (\<open>deduceDegree\<close>; section 3: "degree is implicit from the end
  multiplicities", end multiplicity = degree + 1).  \<open>mkKnotVector\<close> is the constructor.\<close>

fun group_knots :: "real list \<Rightarrow> (real \<times> int) list" where
  "group_knots [] = []"
| "group_knots (x # xs) =
     (case group_knots xs of
        [] \<Rightarrow> [(x, 1)]
      | k # ks \<Rightarrow> if x = fst k then (x, snd k + 1) # ks else (x, 1) # k # ks)"

definition deduceDegree :: "(real \<times> int) list \<Rightarrow> int" where
  "deduceDegree ks = (if ks = [] then - 1 else max (snd (hd ks)) (snd (last ks)) - 1)"

definition mkKnotVector :: "real list \<Rightarrow> gsKnotVector" where
  "mkKnotVector knots =
     \<lparr>m_knots = group_knots knots, m_deg = deduceDegree (group_knots knots)\<rparr>"

text \<open>Modelled from the spec: \<open>knot(i)\<close> of the absent knot-vector class, the knot with
  index \<open>i\<close> in the sequence of knots with repetitions (\<open>knots_flat\<close>); outside the
  sequence the read is undefined, here \<open>None\<close>.\<close>

definition knots_flat :: "gsKnotVector \<Rightarrow> real list" where
  "knots_flat kv = concat (map (\<lambda>k. replicate (nat (snd k)) (fst k)) (m_knots kv))"

definition knot_at :: "gsKnotVector \<Rightarrow> int \<Rightarrow> real option" where
  "knot_at kv i = (if 0 \<le> i then elem_at (knots_flat kv) (nat i) else None)"

text \<open>Modelled from the spec: \<open>insertKnot(knot, mult)\<close> of the absent knot-vector class,
  knot insertion (section 1: "knot insertion" among the standard operations): an existing
  knot gains the multiplicity, a new one takes its place in the increasing sequence.\<close>

fun insert_knot :: "real \<Rightarrow> int \<Rightarrow> (real \<times> int) list \<Rightarrow> (real \<times> int) list" where
  "insert_knot x i [] = [(x, i)]"
| "insert_knot x i (k # ks) =
     (if x = fst k then (fst k, snd k + i) # ks
      else if x < fst k then (x, i) # k # ks
      else k # insert_knot x i ks)"

definition insertKnot :: "real \<Rightarrow> int \<Rightarrow> gsKnotVector \<Rightarrow> gsKnotVector" where
  "insertKnot x i kv = kv\<lparr>m_knots := insert_knot x i (m_knots kv)\<rparr>"

text \<open>The multiplicity of a value in a knot vector; zero when it is not a knot.\<close>

definition mult_at :: "gsKnotVector \<Rightarrow> real \<Rightarrow> int" where
  "mult_at kv x = (case map_of (m_knots kv) x of None \<Rightarrow> 0 | Some m \<Rightarrow> m)"

text \<open>The interior break points: the unique knots without the first and the last.\<close>

definition interior_knots :: "gsKnotVector \<Rightarrow> real list" where
  "interior_knots kv = butlast (tl (unique kv))"

text \<open>A well-formed clamped knot vector: at least two break points, strictly increasing,
  every multiplicity positive, and both end knots of multiplicity degree + 1.\<close>

definition clamped :: "gsKnotVector \<Rightarrow> bool" where
  "clamped kv \<longleftrightarrow>
     2 \<le> length (m_knots kv) \<and> sorted_wrt (<) (unique kv) \<and>
     list_all (\<lambda>m. 1 \<le> m) (multiplicities kv) \<and>
     0 \<le> m_deg kv \<and>
     snd (hd (m_knots kv)) = m_deg kv + 1 \<and> snd (last (m_knots kv)) = m_deg kv + 1"

section \<open>Knot-space algebra of gsApproxC1Spline\<close>

text \<open>
  The functions write to the stream \<open>gsInfo\<close> and to their reference parameters, and
  return nothing.  The model returns what was written to \<open>gsInfo\<close>, one string for each
  output statement and character for character (\<open>\<newline>\<close> is the line break
  \<open>\n\<close>), together with the resulting knot vectors.  The option
  \<open>discreteRegularity\<close> is the parameter \<open>r\<close>.
\<close>

type_synonym diagnostics = "string list"

definition info :: "bool \<Rightarrow> string \<Rightarrow> diagnostics" where
  "info c msg = (if c then [msg] else [])"

text \<open>\<open>createPlusMinusSpace\<close>, the overload with two sides.  The read
  \<open>patch_kv_unique_1[1]\<close> is the only one by index.\<close>

definition createPlusMinusSpace ::
  "int \<Rightarrow> gsKnotVector \<Rightarrow> gsKnotVector \<Rightarrow> gsKnotVector \<Rightarrow> gsKnotVector
     \<Rightarrow> (diagnostics \<times> gsKnotVector \<times> gsKnotVector) option" where
  "createPlusMinusSpace r kv1 kv2 kv1_patch kv2_patch =
     (let knots_unique_1 = unique kv1;
          knots_unique_2 = unique kv2;
          knots_mult_1 = multiplicities kv1;
          knots_mult_2 = multiplicities kv2;
          patch_kv_unique_1 = unique kv1_patch;
          p = max (degree kv1) (degree kv2)
      in case elem_at patch_kv_unique_1 1 of
           None \<Rightarrow> None
         | Some u1 \<Rightarrow>
             let out = info (knots_unique_1 \<noteq> knots_unique_2)
                         ''NOT IMPLEMENTED YET 1: Plus, Minus space \<newline>''
                     @ info (degree kv1 \<noteq> degree kv2)
                         ''NOT IMPLEMENTED YET 2: Plus, Minus space \<newline>''
                     @ info (u1 \<noteq> 1)
                         ''NOT IMPLEMENTED YET 3: Plus, Minus space \<newline>''
                     @ info (knots_mult_1 \<noteq> knots_mult_2)
                         ''NOT IMPLEMENTED YET 4: Plus, Minus space \<newline>'';
                 kv1_result = kv2;
                 kv1_result = (if p - r \<noteq> 1 then reduceMultiplicity 1 kv1_result
                               else kv1_result);
                 kv2_result = kv2;
                 kv2_result = degreeDecrease 1 kv2_result;
                 kv2_result = (if p - r \<noteq> 1 then reduceMultiplicity 1 kv2_result
                               else kv2_result)
             in Some (out, kv1_result, kv2_result))"

text \<open>\<open>createPlusMinusSpace\<close>, the overload for a boundary edge: one knot vector, no
  read by index and no diagnostic.\<close>

definition createPlusMinusSpace1 ::
  "int \<Rightarrow> gsKnotVector \<Rightarrow> gsKnotVector \<Rightarrow> gsKnotVector \<times> gsKnotVector" where
  "createPlusMinusSpace1 r kv1 kv1_patch =
     (let p = max (degree kv1) 0;
          kv1_result = kv1;
          kv1_result = (if p - r \<noteq> 1 then reduceMultiplicity 1 kv1_result else kv1_result);
          kv2_result = kv1;
          kv2_result = degreeDecrease 1 kv2_result;
          kv2_result = (if p - r \<noteq> 1 then reduceMultiplicity 1 kv2_result else kv2_result)
      in (kv1_result, kv2_result))"

text \<open>\<open>createGluingDataSpace\<close>.  The members \<open>p_tilde\<close> and \<open>r_tilde\<close> of the class
  are declared outside this file; they are parameters here.\<close>

definition createGluingDataSpace ::
  "int \<Rightarrow> int \<Rightarrow> gsKnotVector \<Rightarrow> gsKnotVector \<Rightarrow> gsKnotVector \<Rightarrow> gsKnotVector
     \<Rightarrow> diagnostics \<times> gsKnotVector" where
  "createGluingDataSpace p_tilde r_tilde kv1 kv2 kv1_patch kv2_patch =
     (let knots_unique_1 = unique kv1;
          knots_unique_2 = unique kv2;
          out = info (knots_unique_1 \<noteq> knots_unique_2)
                  ''\<newline>\<newline> ERROR: Interfaces are not matching!!! \<newline>\<newline>'';
          knot_vector = knots_unique_2;
          kv_result = mkKnotVector knot_vector;
          kv_result = degreeIncrease p_tilde kv_result;
          kv_result = increaseMultiplicity (p_tilde - r_tilde - 1) kv_result
      in (out, kv_result))"

text \<open>\<open>createLokalEdgeSpace\<close>, the overload for an interface.  It reads
  \<open>knots_unique_plus[1]\<close> and, in the branch, the second multiplicity of three knot
  vectors.\<close>

definition createLokalEdgeSpace ::
  "gsKnotVector \<Rightarrow> gsKnotVector \<Rightarrow> gsKnotVector \<Rightarrow> gsKnotVector \<Rightarrow> gsKnotVector
     \<Rightarrow> gsKnotVector \<Rightarrow> (diagnostics \<times> gsKnotVector \<times> gsKnotVector) option" where
  "createLokalEdgeSpace kv_plus kv_minus kv_gD_1 kv_gD_2 kv_patch_1 kv_patch_2 =
     (let p_1 = max (degree kv_plus + degree kv_gD_1 - 1) (degree kv_minus + degree kv_gD_1);
          knots_unique_plus = unique kv_plus;
          out = info (knots_unique_plus \<noteq> unique kv_minus) ''ERROR LOKAL EDGE SPACE \<newline>'';
          kv1_result = mkKnotVector knots_unique_plus;
          kv1_result = degreeIncrease p_1 kv1_result
      in case elem_at knots_unique_plus 1 of
           None \<Rightarrow> None
         | Some u1 \<Rightarrow>
             if u1 \<noteq> 1 then
               (case (elem_at (multiplicities kv_plus) 1, elem_at (multiplicities kv_minus) 1,
                      elem_at (multiplicities kv_gD_1) 1) of
                  (Some m_plus, Some m_minus, Some m_gD) \<Rightarrow>
                    let r_plus = degree kv_plus - m_plus;
                        r_minus = degree kv_minus - m_minus;
                        r_tilde = degree kv_gD_1 - m_gD;
                        r = min r_tilde (min r_plus r_minus);
                        kv1_result = increaseMultiplicity (p_1 - r - 1) kv1_result;
                        kv2_result = kv1_result
                    in Some (out, kv1_result, kv2_result)
                | _ \<Rightarrow> None)
             else Some (out, kv1_result, kv1_result))"

text \<open>\<open>createLokalEdgeSpace\<close>, the overload for a boundary edge.\<close>

definition createLokalEdgeSpace1 ::
  "gsKnotVector \<Rightarrow> gsKnotVector \<Rightarrow> gsKnotVector \<Rightarrow> (diagnostics \<times> gsKnotVector) option" where
  "createLokalEdgeSpace1 kv_plus kv_minus kv_patch_1 =
     (let p_1 = max (degree kv_plus) (degree kv_minus);
          knots_unique_plus = unique kv_plus;
          out = info (knots_unique_plus \<noteq> unique kv_minus) ''ERROR LOKAL EDGE SPACE \<newline>'';
          kv1_result = mkKnotVector knots_unique_plus;
          kv1_result = degreeIncrease p_1 kv1_result
      in case elem_at knots_unique_plus 1 of
           None \<Rightarrow> None
         | Some u1 \<Rightarrow>
             if u1 \<noteq> 1 then
               (case (elem_at (multiplicities kv_plus) 1, elem_at (multiplicities kv_minus) 1) of
                  (Some m_plus, Some m_minus) \<Rightarrow>
                    let r_plus = degree kv_plus - m_plus;
                        r_minus = degree kv_minus - m_minus;
                        r = min r_plus r_minus;
                        kv1_result = increaseMultiplicity (p_1 - r - 1) kv1_result
                    in Some (out, kv1_result)
                | _ \<Rightarrow> None)
             else Some (out, kv1_result))"

section \<open>Bases, topology and the per-patch container\<close>

text \<open>
  A \<open>gsBSplineBasis\<close> is given by its knot vector (\<open>knots()\<close>); a
  \<open>gsTensorBSplineBasis<2>\<close> by its two components.  Their classes are not among the
  source files either.
\<close>

record gsTensorBSplineBasis =
  comp0 :: gsKnotVector
  comp1 :: gsKnotVector

text \<open>Modelled from the spec: \<open>component(dir)\<close> of the absent class
  \<open>gsTensorBSplineBasis\<close> (section 6: "per-direction degree/knot-vector access").\<close>

definition component :: "gsTensorBSplineBasis \<Rightarrow> int \<Rightarrow> gsKnotVector" where
  "component b dir = (if dir = 0 then comp0 b else comp1 b)"

text \<open>Modelled from the spec: \<open>degree(dir)\<close> of the absent class
  \<open>gsTensorBSplineBasis\<close> (section 6: "per-direction degree/knot-vector access").\<close>

definition degreeT :: "gsTensorBSplineBasis \<Rightarrow> int \<Rightarrow> int" where
  "degreeT b dir = degree (component b dir)"

text \<open>Modelled from the spec: \<open>degreeElevate(i, dir)\<close> of the absent class
  \<open>gsTensorBSplineBasis\<close> (section 4.1: elevation of the degree in one direction).\<close>

definition degreeElevateT :: "int \<Rightarrow> int \<Rightarrow> gsTensorBSplineBasis \<Rightarrow> gsTensorBSplineBasis" where
  "degreeElevateT i dir b =
     (if dir = 0 then b\<lparr>comp0 := degreeElevate i (comp0 b)\<rparr>
      else b\<lparr>comp1 := degreeElevate i (comp1 b)\<rparr>)"

text \<open>Modelled from the spec: \<open>reduceContinuity(i)\<close> of the absent class
  \<open>gsTensorBSplineBasis\<close> (section 4.1: reduction of the continuity): the multiplicity of
  every interior knot grows by \<open>i\<close>, in both directions.\<close>

definition reduceContinuityT :: "int \<Rightarrow> gsTensorBSplineBasis \<Rightarrow> gsTensorBSplineBasis" where
  "reduceContinuityT i b =
     \<lparr>comp0 = increaseMultiplicity i (comp0 b), comp1 = increaseMultiplicity i (comp1 b)\<rparr>"

text \<open>Modelled from the spec: \<open>knot(dir, i)\<close> of the absent class
  \<open>gsTensorBSplineBasis\<close>, the read of a knot in one direction (section 6).\<close>

definition knotT :: "gsTensorBSplineBasis \<Rightarrow> int \<Rightarrow> int \<Rightarrow> real option" where
  "knotT b dir i = knot_at (component b dir) i"

text \<open>Modelled from the spec: \<open>insertKnot(knot, dir, mult)\<close> of the absent class
  \<open>gsTensorBSplineBasis\<close>, knot insertion in one direction (section 1).\<close>

definition insertKnotT :: "real \<Rightarrow> int \<Rightarrow> int \<Rightarrow> gsTensorBSplineBasis \<Rightarrow> gsTensorBSplineBasis" where
  "insertKnotT x dir i b =
     (if dir = 0 then b\<lparr>comp0 := insertKnot x i (comp0 b)\<rparr>
      else b\<lparr>comp1 := insertKnot x i (comp1 b)\<rparr>)"

text \<open>Modelled from the spec: the constructor of the absent class \<open>gsTensorBSplineBasis\<close>
  from the knot vectors of the two directions (section 6).\<close>

definition tensorBasis :: "gsKnotVector \<Rightarrow> gsKnotVector \<Rightarrow> gsTensorBSplineBasis" where
  "tensorBasis kv_u kv_v = \<lparr>comp0 = kv_u, comp1 = kv_v\<rparr>"

text \<open>A patch of the geometry: its basis and its control points.  \<open>patchSide\<close> and
  \<open>patchCorner\<close> both carry a patch number and an index \<open>m_index\<close> (of the side, of the
  corner); \<open>side().index()\<close> is \<open>m_index\<close>.\<close>

record gsGeometry =
  basis :: gsTensorBSplineBasis
  coefs :: "real list list"

record patchSide =
  patch :: nat
  m_index :: nat

type_synonym patchCorner = patchSide

record boundaryInterface =
  first_side :: patchSide
  second_side :: patchSide

record gsMultiPatch =
  patches :: "gsGeometry list"
  interfaces :: "boundaryInterface list"
  boundaries :: "patchSide list"
  vertices :: "patchCorner list list"

text \<open>Modelled from the spec: \<open>nPatches()\<close> of the absent class \<open>gsMultiPatch\<close>, the number
  of patches (section 3).\<close>

definition nPatches :: "gsMultiPatch \<Rightarrow> nat" where
  "nPatches mp = length (patches mp)"

text \<open>The options that the code reads: the integer \<open>discreteRegularity\<close> and the switch
  \<open>info\<close>.\<close>

record gsOptionList =
  discreteRegularity :: int
  info_switch :: bool

text \<open>Modelled from the spec: the absent class \<open>gsC1Basis\<close>, the per-patch container of
  section 4.2, as the slots its setters fill: the inner basis, per side the plus, minus,
  geo and gluing-data bases and the edge basis, per corner the vertex basis and the kind
  of the vertex, and the sizes \<open>size_rows()\<close> and \<open>size_cols()\<close> that its \<open>init()\<close>
  freezes.  A slot that no setter has filled is \<open>None\<close>.  The container is constructed for
  a patch number and is given the options.\<close>

record gsC1Basis =
  c1_patch :: nat
  c1_options :: "gsOptionList option"
  basisInner :: "gsTensorBSplineBasis option"
  basisPlus :: "nat \<rightharpoonup> gsKnotVector"
  basisMinus :: "nat \<rightharpoonup> gsKnotVector"
  basisGeo :: "nat \<rightharpoonup> gsKnotVector"
  basisGluingData :: "nat \<rightharpoonup> gsKnotVector"
  edgeBasis :: "nat \<rightharpoonup> gsTensorBSplineBasis"
  vertexBasis :: "nat \<rightharpoonup> gsTensorBSplineBasis"
  kindOfVertex :: "nat \<rightharpoonup> int"
  size_rows :: int
  size_cols :: int

text \<open>Modelled from the spec: a container of the absent class \<open>gsC1Basis\<close> before any
  setter has run (section 4.2).\<close>

definition emptyC1Basis :: gsC1Basis where
  "emptyC1Basis = \<lparr>c1_patch = 0, c1_options = None, basisInner = None,
     basisPlus = Map.empty, basisMinus = Map.empty, basisGeo = Map.empty, basisGluingData = Map.empty, edgeBasis = Map.empty,
     vertexBasis = Map.empty, kindOfVertex = Map.empty, size_rows = 0, size_cols = 0\<rparr>"

text \<open>Modelled from the spec: the constructor \<open>gsC1Basis(m_patches, np)\<close> of the absent
  class (section 4.2: one container per patch).\<close>

definition newC1Basis :: "gsMultiPatch \<Rightarrow> nat \<Rightarrow> gsC1Basis" where
  "newC1Basis mp np = emptyC1Basis\<lparr>c1_patch := np\<rparr>"

text \<open>Modelled from the spec: \<open>setOptions\<close> of the absent class \<open>gsC1Basis\<close> (section 4.2).\<close>

definition setOptions :: "gsOptionList \<Rightarrow> gsC1Basis \<Rightarrow> gsC1Basis" where
  "setOptions opt c = c\<lparr>c1_options := Some opt\<rparr>"

text \<open>Modelled from the spec: \<open>setInnerBasis\<close> of the absent class \<open>gsC1Basis\<close> records
  the inner basis (section 4.2).\<close>

definition setInnerBasis :: "gsTensorBSplineBasis \<Rightarrow> gsC1Basis \<Rightarrow> gsC1Basis" where
  "setInnerBasis b c = c\<lparr>basisInner := Some b\<rparr>"

text \<open>Modelled from the spec: \<open>setBasisPlus\<close> of the absent class \<open>gsC1Basis\<close> records
  the plus basis of a side (section 4.2).\<close>

definition setBasisPlus :: "gsKnotVector \<Rightarrow> nat \<Rightarrow> gsC1Basis \<Rightarrow> gsC1Basis" where
  "setBasisPlus b side c = c\<lparr>basisPlus := (basisPlus c)(side \<mapsto> b)\<rparr>"

text \<open>Modelled from the spec: \<open>setBasisMinus\<close> of the absent class \<open>gsC1Basis\<close> records
  the minus basis of a side (section 4.2).\<close>

definition setBasisMinus :: "gsKnotVector \<Rightarrow> nat \<Rightarrow> gsC1Basis \<Rightarrow> gsC1Basis" where
  "setBasisMinus b side c = c\<lparr>basisMinus := (basisMinus c)(side \<mapsto> b)\<rparr>"

text \<open>Modelled from the spec: \<open>setBasisGeo\<close> of the absent class \<open>gsC1Basis\<close> records
  the geometry basis of a side (section 4.2).\<close>

definition setBasisGeo :: "gsKnotVector \<Rightarrow> nat \<Rightarrow> gsC1Basis \<Rightarrow> gsC1Basis" where
  "setBasisGeo b side c = c\<lparr>basisGeo := (basisGeo c)(side \<mapsto> b)\<rparr>"

text \<open>Modelled from the spec: \<open>setBasisGluingData\<close> of the absent class \<open>gsC1Basis\<close> records
  the gluing-data basis of a side (section 4.2).\<close>

definition setBasisGluingData :: "gsKnotVector \<Rightarrow> nat \<Rightarrow> gsC1Basis \<Rightarrow> gsC1Basis" where
  "setBasisGluingData b side c = c\<lparr>basisGluingData := (basisGluingData c)(side \<mapsto> b)\<rparr>"

text \<open>Modelled from the spec: \<open>setEdgeBasis\<close> of the absent class \<open>gsC1Basis\<close> records
  the edge basis of a side (section 4.2).\<close>

definition setEdgeBasis :: "gsTensorBSplineBasis \<Rightarrow> nat \<Rightarrow> gsC1Basis \<Rightarrow> gsC1Basis" where
  "setEdgeBasis b side c = c\<lparr>edgeBasis := (edgeBasis c)(side \<mapsto> b)\<rparr>"

text \<open>Modelled from the spec: \<open>setVertexBasis\<close> of the absent class \<open>gsC1Basis\<close> records
  the vertex basis of a corner (section 4.2).\<close>

definition setVertexBasis :: "gsTensorBSplineBasis \<Rightarrow> nat \<Rightarrow> gsC1Basis \<Rightarrow> gsC1Basis" where
  "setVertexBasis b corner c = c\<lparr>vertexBasis := (vertexBasis c)(corner \<mapsto> b)\<rparr>"

text \<open>Modelled from the spec: \<open>setKindOfVertex\<close> of the absent class \<open>gsC1Basis\<close> records
  the kind of the vertex at a corner (section 4.2).\<close>

definition setKindOfVertex :: "int \<Rightarrow> nat \<Rightarrow> gsC1Basis \<Rightarrow> gsC1Basis" where
  "setKindOfVertex k corner c = c\<lparr>kindOfVertex := (kindOfVertex c)(corner \<mapsto> k)\<rparr>"

text \<open>Modelled from the spec: the absent class \<open>gsSparseMatrix\<close> of the global matrix
  (section 3): its dimensions, the entries in the order of their insertion, the reserved
  capacity and whether it has been compressed.\<close>

record gsSparseMatrix =
  mat_rows :: int
  mat_cols :: int
  entries :: "((int \<times> int) \<times> real) list"
  reserved :: int
  compressed :: bool

text \<open>Modelled from the spec: \<open>insert(i, j) = v\<close> of the absent class \<open>gsSparseMatrix\<close>
  adds one entry (section 4.5: the matrix is filled incrementally).\<close>

definition insert_entry :: "int \<Rightarrow> int \<Rightarrow> real \<Rightarrow> gsSparseMatrix \<Rightarrow> gsSparseMatrix" where
  "insert_entry i j v M = M\<lparr>entries := entries M @ [((i, j), v)]\<rparr>"

text \<open>Modelled from the spec: \<open>makeCompressed()\<close> of the absent class
  \<open>gsSparseMatrix\<close> (section 4.5: the sparse storage is compressed at the end).\<close>

definition makeCompressed :: "gsSparseMatrix \<Rightarrow> gsSparseMatrix" where
  "makeCompressed M = M\<lparr>compressed := True\<rparr>"

section \<open>The object gsApproxC1Spline\<close>

text \<open>What \<open>compute()\<close> does with \<open>m_matrix\<close>, one event per step: the interior block
  of a patch has been written, the builder of an interface, of a boundary or of a vertex
  has been invoked on the matrix, the matrix has been compressed.\<close>

datatype matrix_call =
  InteriorBlock nat
| InterfaceBuilder nat
| BoundaryBuilder nat
| VertexBuilder nat
| Compress

text \<open>The members of \<open>gsApproxC1Spline\<close> that \<open>init()\<close> and \<open>compute()\<close> use.
  \<open>m_patches\<close> and \<open>m_multiBasis\<close> are references to the caller's objects.  The field
  \<open>gsInfo_out\<close> collects what is written to \<open>gsInfo\<close>.  The field \<open>calls\<close> is not a
  member: it records the order of the steps of \<open>compute()\<close> on \<open>m_matrix\<close>.\<close>

record gsApproxC1Spline =
  m_patches :: gsMultiPatch
  m_multiBasis :: "gsTensorBSplineBasis list"
  m_options :: gsOptionList
  p_tilde :: int
  r_tilde :: int
  m_bases :: "gsC1Basis list"
  m_matrix :: gsSparseMatrix
  gsInfo_out :: diagnostics
  calls :: "matrix_call list"

text \<open>A write \<open>m_bases[p].set...(...)\<close>; the index outside the vector is undefined
  behaviour, \<open>None\<close>.\<close>

definition upd_basis ::
  "nat \<Rightarrow> (gsC1Basis \<Rightarrow> gsC1Basis) \<Rightarrow> gsApproxC1Spline \<Rightarrow> gsApproxC1Spline option" where
  "upd_basis p f s =
     (if p < length (m_bases s) then Some (s\<lparr>m_bases := (m_bases s)[p := f (m_bases s ! p)]\<rparr>)
      else None)"

subsection \<open>init(): the loop over the vertices\<close>

text \<open>The loop \<open>temp_mp.addPatch(m_patches.patch(patchIndex[j]))\<close>.\<close>

fun addPatches :: "gsGeometry list \<Rightarrow> nat list \<Rightarrow> gsGeometry list option" where
  "addPatches ps [] = Some []"
| "addPatches ps (i # is) =
     do { g \<leftarrow> elem_at ps i; gs \<leftarrow> addPatches ps is; Some (g # gs) }"

text \<open>The body of the two loops over \<open>j\<close> for a vertex that is not a boundary vertex.
  The source has the same statements in the branch of the internal vertex and in the
  branch of the interface-boundary vertex; they differ in the kind that is set, 0 or 1,
  which is the parameter \<open>kind\<close> here.\<close>

definition vertex_basis_elevated ::
  "int \<Rightarrow> int \<Rightarrow> int \<Rightarrow> gsTensorBSplineBasis \<Rightarrow> gsTensorBSplineBasis" where
  "vertex_basis_elevated pt rt r basis_vertex_1 =
     (let basis_vertex_1 = degreeElevateT (pt - 1) 0 basis_vertex_1;
          basis_vertex_1 = degreeElevateT (pt - 1) 1 basis_vertex_1;
          basis_vertex_1 = (if r \<noteq> 1 then reduceContinuityT 1 basis_vertex_1
                            else basis_vertex_1);
          basis_vertex_1 = (if rt < r - 1 then reduceContinuityT (r - rt - 1) basis_vertex_1
                            else basis_vertex_1)
      in basis_vertex_1)"

fun vertex_loop :: "int \<Rightarrow> patchCorner list \<Rightarrow> gsApproxC1Spline \<Rightarrow> gsApproxC1Spline option" where
  "vertex_loop kind [] s = Some s"
| "vertex_loop kind (c # cs) s =
     do { let patch_1 = patch c;
          let vertex_1 = m_index c;
          basis_vertex_1 \<leftarrow> elem_at (m_multiBasis s) patch_1;
          let r = discreteRegularity (m_options s);
          let basis_vertex_1 = vertex_basis_elevated (p_tilde s) (r_tilde s) r basis_vertex_1;
          s \<leftarrow> upd_basis patch_1 (setVertexBasis basis_vertex_1 vertex_1) s;
          s \<leftarrow> upd_basis patch_1 (setKindOfVertex kind vertex_1) s;
          vertex_loop kind cs s }"

text \<open>The body of the loop over the vertices, for one list of corners.  The number of
  interfaces that \<open>computeTopology()\<close> finds among the collected patches is computed
  outside this file; \<open>nInterfaces\<close> is that function.\<close>

definition init_vertex ::
  "(gsGeometry list \<Rightarrow> nat) \<Rightarrow> patchCorner list \<Rightarrow> gsApproxC1Spline
     \<Rightarrow> gsApproxC1Spline option" where
  "init_vertex nInterfaces allcornerLists s =
     (let patchIndex = map patch allcornerLists;
          vertIndex = map m_index allcornerLists
      in if length patchIndex = 1 then
           do { let patch_1 = hd patchIndex;
                let vertex_1 = hd vertIndex;
                basis_vertex_1 \<leftarrow> elem_at (m_multiBasis s) patch_1;
                let r = discreteRegularity (m_options s);
                let basis_vertex_1 = (if degreeT basis_vertex_1 0 - r = 1
                                      then reduceContinuityT 1 basis_vertex_1
                                      else basis_vertex_1);
                s \<leftarrow> upd_basis patch_1 (setVertexBasis basis_vertex_1 vertex_1) s;
                upd_basis patch_1 (setKindOfVertex (- 1) vertex_1) s }
         else if length patchIndex > 1 then
           do { temp_mp \<leftarrow> addPatches (patches (m_patches s)) patchIndex;
                if length patchIndex = nInterfaces temp_mp then
                  vertex_loop 0 allcornerLists s
                else if length patchIndex > nInterfaces temp_mp then
                  vertex_loop 1 allcornerLists s
                else Some s }
         else Some s)"

fun init_vertices ::
  "(gsGeometry list \<Rightarrow> nat) \<Rightarrow> patchCorner list list \<Rightarrow> gsApproxC1Spline
     \<Rightarrow> gsApproxC1Spline option" where
  "init_vertices nInterfaces [] s = Some s"
| "init_vertices nInterfaces (g # gs) s =
     do { s \<leftarrow> init_vertex nInterfaces g s; init_vertices nInterfaces gs s }"

text \<open>What the containers hold for a corner after the loop: the kind of the vertex and the
  vertex basis of the corner's patch at the corner's index; \<open>None\<close> when nothing was set.\<close>

definition kind_of :: "gsApproxC1Spline \<Rightarrow> patchCorner \<Rightarrow> int option" where
  "kind_of s c = (case elem_at (m_bases s) (patch c) of
                    None \<Rightarrow> None | Some b \<Rightarrow> kindOfVertex b (m_index c))"

definition vertex_basis_of :: "gsApproxC1Spline \<Rightarrow> patchCorner \<Rightarrow> gsTensorBSplineBasis option" where
  "vertex_basis_of s c = (case elem_at (m_bases s) (patch c) of
                    None \<Rightarrow> None | Some b \<Rightarrow> vertexBasis b (m_index c))"

text \<open>The patch numbers of a list of corners are indices of \<open>m_patches\<close>,
  \<open>m_multiBasis\<close> and \<open>m_bases\<close>.\<close>

definition corners_in_range :: "gsApproxC1Spline \<Rightarrow> patchCorner list \<Rightarrow> bool" where
  "corners_in_range s g \<longleftrightarrow>
     list_all (\<lambda>c. patch c < length (m_multiBasis s) \<and> patch c < length (m_bases s) \<and>
                  patch c < nPatches (m_patches s)) g"

subsection \<open>init(): the other loops\<close>

text \<open>A loop over a fixed list of indices or items whose body may fail.  Every local of
  \<open>init()\<close> that holds a basis or a knot vector is declared as an object and initialised
  from a reference (\<open>gsTensorBSplineBasis<d, T> basis_inner = dynamic_cast<...&>(...)\<close>):
  it is a copy, a value of the model.\<close>

fun for_each :: "('a \<Rightarrow> 's \<Rightarrow> 's option) \<Rightarrow> 'a list \<Rightarrow> 's \<Rightarrow> 's option" where
  "for_each body [] s = Some s"
| "for_each body (x # xs) s = do { s \<leftarrow> body x s; for_each body xs s }"

text \<open>The first loop: a container per patch, pushed to \<open>m_bases\<close>.\<close>

definition init_container :: "nat \<Rightarrow> gsApproxC1Spline \<Rightarrow> gsApproxC1Spline option" where
  "init_container np s =
     (let c1Basis = newC1Basis (m_patches s) np;
          c1Basis = setOptions (m_options s) c1Basis
      in Some (s\<lparr>m_bases := m_bases s @ [c1Basis]\<rparr>))"

text \<open>The loop that creates the interior spline space; \<open>init_inner_uv\<close> is the body of its
  loop over the two directions.  \<open>1 - knot_u\<close> is computed in \<open>real_t\<close>; here in the reals.\<close>

definition init_inner_uv ::
  "int \<Rightarrow> int \<Rightarrow> gsTensorBSplineBasis \<Rightarrow> gsTensorBSplineBasis option" where
  "init_inner_uv r uv basis_inner =
     (if degreeT basis_inner uv - r = 1 then
        do { knot_u \<leftarrow> knotT basis_inner uv (degreeT basis_inner uv + 1);
             let basis_inner = (if knot_u \<noteq> 1 then insertKnotT knot_u uv 1 basis_inner
                                else basis_inner);
             let basis_inner = (if knot_u \<noteq> 1 / 2 \<and> knot_u \<noteq> 1
                                then insertKnotT (1 - knot_u) uv 1 basis_inner
                                else basis_inner);
             Some basis_inner }
      else Some basis_inner)"

definition init_inner :: "nat \<Rightarrow> gsApproxC1Spline \<Rightarrow> gsApproxC1Spline option" where
  "init_inner np s =
     do { basis_inner \<leftarrow> elem_at (m_multiBasis s) np;
          let r = discreteRegularity (m_options s);
          basis_inner \<leftarrow> init_inner_uv r 0 basis_inner;
          basis_inner \<leftarrow> init_inner_uv r 1 basis_inner;
          upd_basis np (setInnerBasis basis_inner) s }"

text \<open>The body of the loop over the interfaces.  As in the source, \<open>kv_patch_2\<close> is taken
  from \<open>patch_basis_1\<close>.\<close>

definition init_interface :: "boundaryInterface \<Rightarrow> gsApproxC1Spline \<Rightarrow> gsApproxC1Spline option" where
  "init_interface item s =
     do { let side_1 = m_index (first_side item);
          let side_2 = m_index (second_side item);
          let patch_1 = patch (first_side item);
          let patch_2 = patch (second_side item);
          let dir_1 = (if side_1 > 2 then 0 else 1);
          let dir_2 = (if side_2 > 2 then 0 else 1);
          mb_1 \<leftarrow> elem_at (m_multiBasis s) patch_1;
          mb_2 \<leftarrow> elem_at (m_multiBasis s) patch_2;
          let basis_1 = component mb_1 dir_1;
          let basis_2 = component mb_2 dir_2;
          let basis_geo_1 = component mb_1 (1 - dir_1);
          let basis_geo_2 = component mb_2 (1 - dir_2);
          let kv_1 = basis_1;
          let kv_2 = basis_2;
          geo_1 \<leftarrow> elem_at (patches (m_patches s)) patch_1;
          let patch_basis_1 = component (basis geo_1) dir_1;
          let kv_patch_1 = patch_basis_1;
          geo_2 \<leftarrow> elem_at (patches (m_patches s)) patch_2;
          let patch_basis_2 = component (basis geo_2) dir_2;
          let kv_patch_2 = patch_basis_1;
          (out, kv_plus, kv_minus) \<leftarrow>
             createPlusMinusSpace (discreteRegularity (m_options s)) kv_1 kv_2 kv_patch_1 kv_patch_2;
          let s = s\<lparr>gsInfo_out := gsInfo_out s @ out\<rparr>;
          let basis_plus = kv_plus;
          let basis_minus = kv_minus;
          let (out, kv_gluingData) =
             createGluingDataSpace (p_tilde s) (r_tilde s) kv_1 kv_2 kv_patch_1 kv_patch_2;
          let s = s\<lparr>gsInfo_out := gsInfo_out s @ out\<rparr>;
          let basis_gluingData = kv_gluingData;
          s \<leftarrow> upd_basis patch_1 (setBasisPlus basis_plus side_1) s;
          s \<leftarrow> upd_basis patch_2 (setBasisPlus basis_plus side_2) s;
          s \<leftarrow> upd_basis patch_1 (setBasisMinus basis_minus side_1) s;
          s \<leftarrow> upd_basis patch_2 (setBasisMinus basis_minus side_2) s;
          s \<leftarrow> upd_basis patch_1 (setBasisGeo basis_geo_1 side_1) s;
          s \<leftarrow> upd_basis patch_2 (setBasisGeo basis_geo_2 side_2) s;
          s \<leftarrow> upd_basis patch_1 (setBasisGluingData basis_gluingData side_1) s;
          s \<leftarrow> upd_basis patch_2 (setBasisGluingData basis_gluingData side_2) s;
          let kv_geo_1 = basis_geo_1;
          let kv_geo_2 = basis_geo_2;
          (out, kv_edge_1, kv_edge_2) \<leftarrow>
             createLokalEdgeSpace kv_plus kv_minus kv_gluingData kv_gluingData kv_patch_1 kv_patch_2;
          let s = s\<lparr>gsInfo_out := gsInfo_out s @ out\<rparr>;
          let basis_edge_1 = tensorBasis (if dir_1 = 0 then kv_edge_1 else kv_geo_1)
                                         (if dir_1 = 0 then kv_geo_1 else kv_edge_1);
          let basis_edge_2 = tensorBasis (if dir_2 = 0 then kv_edge_2 else kv_geo_2)
                                         (if dir_2 = 0 then kv_geo_2 else kv_edge_2);
          s \<leftarrow> upd_basis patch_1 (setEdgeBasis basis_edge_1 side_1) s;
          upd_basis patch_2 (setEdgeBasis basis_edge_2 side_2) s }"

text \<open>The body of the loop over the boundary edges; \<open>bside\<close> is the source's \<open>bit\<close>.
  \<open>basis_geo_1\<close> is a \<open>gsBSplineBasis\<close>, a basis in one direction: its
  \<open>reduceContinuity(1)\<close> raises the multiplicity of the interior knots of its knot
  vector by one.\<close>

definition init_boundary :: "patchSide \<Rightarrow> gsApproxC1Spline \<Rightarrow> gsApproxC1Spline option" where
  "init_boundary bside s =
     do { let patch_1 = patch bside;
          let side_1 = m_index bside;
          let dir_1 = (if m_index bside < 3 then 1 else 0);
          basis_edge_1 \<leftarrow> elem_at (m_multiBasis s) patch_1;
          let basis_1 = component basis_edge_1 dir_1;
          let basis_geo_1 = component basis_edge_1 (1 - dir_1);
          let kv_1 = basis_1;
          geo_1 \<leftarrow> elem_at (patches (m_patches s)) patch_1;
          let patch_basis_1 = component (basis geo_1) dir_1;
          let kv_patch_1 = patch_basis_1;
          let (kv_plus, kv_minus) =
             createPlusMinusSpace1 (discreteRegularity (m_options s)) kv_1 kv_patch_1;
          let basis_plus = kv_plus;
          let basis_minus = kv_minus;
          let basis_geo_1 = (if degree basis_geo_1 - discreteRegularity (m_options s) = 1
                             then increaseMultiplicity 1 basis_geo_1 else basis_geo_1);
          s \<leftarrow> upd_basis patch_1 (setBasisGeo basis_geo_1 side_1) s;
          (out, kv_edge_1) \<leftarrow> createLokalEdgeSpace1 kv_plus kv_minus kv_patch_1;
          let s = s\<lparr>gsInfo_out := gsInfo_out s @ out\<rparr>;
          let kv_geo_1 = basis_geo_1;
          let basis_edge_1_temp = tensorBasis (if dir_1 = 0 then kv_edge_1 else kv_geo_1)
                                              (if dir_1 = 0 then kv_geo_1 else kv_edge_1);
          s \<leftarrow> upd_basis patch_1 (setEdgeBasis basis_edge_1_temp side_1) s;
          s \<leftarrow> upd_basis patch_1 (setBasisPlus basis_plus side_1) s;
          upd_basis patch_1 (setBasisMinus basis_minus side_1) s }"

text \<open>The end of \<open>init()\<close>: the size of the matrix, and the lines printed for one patch
  when the switch \<open>info\<close> is set.\<close>

definition size_matrix :: "gsApproxC1Spline \<Rightarrow> gsApproxC1Spline" where
  "size_matrix s =
     (let dim_col = sum_list (map size_cols (m_bases s));
          dim_row = sum_list (map size_rows (m_bases s));
          nz = 7 * dim_row
      in s\<lparr>m_matrix := \<lparr>mat_rows = dim_row, mat_cols = dim_col, entries = [],
                           reserved = nz, compressed = False\<rparr>\<rparr>)"

subsection \<open>compute()\<close>

text \<open>What \<open>init()\<close> and \<open>compute()\<close> call in classes that are not among the source files:
  \<open>size()\<close> of a component basis, the number of interfaces that \<open>computeTopology()\<close>
  finds among a list of patches, the builders \<open>gsApproxC1Edge::saveBasisInterface\<close>,
  \<open>gsApproxC1Edge::saveBasisBoundary\<close> and \<open>gsApproxC1Vertex::saveBasisVertex\<close> with the
  arguments of their constructors (by section 4.4 of the spec they write rows of the
  global matrix), \<open>gsC1Basis::init()\<close> and \<open>gsC1Basis::print_spaces()\<close>, and the printing
  of an integer.\<close>

record externals =
  size1 :: "gsKnotVector \<Rightarrow> int"
  nInterfaces :: "gsGeometry list \<Rightarrow> nat"
  saveBasisInterface :: "gsMultiPatch \<Rightarrow> gsC1Basis list \<Rightarrow> boundaryInterface \<Rightarrow> nat
     \<Rightarrow> gsOptionList \<Rightarrow> gsSparseMatrix \<Rightarrow> gsSparseMatrix"
  saveBasisBoundary :: "gsMultiPatch \<Rightarrow> gsC1Basis list \<Rightarrow> patchSide \<Rightarrow> nat
     \<Rightarrow> gsOptionList \<Rightarrow> gsSparseMatrix \<Rightarrow> gsSparseMatrix"
  saveBasisVertex :: "gsMultiPatch \<Rightarrow> gsC1Basis list \<Rightarrow> nat list \<Rightarrow> nat list \<Rightarrow> nat
     \<Rightarrow> gsOptionList \<Rightarrow> gsSparseMatrix \<Rightarrow> gsSparseMatrix"
  c1_init :: "gsC1Basis \<Rightarrow> gsC1Basis"
  print_spaces :: "gsC1Basis \<Rightarrow> diagnostics"
  show_int :: "int \<Rightarrow> string"

text \<open>\<open>m_bases[np].print_spaces()\<close> for one patch.\<close>

definition print_patch :: "externals \<Rightarrow> nat \<Rightarrow> gsApproxC1Spline \<Rightarrow> gsApproxC1Spline option" where
  "print_patch ext np s =
     do { b \<leftarrow> elem_at (m_bases s) np;
          Some (s\<lparr>gsInfo_out := gsInfo_out s @ print_spaces ext b\<rparr>) }"

text \<open>\<open>init()\<close>: the containers, the interior spaces, the interfaces, the boundary edges,
  the vertices, \<open>gsC1Basis::init()\<close> of every container, the size of the matrix, and the
  lines of the switch \<open>info\<close>.\<close>

definition init :: "externals \<Rightarrow> gsApproxC1Spline \<Rightarrow> gsApproxC1Spline option" where
  "init ext s =
     do { s \<leftarrow> for_each init_container [0..<nPatches (m_patches s)] s;
          s \<leftarrow> for_each init_inner [0..<nPatches (m_patches s)] s;
          s \<leftarrow> for_each init_interface (interfaces (m_patches s)) s;
          s \<leftarrow> for_each init_boundary (boundaries (m_patches s)) s;
          s \<leftarrow> init_vertices (nInterfaces ext) (vertices (m_patches s)) s;
          s \<leftarrow> for_each (\<lambda>np. upd_basis np (c1_init ext)) [0..<nPatches (m_patches s)] s;
          let s = size_matrix s;
          if info_switch (m_options s)
          then for_each (print_patch ext) [0..<nPatches (m_patches s)] s
          else Some s }"

text \<open>The two inner loops of the interior pass, \<open>for (i = 2; i < dim_u-2; ++i)\<close> inside
  \<open>for (j = 2; j < dim_v-2; ++j)\<close>, with the counter \<open>row_i\<close>; \<open>index_t\<close> is signed.\<close>

function inner_loop_i ::
  "int \<Rightarrow> int \<Rightarrow> int \<Rightarrow> int \<Rightarrow> int \<Rightarrow> int \<Rightarrow> gsSparseMatrix \<Rightarrow> int \<times> gsSparseMatrix" where
  "inner_loop_i shift_row shift_col dim_u j i row_i M =
     (if i < dim_u - 2
      then inner_loop_i shift_row shift_col dim_u j (i + 1) (row_i + 1)
             (insert_entry (shift_row + row_i) (shift_col + j * dim_u + i) 1 M)
      else (row_i, M))"
  by pat_completeness auto
termination
  by (relation "measure (\<lambda>(shift_row, shift_col, dim_u, j, i, row_i, M). nat (dim_u - 2 - i))")
    auto

declare inner_loop_i.simps [simp del]

function inner_loop_j ::
  "int \<Rightarrow> int \<Rightarrow> int \<Rightarrow> int \<Rightarrow> int \<Rightarrow> int \<Rightarrow> gsSparseMatrix \<Rightarrow> int \<times> gsSparseMatrix" where
  "inner_loop_j shift_row shift_col dim_u dim_v j row_i M =
     (if j < dim_v - 2
      then (case inner_loop_i shift_row shift_col dim_u j 2 row_i M of
              (row_i, M) \<Rightarrow> inner_loop_j shift_row shift_col dim_u dim_v (j + 1) row_i M)
      else (row_i, M))"
  by pat_completeness auto
termination
  by (relation "measure (\<lambda>(shift_row, shift_col, dim_u, dim_v, j, row_i, M). nat (dim_v - 2 - j))")
    auto

declare inner_loop_j.simps [simp del]

text \<open>The loop over the patches of the interior pass.  \<open>getInnerBasis()\<close> of a container
  whose inner basis was never set, and \<open>m_bases[np]\<close> outside the vector, are \<open>None\<close>.\<close>

function interior_loop ::
  "externals \<Rightarrow> nat \<Rightarrow> int \<Rightarrow> int \<Rightarrow> gsApproxC1Spline \<Rightarrow> gsApproxC1Spline option" where
  "interior_loop ext np shift_row shift_col s =
     (if np < nPatches (m_patches s) then
        do { b \<leftarrow> elem_at (m_bases s) np;
             inner \<leftarrow> basisInner b;
             let dim_u = size1 ext (component inner 0);
             let dim_v = size1 ext (component inner 1);
             let M = snd (inner_loop_j shift_row shift_col dim_u dim_v 2 0 (m_matrix s));
             interior_loop ext (np + 1) (shift_row + size_rows b) (shift_col + size_cols b)
               (s\<lparr>m_matrix := M, calls := calls s @ [InteriorBlock np]\<rparr>) }
      else Some s)"
  by pat_completeness auto
termination
  by (relation "measure (\<lambda>(ext, np, shift_row, shift_col, s). nPatches (m_patches s) - np)")
    auto

declare interior_loop.simps [simp del]

text \<open>The loops over the interfaces, the boundaries and the vertices: each constructs a
  builder and lets it write into \<open>m_matrix\<close>.\<close>

function interface_loop :: "externals \<Rightarrow> nat \<Rightarrow> gsApproxC1Spline \<Rightarrow> gsApproxC1Spline" where
  "interface_loop ext numInt s =
     (if numInt < length (interfaces (m_patches s)) then
        (let item = interfaces (m_patches s) ! numInt;
             M = saveBasisInterface ext (m_patches s) (m_bases s) item numInt (m_options s)
                   (m_matrix s)
         in interface_loop ext (numInt + 1)
              (s\<lparr>m_matrix := M, calls := calls s @ [InterfaceBuilder numInt]\<rparr>))
      else s)"
  by pat_completeness auto
termination
  by (relation "measure (\<lambda>(ext, numInt, s). length (interfaces (m_patches s)) - numInt)") auto

declare interface_loop.simps [simp del]

function boundary_loop :: "externals \<Rightarrow> nat \<Rightarrow> gsApproxC1Spline \<Rightarrow> gsApproxC1Spline" where
  "boundary_loop ext numBdy s =
     (if numBdy < length (boundaries (m_patches s)) then
        (let bit = boundaries (m_patches s) ! numBdy;
             M = saveBasisBoundary ext (m_patches s) (m_bases s) bit numBdy (m_options s)
                   (m_matrix s)
         in boundary_loop ext (numBdy + 1)
              (s\<lparr>m_matrix := M, calls := calls s @ [BoundaryBuilder numBdy]\<rparr>))
      else s)"
  by pat_completeness auto
termination
  by (relation "measure (\<lambda>(ext, numBdy, s). length (boundaries (m_patches s)) - numBdy)") auto

declare boundary_loop.simps [simp del]

function vertex_builder_loop :: "externals \<Rightarrow> nat \<Rightarrow> gsApproxC1Spline \<Rightarrow> gsApproxC1Spline" where
  "vertex_builder_loop ext numVer s =
     (if numVer < length (vertices (m_patches s)) then
        (let allcornerLists = vertices (m_patches s) ! numVer;
             patchIndex = map patch allcornerLists;
             vertIndex = map m_index allcornerLists;
             M = saveBasisVertex ext (m_patches s) (m_bases s) patchIndex vertIndex numVer
                   (m_options s) (m_matrix s)
         in vertex_builder_loop ext (numVer + 1)
              (s\<lparr>m_matrix := M, calls := calls s @ [VertexBuilder numVer]\<rparr>))
      else s)"
  by pat_completeness auto
termination
  by (relation "measure (\<lambda>(ext, numVer, s). length (vertices (m_patches s)) - numVer)") auto

declare vertex_builder_loop.simps [simp del]

text \<open>The lines that \<open>compute()\<close> prints at the end when the switch \<open>info\<close> is set.\<close>

definition dim_lines :: "externals \<Rightarrow> gsC1Basis list \<Rightarrow> diagnostics" where
  "dim_lines ext bs =
     [''Dim for Patches: \<newline>'']
     @ map (\<lambda>b. ''('' @ show_int ext (size_rows b) @ '','' @ show_int ext (size_cols b)
                   @ ''), '') bs
     @ [''\<newline>'']"

text \<open>\<open>compute()\<close>: the interior pass, the three loops of the builders, the compression
  of the matrix, and the lines of the switch \<open>info\<close>.\<close>

definition compute :: "externals \<Rightarrow> gsApproxC1Spline \<Rightarrow> gsApproxC1Spline option" where
  "compute ext s =
     do { s \<leftarrow> interior_loop ext 0 0 0 s;
          let s = interface_loop ext 0 s;
          let s = boundary_loop ext 0 s;
          let s = vertex_builder_loop ext 0 s;
          let s = s\<lparr>m_matrix := makeCompressed (m_matrix s), calls := calls s @ [Compress]\<rparr>;
          if info_switch (m_options s) then
            (if length (m_bases s) < nPatches (m_patches s) then None
             else Some (s\<lparr>gsInfo_out := gsInfo_out s
                          @ dim_lines ext (take (nPatches (m_patches s)) (m_bases s))\<rparr>))
          else Some s }"

text \<open>Two states of the object with the same inputs and as many containers.\<close>

definition same_inputs :: "gsApproxC1Spline \<Rightarrow> gsApproxC1Spline \<Rightarrow> bool" where
  "same_inputs s s' \<longleftrightarrow>
     m_patches s' = m_patches s \<and> m_multiBasis s' = m_multiBasis s \<and>
     m_options s' = m_options s \<and> p_tilde s' = p_tilde s \<and> r_tilde s' = r_tilde s \<and>
     length (m_bases s') = length (m_bases s)"

text \<open>The number of interfaces that \<open>computeTopology()\<close> reports for the patches of a
  list of corners, \<open>temp_mp.interfaces().size()\<close>.\<close>

definition interfaces_among ::
  "(gsGeometry list \<Rightarrow> nat) \<Rightarrow> gsApproxC1Spline \<Rightarrow> patchCorner list \<Rightarrow> nat" where
  "interfaces_among nI s g = nI (map (\<lambda>c. patches (m_patches s) ! patch c) g)"

text \<open>The kind of a vertex in the words of the spec (section 4.3): -1 for exactly one
  (patch, corner), 0 when the number of pairs equals the number of interfaces, otherwise 1.\<close>

definition claimed_kind :: "nat \<Rightarrow> nat \<Rightarrow> int" where
  "claimed_kind n m = (if n = 1 then - 1 else if n = m then 0 else 1)"

text \<open>The continuity of a knot vector at a knot: degree minus multiplicity.\<close>

definition continuity_at :: "gsKnotVector \<Rightarrow> real \<Rightarrow> int" where
  "continuity_at kv x = degree kv - mult_at kv x"



text \<open>What \<open>vertex_basis_elevated\<close> does to each of the two knot vectors of the basis.\<close>

definition vertex_chain :: "int \<Rightarrow> int \<Rightarrow> int \<Rightarrow> gsKnotVector \<Rightarrow> gsKnotVector" where
  "vertex_chain pt rt r kv =
     (let kv = degreeElevate (pt - 1) kv;
          kv = (if r \<noteq> 1 then increaseMultiplicity 1 kv else kv)
      in if rt < r - 1 then increaseMultiplicity (r - rt - 1) kv else kv)"

text \<open>The entries that one run of the inner loop over \<open>i\<close> inserts, for the row counter
  \<open>r0\<close> at its start.\<close>

definition row_block :: "int \<Rightarrow> int \<Rightarrow> int \<Rightarrow> int \<Rightarrow> int \<Rightarrow> ((int \<times> int) \<times> real) list" where
  "row_block sr sc du r0 j' =
     map (\<lambda>i'. ((sr + (r0 + (i' - 2)), sc + j' * du + i'), 1)) [2..du - 3]"

text \<open>The interior block of patch \<open>np\<close> in the words of the spec: for the interior lattice
  indices (i, j) with 2 \<le> i < dim_u - 2 and 2 \<le> j < dim_v - 2, in row-major order with the
  v-index outer, the value 1 at row shift_row + row_i and column shift_col + j * dim_u + i,
  where row_i = (j - 2) * (dim_u - 4) + (i - 2) counts the lattice and shift_row, shift_col
  are the sums of \<open>size_rows()\<close> and \<open>size_cols()\<close> over the patches before \<open>np\<close>.\<close>

definition interior_block ::
  "externals \<Rightarrow> gsC1Basis list \<Rightarrow> nat \<Rightarrow> ((int \<times> int) \<times> real) list" where
  "interior_block ext bs np =
     (case basisInner (bs ! np) of
        None \<Rightarrow> []
      | Some inner \<Rightarrow>
          let dim_u = size1 ext (component inner 0);
              dim_v = size1 ext (component inner 1);
              shift_row = sum_list (map size_rows (take np bs));
              shift_col = sum_list (map size_cols (take np bs))
          in concat (map (\<lambda>j. map (\<lambda>i. ((shift_row + ((j - 2) * (dim_u - 4) + (i - 2)),
                                          shift_col + j * dim_u + i), 1))
                                [2..dim_u - 3])
                       [2..dim_v - 3]))"

text \<open>What \<open>init()\<close> leaves for \<open>compute()\<close>: a container for every patch, each with its
  inner basis set.\<close>

definition bases_ready :: "gsApproxC1Spline \<Rightarrow> bool" where
  "bases_ready s \<longleftrightarrow>
     nPatches (m_patches s) \<le> length (m_bases s) \<and>
     list_all (\<lambda>b. basisInner b \<noteq> None) (take (nPatches (m_patches s)) (m_bases s))"

text \<open>Two states that differ at most in the matrix and in the record of the steps.\<close>

definition builders_frame :: "gsApproxC1Spline \<Rightarrow> gsApproxC1Spline \<Rightarrow> bool" where
  "builders_frame s s' \<longleftrightarrow>
     m_patches s' = m_patches s \<and> m_multiBasis s' = m_multiBasis s \<and>
     m_options s' = m_options s \<and> p_tilde s' = p_tilde s \<and> r_tilde s' = r_tilde s \<and>
     m_bases s' = m_bases s \<and> gsInfo_out s' = gsInfo_out s"

text \<open>The phase of a step of \<open>compute()\<close>: interior, interfaces, boundaries, vertices,
  compression.\<close>

definition phase :: "matrix_call \<Rightarrow> nat" where
  "phase c = (case c of InteriorBlock _ \<Rightarrow> 0 | InterfaceBuilder _ \<Rightarrow> 1
              | BoundaryBuilder _ \<Rightarrow> 2 | VertexBuilder _ \<Rightarrow> 3 | Compress \<Rightarrow> 4)"

text \<open>The matrix after the interior pass in the words of the spec: the matrix before it
  with the interior block of every patch added, patch after patch.\<close>

definition interior_filled :: "externals \<Rightarrow> gsApproxC1Spline \<Rightarrow> gsSparseMatrix" where
  "interior_filled ext s =
     (m_matrix s)\<lparr>entries := entries (m_matrix s)
        @ concat (map (interior_block ext (m_bases s)) [0..<nPatches (m_patches s)])\<rparr>"

text \<open>The work of the builders in the words of the spec: the builder of each interface
  of the given numbers applied to a matrix, one after the other, each constructed from
  the geometry, the containers, its interface, its number and the options.\<close>

definition interface_builders ::
  "externals \<Rightarrow> gsApproxC1Spline \<Rightarrow> nat list \<Rightarrow> gsSparseMatrix \<Rightarrow> gsSparseMatrix" where
  "interface_builders ext s ks M =
     fold (\<lambda>numInt. saveBasisInterface ext (m_patches s) (m_bases s)
                       (interfaces (m_patches s) ! numInt) numInt (m_options s)) ks M"

text \<open>The same for the builders of the boundaries of the given numbers.\<close>

definition boundary_builders ::
  "externals \<Rightarrow> gsApproxC1Spline \<Rightarrow> nat list \<Rightarrow> gsSparseMatrix \<Rightarrow> gsSparseMatrix" where
  "boundary_builders ext s ks M =
     fold (\<lambda>numBdy. saveBasisBoundary ext (m_patches s) (m_bases s)
                       (boundaries (m_patches s) ! numBdy) numBdy (m_options s)) ks M"

text \<open>The same for the builders of the vertex groups of the given numbers, each
  constructed from the patch numbers and the corner indices of its group.\<close>

definition vertex_builders ::
  "externals \<Rightarrow> gsApproxC1Spline \<Rightarrow> nat list \<Rightarrow> gsSparseMatrix \<Rightarrow> gsSparseMatrix" where
  "vertex_builders ext s ks M =
     fold (\<lambda>numVer. saveBasisVertex ext (m_patches s) (m_bases s)
                       (map patch (vertices (m_patches s) ! numVer))
                       (map m_index (vertices (m_patches s) ! numVer)) numVer (m_options s)) ks M"

section \<open>gsParametrization::constructAndSolveEquationSystem_2\<close>

text \<open>
  A \<open>gsMatrix<T>\<close> is modelled by its coefficients; \<open>M(i, j) = v\<close> is \<open>set_coeff\<close>.  The
  product of two matrices is computed by Eigen in the arithmetic of \<open>T\<close>; it is a parameter,
  as are the other things the function calls outside this file: \<open>getLambdas\<close> of the
  neighbourhood, \<open>createFlatMesh()\<close> (which reads the parameter points),
  \<open>std::to_string\<close>.  \<open>gsWriteParaview\<close> adds a file to the files written.
\<close>

type_synonym gsMatrix = "nat \<Rightarrow> nat \<Rightarrow> real"

definition set_coeff :: "gsMatrix \<Rightarrow> nat \<Rightarrow> nat \<Rightarrow> real \<Rightarrow> gsMatrix" where
  "set_coeff M i j v = M(i := (M i)(j := v))"

record Point2D =
  px :: real
  py :: real
  vertexIndex :: nat

record 'mesh param_externals =
  mat_mult :: "gsMatrix \<Rightarrow> gsMatrix \<Rightarrow> gsMatrix"
  getLambdas :: "nat \<Rightarrow> real list"
  createFlatMesh :: "Point2D list \<Rightarrow> 'mesh"
  to_string :: "nat \<Rightarrow> string"

text \<open>The state of the function: the locals \<open>LHS\<close>, \<open>RHS\<close> and \<open>sol\<close>, the member
  \<open>m_parameterPoints\<close>, and the files written.  The field \<open>iterations\<close> is not in the
  source: it counts the executions of the body of the loop over \<open>k\<close>.\<close>

record 'mesh param_state =
  LHS :: gsMatrix
  RHS :: gsMatrix
  sol :: gsMatrix
  m_parameterPoints :: "Point2D list"
  written :: "(string \<times> 'mesh) list"
  iterations :: nat

text \<open>The loops that fill \<open>LHS\<close> and \<open>RHS\<close>: for the rows \<open>i < n\<close> the loop over \<open>j < N\<close>,
  then the rows \<open>n \<le> i < N\<close>.  A read \<open>lambdas[j]\<close> or \<open>m_parameterPoints[i]\<close> outside the
  vector is \<open>None\<close>.\<close>

function lambda_cols ::
  "real list \<Rightarrow> nat \<Rightarrow> nat \<Rightarrow> nat \<Rightarrow> gsMatrix \<times> gsMatrix \<Rightarrow> (gsMatrix \<times> gsMatrix) option" where
  "lambda_cols lambdas N i j LR =
     (if j < N then
        (case elem_at lambdas j of
           None \<Rightarrow> None
         | Some l \<Rightarrow>
             lambda_cols lambdas N i (j + 1)
               (set_coeff (fst LR) i j l, set_coeff (set_coeff (snd LR) i 0 (1 / 2)) i 1 (1 / 2)))
      else Some LR)"
  by pat_completeness auto
termination
  by (relation "measure (\<lambda>(lambdas, N, i, j, LR). N - j)") auto

declare lambda_cols.simps [simp del]

function lambda_rows ::
  "(nat \<Rightarrow> real list) \<Rightarrow> nat \<Rightarrow> nat \<Rightarrow> nat \<Rightarrow> gsMatrix \<times> gsMatrix
     \<Rightarrow> (gsMatrix \<times> gsMatrix) option" where
  "lambda_rows lam n N i LR =
     (if i < n then
        (case lambda_cols (lam i) N i 0 LR of
           None \<Rightarrow> None
         | Some LR \<Rightarrow> lambda_rows lam n N (i + 1) LR)
      else Some LR)"
  by pat_completeness auto
termination
  by (relation "measure (\<lambda>(lam, n, N, i, LR). n - i)") auto

declare lambda_rows.simps [simp del]

function boundary_rows ::
  "Point2D list \<Rightarrow> nat \<Rightarrow> nat \<Rightarrow> gsMatrix \<times> gsMatrix \<Rightarrow> (gsMatrix \<times> gsMatrix) option" where
  "boundary_rows pts N i LR =
     (if i < N then
        (case elem_at pts i of
           None \<Rightarrow> None
         | Some p \<Rightarrow>
             boundary_rows pts N (i + 1)
               (set_coeff (fst LR) i i 1, set_coeff (set_coeff (snd LR) i 0 (px p)) i 1 (py p)))
      else Some LR)"
  by pat_completeness auto
termination
  by (relation "measure (\<lambda>(pts, N, i, LR). N - i)") auto

declare boundary_rows.simps [simp del]

text \<open>The loop \<open>for (i = 0; i < n; i++) m_parameterPoints[i] << sol(i, 0), sol(i, 1)\<close>.\<close>

function set_points :: "nat \<Rightarrow> nat \<Rightarrow> gsMatrix \<Rightarrow> Point2D list \<Rightarrow> Point2D list option" where
  "set_points n i M pts =
     (if i < n then
        (if i < length pts
         then set_points n (i + 1) M (pts[i := (pts ! i)\<lparr>px := M i 0, py := M i 1\<rparr>])
         else None)
      else Some pts)"
  by pat_completeness auto
termination
  by (relation "measure (\<lambda>(n, i, M, pts). n - i)") auto

declare set_points.simps [simp del]

text \<open>The loop \<open>for (size_t k = 0; k <= 100; k++)\<close>.\<close>

function power_loop ::
  "'mesh param_externals \<Rightarrow> nat \<Rightarrow> nat \<Rightarrow> 'mesh param_state \<Rightarrow> 'mesh param_state option" where
  "power_loop ext n k st =
     (if k \<le> 100 then
        (let st = st\<lparr>sol := mat_mult ext (LHS st) (RHS st)\<rparr>;
             st = st\<lparr>RHS := sol st\<rparr>
         in case set_points n 0 (sol st) (m_parameterPoints st) of
              None \<Rightarrow> None
            | Some pts \<Rightarrow>
                let st = st\<lparr>m_parameterPoints := pts\<rparr>;
                    st = (if k mod 5 = 0
                          then st\<lparr>written := written st
                                 @ [(''mesh'' @ to_string ext k,
                                     createFlatMesh ext (m_parameterPoints st))]\<rparr>
                          else st)
                in power_loop ext n (k + 1) (st\<lparr>iterations := iterations st + 1\<rparr>))
      else Some st)"
  by pat_completeness auto
termination
  by (relation "measure (\<lambda>(ext, n, k, st). 101 - k)") auto

declare power_loop.simps [simp del]

text \<open>The function.  The matrices \<open>LHS(N, N)\<close> and \<open>RHS(N, 2)\<close> are created without
  initial values: the state passed in holds whatever they contain.\<close>

definition constructAndSolveEquationSystem_2 ::
  "'mesh param_externals \<Rightarrow> nat \<Rightarrow> nat \<Rightarrow> 'mesh param_state \<Rightarrow> 'mesh param_state option" where
  "constructAndSolveEquationSystem_2 ext n N st =
     (case lambda_rows (getLambdas ext) n N 0 (LHS st, RHS st) of
        None \<Rightarrow> None
      | Some LR \<Rightarrow>
          (case boundary_rows (m_parameterPoints st) N n LR of
             None \<Rightarrow> None
           | Some LR \<Rightarrow> power_loop ext n 0 (st\<lparr>LHS := fst LR, RHS := snd LR\<rparr>)))"

text \<open>The names of the files written by the loop from \<open>k\<close> on: one for every multiple of 5
  up to 100.\<close>

definition mesh_files :: "'mesh param_externals \<Rightarrow> nat \<Rightarrow> string list" where
  "mesh_files ext k = map (\<lambda>j. ''mesh'' @ to_string ext j) (filter (\<lambda>j. j mod 5 = 0) [k..<101])"

text \<open>Two states of the object with the same multi-patch geometry and the same multi-basis.\<close>

definition inputs_kept :: "gsApproxC1Spline \<Rightarrow> gsApproxC1Spline \<Rightarrow> bool" where
  "inputs_kept s s' \<longleftrightarrow> m_patches s' = m_patches s \<and> m_multiBasis s' = m_multiBasis s"

section \<open>Example data\<close>

text \<open>A cubic knot vector on [0, 1] with the interior break point 1/2 of multiplicity 2.\<close>

definition kv_cubic :: gsKnotVector where
  "kv_cubic = \<lparr>m_knots = [(0, 4), (1 / 2, 2), (1, 4)], m_deg = 3\<rparr>"

text \<open>A cubic knot vector on [0, 1] without interior break points, and the plus and
  minus spaces of \<open>kv_cubic\<close> for regularity 1.\<close>

definition kv_unit :: gsKnotVector where
  "kv_unit = \<lparr>m_knots = [(0, 4), (1, 4)], m_deg = 3\<rparr>"



text \<open>The local edge spaces of these for an interface and for a boundary edge.\<close>

definition kv_edge_ex :: gsKnotVector where
  "kv_edge_ex = \<lparr>m_knots = [(0, 6), (1 / 2, 4), (1, 6)], m_deg = 5\<rparr>"









text \<open>A cubic knot vector on [0, 1] with another interior break point, 1/4.\<close>

definition kv_quarter :: gsKnotVector where
  "kv_quarter = \<lparr>m_knots = [(0, 4), (1 / 4, 2), (1, 4)], m_deg = 3\<rparr>"

text \<open>Three bicubic patches with three vertices: one corner alone, two corners, three
  corners; and a topology that finds three interfaces among three patches and one
  otherwise.\<close>

definition corner :: "nat \<Rightarrow> nat \<Rightarrow> patchCorner" where
  "corner p i = \<lparr>patch = p, m_index = i\<rparr>"

definition bicubic :: gsTensorBSplineBasis where
  "bicubic = \<lparr>comp0 = kv_cubic, comp1 = kv_cubic\<rparr>"

definition kv_quintic :: gsKnotVector where
  "kv_quintic = \<lparr>m_knots = [(0, 6), (1 / 2, 1), (1, 6)], m_deg = 5\<rparr>"

definition biquintic :: gsTensorBSplineBasis where
  "biquintic = \<lparr>comp0 = kv_quintic, comp1 = kv_quintic\<rparr>"

definition mp_ex :: gsMultiPatch where
  "mp_ex = \<lparr>patches = [\<lparr>basis = bicubic, coefs = []\<rparr>, \<lparr>basis = bicubic, coefs = []\<rparr>,
                       \<lparr>basis = bicubic, coefs = []\<rparr>],
            interfaces = [\<lparr>first_side = \<lparr>patch = 0, m_index = 2\<rparr>,
                            second_side = \<lparr>patch = 1, m_index = 1\<rparr>\<rparr>],
            boundaries = [\<lparr>patch = 0, m_index = 1\<rparr>, \<lparr>patch = 2, m_index = 4\<rparr>],
            vertices = [[corner 0 1], [corner 0 2, corner 1 1],
                        [corner 0 4, corner 1 3, corner 2 1]]\<rparr>"

definition spline_ex :: gsApproxC1Spline where
  "spline_ex = \<lparr>m_patches = mp_ex, m_multiBasis = [bicubic, bicubic, bicubic],
     m_options = \<lparr>discreteRegularity = 1, info_switch = False\<rparr>,
     p_tilde = 3, r_tilde = 1, m_bases = [emptyC1Basis, emptyC1Basis, emptyC1Basis],
     m_matrix = \<lparr>mat_rows = 0, mat_cols = 0, entries = [], reserved = 0, compressed = False\<rparr>,
     gsInfo_out = [], calls = []\<rparr>"

definition spline_ex4 :: gsApproxC1Spline where
  "spline_ex4 = spline_ex\<lparr>m_multiBasis := [biquintic, biquintic, biquintic],
     m_options := \<lparr>discreteRegularity = 4, info_switch = False\<rparr>\<rparr>"

definition topology_ex :: "gsGeometry list \<Rightarrow> nat" where
  "topology_ex ps = (if length ps = 3 then 3 else 1)"

definition kv_septic :: gsKnotVector where
  "kv_septic = \<lparr>m_knots = [(0, 8), (1 / 2, 6), (1, 8)], m_deg = 7\<rparr>"

text \<open>Externals for the examples: the size of a B-spline basis (number of knots minus
  degree minus 1), builders that write nothing, and containers of 36 rows and columns
  whose inner basis is the bicubic one.\<close>

definition ext_ex :: externals where
  "ext_ex = \<lparr>size1 = (\<lambda>kv. sum_list (multiplicities kv) - degree kv - 1),
     nInterfaces = topology_ex,
     saveBasisInterface = (\<lambda>mp bs item k opt M. M),
     saveBasisBoundary = (\<lambda>mp bs bit k opt M. M),
     saveBasisVertex = (\<lambda>mp bs ps vs k opt M. M),
     c1_init = (\<lambda>b. b\<lparr>size_rows := 36, size_cols := 36\<rparr>),
     print_spaces = (\<lambda>b. []),
     show_int = (\<lambda>i. [])\<rparr>"

text \<open>The same externals with builders that leave a mark: each adds one entry, in row
  100, 200 or 300 for an interface, a boundary or a vertex group, in the column of its
  number.\<close>

definition ext_mark :: externals where
  "ext_mark = ext_ex\<lparr>
     saveBasisInterface := (\<lambda>mp bs item k opt M. insert_entry 100 (int k) 2 M),
     saveBasisBoundary := (\<lambda>mp bs bit k opt M. insert_entry 200 (int k) 3 M),
     saveBasisVertex := (\<lambda>mp bs ps vs k opt M. insert_entry 300 (int k) 4 M)\<rparr>"

definition c1_ready :: gsC1Basis where
  "c1_ready = emptyC1Basis\<lparr>basisInner := Some bicubic, size_rows := 36, size_cols := 36\<rparr>"

definition spline_ready :: gsApproxC1Spline where
  "spline_ready = spline_ex\<lparr>m_bases := [c1_ready, c1_ready, c1_ready]\<rparr>"

text \<open>One interior vertex with three boundary vertices around it: weights 1/3, four
  parameter points, and the product of 4 x 4 with 4 x 2 matrices.\<close>

definition ext_fan :: "unit param_externals" where
  "ext_fan = \<lparr>mat_mult = (\<lambda>A B i j. A i 0 * B 0 j + A i 1 * B 1 j + A i 2 * B 2 j + A i 3 * B 3 j),
     getLambdas = (\<lambda>i. [0, 1 / 3, 1 / 3, 1 / 3]),
     createFlatMesh = (\<lambda>pts. ()),
     to_string = (\<lambda>k. [])\<rparr>"

definition st_fan :: "unit param_state" where
  "st_fan = \<lparr>LHS = (\<lambda>i j. 0), RHS = (\<lambda>i j. 0), sol = (\<lambda>i j. 0),
     m_parameterPoints = [\<lparr>px = 0, py = 0, vertexIndex = 1\<rparr>, \<lparr>px = 0, py = 0, vertexIndex = 2\<rparr>,
                          \<lparr>px = 1, py = 0, vertexIndex = 3\<rparr>, \<lparr>px = 0, py = 1, vertexIndex = 4\<rparr>],
     written = [], iterations = 0\<rparr>"

text \<open>The object of the examples before \<open>init()\<close>: no container yet.\<close>

definition spline_start :: gsApproxC1Spline where
  "spline_start = spline_ex\<lparr>m_bases := []\<rparr>"

section \<open>Properties of the knot-vector operations\<close>


lemma inner_upd_snoc: "inner_upd f (mid @ [b]) = map (apsnd f) mid @ [b]"
proof (induction mid)
  case Nil
  show ?case by simp
next
  case (Cons k mid)
  obtain c ks where "mid @ [b] = c # ks" by (cases "mid @ [b]") auto
  with Cons show ?case by (simp add: apsnd_def map_prod_def split_beta)
qed

lemma interior_upd_decomp:
  "interior_upd f (a # mid @ [b]) = a # map (apsnd f) mid @ [b]"
  by (simp add: inner_upd_snoc)

lemma last_upd_snoc: "last_upd f (ks @ [b]) = ks @ [(fst b, f (snd b))]"
proof (induction ks)
  case Nil
  show ?case by simp
next
  case (Cons k ks)
  obtain c ks' where "ks @ [b] = c # ks'" by (cases "ks @ [b]") auto
  with Cons show ?case by simp
qed

lemma ends_upd_decomp:
  "ends_upd f (a # mid @ [b]) = (fst a, f (snd a)) # mid @ [(fst b, f (snd b))]"
  using last_upd_snoc[of f "(fst a, f (snd a)) # mid" b] by simp

lemma two_decomp:
  assumes "2 \<le> length ks"
  obtains a mid b where "ks = a # mid @ [b]"
proof -
  from assms have 1: "ks \<noteq> []" and 2: "tl ks \<noteq> []"
    by (cases ks; auto)+
  from 2 have "tl ks = butlast (tl ks) @ [last (tl ks)]" by simp
  with 1 have "ks = hd ks # butlast (tl ks) @ [last (tl ks)]"
    by (metis list.collapse)
  then show thesis by (rule that)
qed

lemma map_of_mid:
  assumes "distinct (map fst (a # mid @ [b]))" and "x \<in> fst ` set mid"
    and "fst a' = fst a" and "map fst mid' = map fst mid"
  shows "map_of (a' # mid' @ [b']) x = map_of mid' x"
proof -
  from assms(1) have "fst a \<notin> fst ` set mid" by simp
  with assms(2) have "x \<noteq> fst a" by blast
  moreover from assms(4) assms(2) have "x \<in> fst ` set mid'"
    by (metis list.set_map)
  then have "x \<in> dom (map_of mid')" by (simp add: dom_map_of_conv_image_fst)
  ultimately show ?thesis using assms(3) by (auto simp: map_add_dom_app_simps)
qed

lemma map_of_map_snd:
  "map_of (map (apsnd f) ks) x = map_option f (map_of ks x)"
  by (induction ks) auto

lemma map_of_drop_empty:
  "distinct (map fst ks) \<Longrightarrow>
   map_of (drop_empty ks) x = (case map_of ks x of None \<Rightarrow> None | Some m \<Rightarrow> if 0 < m then Some m else None)"
  by (induction ks) (auto simp: drop_empty_def split: option.splits dest: map_of_SomeD intro: rev_image_eqI)

lemma mult_at_mid:
  assumes "m_knots kv = a # mid @ [b]" and "distinct (map fst (a # mid @ [b]))"
    and "x \<in> fst ` set mid"
  shows "mult_at kv x = (case map_of mid x of None \<Rightarrow> 0 | Some m \<Rightarrow> m)"
  using map_of_mid[OF assms(2,3), of a mid b] assms(1) by (simp add: mult_at_def)

lemma map_of_mid_Some:
  assumes "x \<in> fst ` set mid"
  obtains m where "map_of mid x = Some m" and "(x, m) \<in> set mid"
  using assms by (metis domD dom_map_of_conv_image_fst map_of_SomeD)

lemma mult_at_reduceMultiplicity:
  assumes kv: "m_knots kv = a # mid @ [b]" and d: "distinct (map fst (a # mid @ [b]))"
    and x: "x \<in> fst ` set mid" and pos: "\<forall>k\<in>set mid. 1 \<le> snd k"
  shows "mult_at (reduceMultiplicity 1 kv) x = mult_at kv x - 1"
proof -
  let ?g = "apsnd (\<lambda>m::int. m - 1) :: real \<times> int \<Rightarrow> real \<times> int"
  let ?ks = "a # map ?g mid @ [b]"
  from x obtain m where m: "map_of mid x = Some m" and "(x, m) \<in> set mid"
    by (rule map_of_mid_Some)
  with pos have m1: "1 \<le> m" by force
  have fsts: "map fst (map ?g mid) = map fst mid" by simp
  have d': "distinct (map fst ?ks)" using d by (simp add: comp_def)
  have "map_of ?ks x = map_of (map ?g mid) x"
    by (rule map_of_mid[OF d x refl fsts])
  also have "\<dots> = Some (m - 1)"
    using m by (simp add: map_of_map_snd)
  finally have "map_of (drop_empty ?ks) x = (if 0 < m - 1 then Some (m - 1) else None)"
    using map_of_drop_empty[OF d', of x] by simp
  moreover have "m_knots (reduceMultiplicity 1 kv) = drop_empty ?ks"
    by (simp add: reduceMultiplicity_def kv interior_upd_decomp del: interior_upd.simps)
  ultimately have "mult_at (reduceMultiplicity 1 kv) x = m - 1"
    using m1 by (simp add: mult_at_def)
  moreover have "mult_at kv x = m"
    using mult_at_mid[OF kv d x] m by simp
  ultimately show ?thesis by simp
qed

lemma drop_empty_id: "\<forall>k\<in>set ks. 0 < snd k \<Longrightarrow> drop_empty ks = ks"
  by (simp add: drop_empty_def)

lemma m_knots_degreeDecrease:
  assumes kv: "m_knots kv = a # mid @ [b]" and "1 < snd a" and "1 < snd b"
    and pos: "\<forall>k\<in>set mid. 1 \<le> snd k"
  shows "m_knots (degreeDecrease 1 kv) = (fst a, snd a - 1) # mid @ [(fst b, snd b - 1)]"
proof -
  have "\<forall>k\<in>set ((fst a, snd a - 1) # mid @ [(fst b, snd b - 1)]). 0 < snd k"
    using assms by force
  then show ?thesis
    by (simp add: degreeDecrease_def kv ends_upd_decomp drop_empty_id del: ends_upd.simps)
qed

lemma mult_at_degreeDecrease:
  assumes kv: "m_knots kv = a # mid @ [b]" and d: "distinct (map fst (a # mid @ [b]))"
    and x: "x \<in> fst ` set mid" and pos: "\<forall>k\<in>set mid. 1 \<le> snd k"
    and a: "1 < snd a" and b: "1 < snd b"
  shows "mult_at (degreeDecrease 1 kv) x = mult_at kv x"
    and "mult_at (reduceMultiplicity 1 (degreeDecrease 1 kv)) x = mult_at kv x - 1"
proof -
  let ?a = "(fst a, snd a - 1)" and ?b = "(fst b, snd b - 1)"
  have k: "m_knots (degreeDecrease 1 kv) = ?a # mid @ [?b]"
    by (rule m_knots_degreeDecrease[OF kv a b pos])
  have d': "distinct (map fst (?a # mid @ [?b]))" using d by simp
  show 1: "mult_at (degreeDecrease 1 kv) x = mult_at kv x"
    using mult_at_mid[OF k d' x] mult_at_mid[OF kv d x] by simp
  show "mult_at (reduceMultiplicity 1 (degreeDecrease 1 kv)) x = mult_at kv x - 1"
    using mult_at_reduceMultiplicity[OF k d' x pos] 1 by simp
qed

text \<open>What a clamped knot vector looks like.\<close>

lemma clamped_decomp:
  assumes "clamped kv"
  obtains a mid b where "m_knots kv = a # mid @ [b]"
    and "distinct (map fst (a # mid @ [b]))"
    and "\<forall>k\<in>set mid. 1 \<le> snd k"
    and "snd a = m_deg kv + 1" and "snd b = m_deg kv + 1"
    and "interior_knots kv = map fst mid"
proof -
  from assms have "2 \<le> length (m_knots kv)" by (simp add: clamped_def)
  then obtain a mid b where kv: "m_knots kv = a # mid @ [b]" by (rule two_decomp)
  from assms have "sorted_wrt (<) (map fst (m_knots kv))" by (simp add: clamped_def unique_def)
  then have "distinct (map fst (m_knots kv))" by (simp add: strict_sorted_iff)
  then have 1: "distinct (map fst (a # mid @ [b]))" by (simp add: kv)
  from assms have "\<forall>m\<in>set (map snd (m_knots kv)). 1 \<le> m"
    by (simp add: clamped_def multiplicities_def list_all_iff)
  then have 2: "\<forall>k\<in>set mid. 1 \<le> snd k" by (simp add: kv)
  from assms have 3: "snd a = m_deg kv + 1" "snd b = m_deg kv + 1"
    by (simp_all add: clamped_def kv)
  have 4: "interior_knots kv = map fst mid"
    by (simp add: interior_knots_def unique_def kv butlast_append)
  from kv 1 2 3 4 show thesis by (rule that)
qed

lemma clamped_eqI:
  assumes c1: "clamped kv1" and c2: "clamped kv2"
    and deg: "degree kv1 = degree kv2"
    and u: "unique kv1 = unique kv2"
    and m: "butlast (tl (multiplicities kv1)) = butlast (tl (multiplicities kv2))"
  shows "kv1 = kv2"
proof -
  from c1 obtain a1 mid1 b1 where k1: "m_knots kv1 = a1 # mid1 @ [b1]"
    and e1: "snd a1 = m_deg kv1 + 1" "snd b1 = m_deg kv1 + 1"
    by (rule clamped_decomp)
  from c2 obtain a2 mid2 b2 where k2: "m_knots kv2 = a2 # mid2 @ [b2]"
    and e2: "snd a2 = m_deg kv2 + 1" "snd b2 = m_deg kv2 + 1"
    by (rule clamped_decomp)
  from u have "map fst (a1 # mid1 @ [b1]) = map fst (a2 # mid2 @ [b2])"
    by (simp add: unique_def k1 k2)
  then have f: "fst a1 = fst a2" "map fst mid1 = map fst mid2" "fst b1 = fst b2"
    by simp_all
  from m have s: "map snd mid1 = map snd mid2"
    by (simp add: multiplicities_def k1 k2 butlast_append)
  from f(2) s have "mid1 = mid2" by (simp add: pair_list_eqI)
  moreover from f(1) e1(1) e2(1) deg have "a1 = a2" by (simp add: degree_def prod_eq_iff)
  moreover from f(3) e1(2) e2(2) deg have "b1 = b2" by (simp add: degree_def prod_eq_iff)
  ultimately have "m_knots kv1 = m_knots kv2" by (simp add: k1 k2)
  with deg show ?thesis by (simp add: degree_def)
qed

lemma createPlusMinusSpace1_law:
  assumes c: "clamped kv1" and p: "degree kv1 = p" "1 \<le> p"
    and x: "x \<in> set (interior_knots kv1)"
  shows "degree (fst (createPlusMinusSpace1 r kv1 kv1_patch)) = p"
    and "degree (snd (createPlusMinusSpace1 r kv1 kv1_patch)) = p - 1"
    and "mult_at (fst (createPlusMinusSpace1 r kv1 kv1_patch)) x
           = (if p - r \<noteq> 1 then mult_at kv1 x - 1 else mult_at kv1 x)"
    and "mult_at (snd (createPlusMinusSpace1 r kv1 kv1_patch)) x
           = (if p - r \<noteq> 1 then mult_at kv1 x - 1 else mult_at kv1 x)"
proof -
  from c obtain a mid b where k: "m_knots kv1 = a # mid @ [b]"
    and d: "distinct (map fst (a # mid @ [b]))"
    and pos: "\<forall>k\<in>set mid. 1 \<le> snd k"
    and e: "snd a = m_deg kv1 + 1" "snd b = m_deg kv1 + 1"
    and i: "interior_knots kv1 = map fst mid"
    by (rule clamped_decomp)
  from x i have x': "x \<in> fst ` set mid" by simp
  from e p have a: "1 < snd a" and b: "1 < snd b" by (simp_all add: degree_def)
  have mx: "max p 0 = p" using p(2) by simp
  show "degree (fst (createPlusMinusSpace1 r kv1 kv1_patch)) = p"
    using p(1) by (simp add: createPlusMinusSpace1_def Let_def degree_def reduceMultiplicity_def)
  show "degree (snd (createPlusMinusSpace1 r kv1 kv1_patch)) = p - 1"
    using p(1)
    by (simp add: createPlusMinusSpace1_def Let_def degree_def reduceMultiplicity_def
        degreeDecrease_def)
  show "mult_at (fst (createPlusMinusSpace1 r kv1 kv1_patch)) x
           = (if p - r \<noteq> 1 then mult_at kv1 x - 1 else mult_at kv1 x)"
    using mult_at_reduceMultiplicity[OF k d x' pos] p(1) mx
    by (simp add: createPlusMinusSpace1_def Let_def)
  show "mult_at (snd (createPlusMinusSpace1 r kv1 kv1_patch)) x
           = (if p - r \<noteq> 1 then mult_at kv1 x - 1 else mult_at kv1 x)"
    using mult_at_degreeDecrease[OF k d x' pos a b] p(1) mx
    by (simp add: createPlusMinusSpace1_def Let_def)
qed

lemma createPlusMinusSpace_same:
  assumes "2 \<le> length (unique kv1_patch)" and "0 \<le> degree kv"
  shows "\<exists>out. createPlusMinusSpace r kv kv kv1_patch kv2_patch
            = Some (out, createPlusMinusSpace1 r kv kv1_patch')"
  using assms
  by (simp add: createPlusMinusSpace_def createPlusMinusSpace1_def Let_def elem_at_def)


text \<open>
  Claim C1.  For two interface knot vectors of the same degree \<open>p\<close> (at least 1, so that
  a minus space of degree \<open>p - 1\<close> exists) with the same unique break points and the same
  interior multiplicities, and any discrete regularity \<open>r\<close>: \<open>createPlusMinusSpace\<close>
  returns, and its plus space has degree \<open>p\<close>, its minus space has degree \<open>p - 1\<close>, and
  at every interior break point of the input the multiplicity in both is the input's
  reduced by exactly 1 when \<open>p - r \<noteq> 1\<close> and the input's when \<open>p - r = 1\<close> (multiplicity 0
  meaning that the break point is gone).  The overload for a boundary edge obeys the same
  law for the single knot vector.
\<close>

theorem createPlusMinusSpace_degree_law:
  assumes "clamped kv1" and "clamped kv2" and "clamped kv1_patch"
    and "degree kv1 = p" and "degree kv2 = p" and "1 \<le> p"
    and "unique kv1 = unique kv2"
    and "butlast (tl (multiplicities kv1)) = butlast (tl (multiplicities kv2))"
  shows "\<exists>out kv_plus kv_minus.
      createPlusMinusSpace r kv1 kv2 kv1_patch kv2_patch = Some (out, kv_plus, kv_minus) \<and>
      degree kv_plus = p \<and> degree kv_minus = p - 1 \<and>
      (\<forall>x\<in>set (interior_knots kv1).
          mult_at kv_plus x = (if p - r \<noteq> 1 then mult_at kv1 x - 1 else mult_at kv1 x) \<and>
          mult_at kv_minus x = (if p - r \<noteq> 1 then mult_at kv1 x - 1 else mult_at kv1 x)) \<and>
      degree (fst (createPlusMinusSpace1 r kv1 kv1_patch)) = p \<and>
      degree (snd (createPlusMinusSpace1 r kv1 kv1_patch)) = p - 1 \<and>
      (\<forall>x\<in>set (interior_knots kv1).
          mult_at (fst (createPlusMinusSpace1 r kv1 kv1_patch)) x
            = (if p - r \<noteq> 1 then mult_at kv1 x - 1 else mult_at kv1 x) \<and>
          mult_at (snd (createPlusMinusSpace1 r kv1 kv1_patch)) x
            = (if p - r \<noteq> 1 then mult_at kv1 x - 1 else mult_at kv1 x))"
proof -
  let ?one = "createPlusMinusSpace1 r kv1 kv1_patch"
  have eq: "kv1 = kv2"
    using assms(1,2) _ assms(7,8) by (rule clamped_eqI) (simp add: assms(4,5))
  from assms(3) have "2 \<le> length (unique kv1_patch)" by (simp add: clamped_def unique_def)
  moreover from assms(4,6) have "0 \<le> degree kv1" by simp
  ultimately obtain out where
    "createPlusMinusSpace r kv1 kv1 kv1_patch kv2_patch = Some (out, ?one)"
    using createPlusMinusSpace_same by blast
  then have ret: "createPlusMinusSpace r kv1 kv2 kv1_patch kv2_patch
      = Some (out, fst ?one, snd ?one)"
    using eq by simp
  note law = createPlusMinusSpace1_law[OF assms(1,4,6), of _ r kv1_patch]
  have d: "degree (fst ?one) = p" "degree (snd ?one) = p - 1"
    using assms(1,4,6) by (simp_all add: createPlusMinusSpace1_def Let_def degree_def
        reduceMultiplicity_def degreeDecrease_def)
  have m: "\<forall>x\<in>set (interior_knots kv1).
          mult_at (fst ?one) x = (if p - r \<noteq> 1 then mult_at kv1 x - 1 else mult_at kv1 x) \<and>
          mult_at (snd ?one) x = (if p - r \<noteq> 1 then mult_at kv1 x - 1 else mult_at kv1 x)"
    using law(3,4) by blast
  from ret d m show ?thesis by blast
qed

lemma clamped_kv_cubic: "clamped kv_cubic"
  by (simp add: clamped_def kv_cubic_def unique_def multiplicities_def)

theorem createPlusMinusSpace_degree_law_witness:
  "clamped kv_cubic \<and> degree kv_cubic = 3 \<and> interior_knots kv_cubic = [1 / 2] \<and>
   mult_at kv_cubic (1 / 2) = 2 \<and>
   (\<exists>out kv_plus kv_minus.
      createPlusMinusSpace 1 kv_cubic kv_cubic kv_cubic kv_cubic = Some (out, kv_plus, kv_minus) \<and>
      degree kv_plus = 3 \<and> degree kv_minus = 2 \<and>
      mult_at kv_plus (1 / 2) = 1 \<and> mult_at kv_minus (1 / 2) = 1 \<and>
      degree (fst (createPlusMinusSpace1 1 kv_cubic kv_cubic)) = 3 \<and>
      degree (snd (createPlusMinusSpace1 1 kv_cubic kv_cubic)) = 2 \<and>
      mult_at (fst (createPlusMinusSpace1 1 kv_cubic kv_cubic)) (1 / 2) = 1 \<and>
      mult_at (snd (createPlusMinusSpace1 1 kv_cubic kv_cubic)) (1 / 2) = 1)"
proof -
  have i: "interior_knots kv_cubic = [1 / 2]"
    by (simp add: interior_knots_def unique_def kv_cubic_def)
  have m: "mult_at kv_cubic (1 / 2) = 2" by (simp add: mult_at_def kv_cubic_def)
  have d: "degree kv_cubic = 3" by (simp add: degree_def kv_cubic_def)
  show ?thesis
    using createPlusMinusSpace_degree_law[OF clamped_kv_cubic clamped_kv_cubic
        clamped_kv_cubic d d, of 1 kv_cubic]
    by (simp add: i m d clamped_kv_cubic)
qed



lemma group_knots_strict:
  "sorted_wrt (<) xs \<Longrightarrow> group_knots xs = map (\<lambda>x. (x, 1)) xs"
proof (induction xs)
  case Nil
  show ?case by simp
next
  case (Cons x xs)
  then have ih: "group_knots xs = map (\<lambda>x. (x, 1)) xs" by simp
  show ?case
  proof (cases xs)
    case Nil
    then show ?thesis by simp
  next
    case (Cons y ys)
    with Cons.prems have "x \<noteq> y" by auto
    with ih Cons show ?thesis by simp
  qed
qed

lemma mkKnotVector_strict:
  assumes "sorted_wrt (<) (u0 # mids @ [ul])"
  shows "mkKnotVector (u0 # mids @ [ul])
           = \<lparr>m_knots = (u0, 1) # map (\<lambda>x. (x, 1)) mids @ [(ul, 1)], m_deg = 0\<rparr>"
  using group_knots_strict[OF assms] by (simp add: mkKnotVector_def deduceDegree_def)

lemma degreeIncrease_mkKnotVector:
  assumes "sorted_wrt (<) (u0 # mids @ [ul])"
  shows "degreeIncrease p (mkKnotVector (u0 # mids @ [ul]))
           = \<lparr>m_knots = (u0, 1 + p) # map (\<lambda>x. (x, 1)) mids @ [(ul, 1 + p)], m_deg = p\<rparr>"
  unfolding mkKnotVector_strict[OF assms]
  by (simp add: degreeIncrease_def ends_upd_decomp del: ends_upd.simps)

lemma derived_knots:
  assumes "sorted_wrt (<) (u0 # mids @ [ul])"
  shows "increaseMultiplicity i (degreeIncrease p (mkKnotVector (u0 # mids @ [ul])))
           = \<lparr>m_knots = (u0, 1 + p) # map (\<lambda>x. (x, 1 + i)) mids @ [(ul, 1 + p)], m_deg = p\<rparr>"
  unfolding degreeIncrease_mkKnotVector[OF assms]
  by (simp add: increaseMultiplicity_def interior_upd_decomp comp_def del: interior_upd.simps)

lemma mult_at_const_mid:
  assumes k: "m_knots kv = (u0, e0) # map (\<lambda>x. (x, c)) mids @ [(ul, el)]"
    and d: "distinct (u0 # mids @ [ul])" and x: "x \<in> set mids"
  shows "mult_at kv x = c"
proof -
  let ?mid = "map (\<lambda>x. (x, c)) mids"
  have f: "map fst ?mid = mids" by (simp add: comp_def)
  have "distinct (map fst ((u0, e0) # ?mid @ [(ul, el)]))" using d by (simp add: comp_def)
  moreover have "x \<in> fst ` set ?mid" using x f by (metis list.set_map)
  ultimately have "mult_at kv x = (case map_of ?mid x of None \<Rightarrow> 0 | Some m \<Rightarrow> m)"
    by (rule mult_at_mid[OF k])
  moreover have "map_of ?mid x = Some c" using x by (induction mids) auto
  ultimately show ?thesis by simp
qed

lemma clamped_unique_decomp:
  assumes "clamped kv"
  obtains u0 mids ul where "unique kv = u0 # mids @ [ul]"
    and "sorted_wrt (<) (u0 # mids @ [ul])" and "interior_knots kv = mids"
proof -
  from assms obtain a mid b where k: "m_knots kv = a # mid @ [b]"
    by (rule clamped_decomp)
  then have u: "unique kv = fst a # map fst mid @ [fst b]" by (simp add: unique_def)
  moreover from assms u have "sorted_wrt (<) (fst a # map fst mid @ [fst b])"
    by (simp add: clamped_def)
  moreover have "interior_knots kv = map fst mid"
    by (simp add: interior_knots_def u butlast_append)
  ultimately show thesis by (rule that)
qed

text \<open>
  Claim C4.  For an interface whose two sides are clamped knot vectors with the same unique
  break points, and with \<open>r_tilde = p_tilde - 2\<close>: the knot vector that
  \<open>createGluingDataSpace\<close> returns has exactly those break points, degree \<open>p_tilde\<close>,
  and at every interior break point the multiplicity \<open>p_tilde - r_tilde\<close>, that is the
  continuity \<open>r_tilde\<close>.
\<close>

theorem createGluingDataSpace_space:
  assumes "clamped kv1" and "clamped kv2" and "unique kv1 = unique kv2"
    and "rt = pt - 2"
    and "createGluingDataSpace pt rt kv1 kv2 kv1_patch kv2_patch = (out, kv)"
  shows "unique kv = unique kv1 \<and> unique kv = unique kv2 \<and> degree kv = pt \<and>
         (\<forall>x\<in>set (interior_knots kv).
            mult_at kv x = pt - rt \<and> degree kv - mult_at kv x = rt)"
proof -
  from assms(2) obtain u0 mids ul where u: "unique kv2 = u0 # mids @ [ul]"
    and s: "sorted_wrt (<) (u0 # mids @ [ul])"
    by (rule clamped_unique_decomp)
  let ?i = "pt - rt - 1"
  from assms(5) have "kv = increaseMultiplicity ?i (degreeIncrease pt (mkKnotVector (unique kv2)))"
    by (simp add: createGluingDataSpace_def Let_def)
  then have kv: "kv = \<lparr>m_knots = (u0, 1 + pt) # map (\<lambda>x. (x, 1 + ?i)) mids @ [(ul, 1 + pt)],
      m_deg = pt\<rparr>"
    by (simp only: u derived_knots[OF s])
  then have k: "m_knots kv = (u0, 1 + pt) # map (\<lambda>x. (x, 1 + ?i)) mids @ [(ul, 1 + pt)]"
    by simp
  from s have d: "distinct (u0 # mids @ [ul])" by (simp only: strict_sorted_iff)
  have "unique kv = u0 # mids @ [ul]" by (simp add: unique_def k comp_def)
  then have 1: "unique kv = unique kv2" by (simp only: u)
  have 2: "degree kv = pt" by (simp add: degree_def kv)
  have 3: "interior_knots kv = mids" by (simp add: interior_knots_def 1 u butlast_append)
  have "\<forall>x\<in>set mids. mult_at kv x = 1 + ?i"
    using mult_at_const_mid[OF k d] by blast
  with 1 2 3 assms(3) show ?thesis by simp
qed










theorem createGluingDataSpace_space_witness:
  "clamped kv_cubic \<and>
   createGluingDataSpace 3 1 kv_cubic kv_cubic kv_unit kv_unit = ([], kv_cubic) \<and>
   unique kv_cubic = [0, 1 / 2, 1] \<and> degree kv_cubic = 3 \<and>
   interior_knots kv_cubic = [1 / 2] \<and> mult_at kv_cubic (1 / 2) = 2"
proof -
  have g: "createGluingDataSpace 3 1 kv_cubic kv_cubic kv_unit kv_unit = ([], kv_cubic)"
    by (simp add: createGluingDataSpace_def kv_cubic_def unique_def mkKnotVector_def
        deduceDegree_def degreeIncrease_def increaseMultiplicity_def info_def)
  have i: "interior_knots kv_cubic = [1 / 2]"
    by (simp add: interior_knots_def unique_def kv_cubic_def)
  have u: "unique kv_cubic = [0, 1 / 2, 1]" by (simp add: unique_def kv_cubic_def)
  show ?thesis
    using createGluingDataSpace_space[OF clamped_kv_cubic clamped_kv_cubic refl _ g]
    by (simp add: i u g clamped_kv_cubic)
qed


text \<open>
  Two sides with different unique break points.  \<open>createGluingDataSpace\<close> writes its
  message and goes on to \<open>knot_vector = knots_unique_2\<close>; \<open>createPlusMinusSpace\<close> writes
  its message and goes on to \<open>kv1_result = kv2\<close>.  Neither has another way out: what they
  return is what they return for the pair (kv2, kv2).  The result \<open>None\<close> of the model
  stands only for the read \<open>patch_kv_unique_1[1]\<close> outside the vector.
\<close>

lemma mismatch_falls_through:
  assumes "unique kv1 \<noteq> unique kv2" and "degree kv1 = degree kv2"
    and "2 \<le> length (unique kv1_patch)"
  shows "createGluingDataSpace pt rt kv1 kv2 kv1_patch kv2_patch
           = ([''\<newline>\<newline> ERROR: Interfaces are not matching!!! \<newline>\<newline>''],
              snd (createGluingDataSpace pt rt kv2 kv2 kv1_patch kv2_patch)) \<and>
         (\<exists>out out' kv_plus kv_minus.
            createPlusMinusSpace r kv1 kv2 kv1_patch kv2_patch = Some (out, kv_plus, kv_minus) \<and>
            createPlusMinusSpace r kv2 kv2 kv1_patch kv2_patch = Some (out', kv_plus, kv_minus) \<and>
            ''NOT IMPLEMENTED YET 1: Plus, Minus space \<newline>'' \<in> set out)"
proof -
  have "createGluingDataSpace pt rt kv1 kv2 kv1_patch kv2_patch
           = ([''\<newline>\<newline> ERROR: Interfaces are not matching!!! \<newline>\<newline>''],
              snd (createGluingDataSpace pt rt kv2 kv2 kv1_patch kv2_patch))"
    using assms(1) by (simp add: createGluingDataSpace_def Let_def info_def)
  moreover from assms(3) obtain u1 where "elem_at (unique kv1_patch) 1 = Some u1"
    by (simp add: elem_at_def)
  then have "\<exists>out out' kv_plus kv_minus.
            createPlusMinusSpace r kv1 kv2 kv1_patch kv2_patch = Some (out, kv_plus, kv_minus) \<and>
            createPlusMinusSpace r kv2 kv2 kv1_patch kv2_patch = Some (out', kv_plus, kv_minus) \<and>
            ''NOT IMPLEMENTED YET 1: Plus, Minus space \<newline>'' \<in> set out"
    using assms(1,2) by (simp add: createPlusMinusSpace_def Let_def info_def)
  ultimately show ?thesis by (rule conjI)
qed

text \<open>
  Claim C7.  Two sides with different unique break points are to be flagged as an error
  that cannot be recovered from, and no knot space built from one side alone is to be
  returned as if the sides had matched.  The code says as much itself: its message is
  "ERROR: Interfaces are not matching!!!", the plus and minus spaces of such a pair are
  "NOT IMPLEMENTED YET", and the assignments that follow are commented \<open>// == kv2\<close> and
  \<open>// = knots_unique_1\<close>, which holds only when the sides match.  But nothing stops
  there.  For the break points {0, 1/2, 1} against {0, 1/4, 1} both functions write their
  message and return exactly the knot vectors they return when both sides are the second
  knot vector: the first side is ignored.
\<close>

theorem mismatch_returns_second_side:
  "unique kv_cubic \<noteq> unique kv_quarter \<and>
   createGluingDataSpace 3 1 kv_cubic kv_quarter kv_unit kv_unit
     = ([''\<newline>\<newline> ERROR: Interfaces are not matching!!! \<newline>\<newline>''], kv_quarter) \<and>
   createGluingDataSpace 3 1 kv_quarter kv_quarter kv_unit kv_unit = ([], kv_quarter) \<and>
   createPlusMinusSpace 1 kv_cubic kv_quarter kv_unit kv_unit
     = Some ([''NOT IMPLEMENTED YET 1: Plus, Minus space \<newline>''],
         \<lparr>m_knots = [(0, 4), (1 / 4, 1), (1, 4)], m_deg = 3\<rparr>,
         \<lparr>m_knots = [(0, 3), (1 / 4, 1), (1, 3)], m_deg = 2\<rparr>) \<and>
   createPlusMinusSpace 1 kv_quarter kv_quarter kv_unit kv_unit
     = Some ([],
         \<lparr>m_knots = [(0, 4), (1 / 4, 1), (1, 4)], m_deg = 3\<rparr>,
         \<lparr>m_knots = [(0, 3), (1 / 4, 1), (1, 3)], m_deg = 2\<rparr>)"
  by (simp add: createGluingDataSpace_def createPlusMinusSpace_def Let_def elem_at_def
      unique_def multiplicities_def degree_def kv_quarter_def kv_cubic_def kv_unit_def
      mkKnotVector_def deduceDegree_def degreeIncrease_def degreeDecrease_def
      increaseMultiplicity_def reduceMultiplicity_def drop_empty_def info_def)

section \<open>The loop over the vertices in init()\<close>

lemma same_inputs_refl: "same_inputs s s"
  by (simp add: same_inputs_def)

lemma same_inputs_trans: "same_inputs s s' \<Longrightarrow> same_inputs s' s'' \<Longrightarrow> same_inputs s s''"
  by (simp add: same_inputs_def)

lemma corners_in_range_cong: "same_inputs s s' \<Longrightarrow> corners_in_range s' g = corners_in_range s g"
  by (simp add: same_inputs_def corners_in_range_def)

lemma patchSide_eq: "(c::patchCorner) = c' \<longleftrightarrow> patch c = patch c' \<and> m_index c = m_index c'"
  by (cases c; cases c') simp

text \<open>One corner: the vertex basis and the kind are set for it, nothing else changes.\<close>

lemma set_corner:
  assumes "patch c < length (m_bases s)"
  shows "\<exists>s'. do { s1 \<leftarrow> upd_basis (patch c) (setVertexBasis b (m_index c)) s;
                   upd_basis (patch c) (setKindOfVertex k (m_index c)) s1 } = Some s' \<and>
           same_inputs s s' \<and>
           (\<forall>c'. kind_of s' c' = (if c' = c then Some k else kind_of s c')) \<and>
           (\<forall>c'. vertex_basis_of s' c' = (if c' = c then Some b else vertex_basis_of s c'))"
proof -
  let ?bs = "m_bases s"
  let ?c1 = "setVertexBasis b (m_index c) (?bs ! patch c)"
  let ?s1 = "s\<lparr>m_bases := ?bs[patch c := ?c1]\<rparr>"
  let ?c2 = "setKindOfVertex k (m_index c) ?c1"
  let ?s2 = "s\<lparr>m_bases := ?bs[patch c := ?c2]\<rparr>"
  have r: "do { s1 \<leftarrow> upd_basis (patch c) (setVertexBasis b (m_index c)) s;
                upd_basis (patch c) (setKindOfVertex k (m_index c)) s1 } = Some ?s2"
    using assms by (simp add: upd_basis_def)
  have 1: "same_inputs s ?s2" by (simp add: same_inputs_def)
  have 2: "kind_of ?s2 c' = (if c' = c then Some k else kind_of s c')" for c'
    using assms
    by (auto simp: kind_of_def elem_at_def setKindOfVertex_def setVertexBasis_def patchSide_eq
        nth_list_update)
  have 3: "vertex_basis_of ?s2 c' = (if c' = c then Some b else vertex_basis_of s c')" for c'
    using assms
    by (auto simp: vertex_basis_of_def elem_at_def setKindOfVertex_def setVertexBasis_def
        patchSide_eq nth_list_update)
  from r 1 2 3 show ?thesis by blast
qed

lemma vertex_loop_effect:
  assumes "corners_in_range s cs"
  shows "\<exists>s'. vertex_loop k cs s = Some s' \<and> same_inputs s s' \<and>
           (\<forall>c. kind_of s' c = (if c \<in> set cs then Some k else kind_of s c)) \<and>
           (\<forall>c. vertex_basis_of s' c =
                  (if c \<in> set cs
                   then Some (vertex_basis_elevated (p_tilde s) (r_tilde s)
                                (discreteRegularity (m_options s)) (m_multiBasis s ! patch c))
                   else vertex_basis_of s c))"
  using assms
proof (induction cs arbitrary: s)
  case Nil
  then show ?case by (simp add: same_inputs_refl)
next
  case (Cons c cs)
  let ?vb = "vertex_basis_elevated (p_tilde s) (r_tilde s)
              (discreteRegularity (m_options s)) (m_multiBasis s ! patch c)"
  from Cons.prems have rng: "patch c < length (m_multiBasis s)" "patch c < length (m_bases s)"
    and rest: "corners_in_range s cs"
    by (simp_all add: corners_in_range_def)
  from set_corner[OF rng(2), of ?vb k] obtain s1 where
    s1: "do { s1 \<leftarrow> upd_basis (patch c) (setVertexBasis ?vb (m_index c)) s;
              upd_basis (patch c) (setKindOfVertex k (m_index c)) s1 } = Some s1"
    and f1: "same_inputs s s1"
    and k1: "\<And>c'. kind_of s1 c' = (if c' = c then Some k else kind_of s c')"
    and b1: "\<And>c'. vertex_basis_of s1 c' = (if c' = c then Some ?vb else vertex_basis_of s c')"
    by blast
  from rest f1 have "corners_in_range s1 cs" by (simp add: corners_in_range_cong)
  from Cons.IH[OF this] obtain s' where
    s': "vertex_loop k cs s1 = Some s'" and f2: "same_inputs s1 s'"
    and k2: "\<And>c'. kind_of s' c' = (if c' \<in> set cs then Some k else kind_of s1 c')"
    and b2: "\<And>c'. vertex_basis_of s' c' =
                  (if c' \<in> set cs
                   then Some (vertex_basis_elevated (p_tilde s1) (r_tilde s1)
                                (discreteRegularity (m_options s1)) (m_multiBasis s1 ! patch c'))
                   else vertex_basis_of s1 c')"
    by blast
  have run: "vertex_loop k (c # cs) s = Some s'"
  proof -
    have "vertex_loop k (c # cs) s =
        do { s1 \<leftarrow> do { s1 \<leftarrow> upd_basis (patch c) (setVertexBasis ?vb (m_index c)) s;
                         upd_basis (patch c) (setKindOfVertex k (m_index c)) s1 };
             vertex_loop k cs s1 }"
      using rng(1) by (simp add: elem_at_def Let_def)
    then show ?thesis by (simp only: s1 s' Option.bind.simps)
  qed
  from f1 have eqs: "p_tilde s1 = p_tilde s" "r_tilde s1 = r_tilde s"
    "m_options s1 = m_options s" "m_multiBasis s1 = m_multiBasis s"
    by (simp_all add: same_inputs_def)
  have K: "\<forall>c'. kind_of s' c' = (if c' \<in> set (c # cs) then Some k else kind_of s c')"
    by (simp add: k2 k1)
  have B: "\<forall>c'. vertex_basis_of s' c' =
                  (if c' \<in> set (c # cs)
                   then Some (vertex_basis_elevated (p_tilde s) (r_tilde s)
                                (discreteRegularity (m_options s)) (m_multiBasis s ! patch c'))
                   else vertex_basis_of s c')"
    by (simp add: b2 b1 eqs)
  from run same_inputs_trans[OF f1 f2] K B show ?case by blast
qed

lemma addPatches_in_range:
  "list_all (\<lambda>i. i < length ps) js \<Longrightarrow> addPatches ps js = Some (map ((!) ps) js)"
  by (induction js) (simp_all add: elem_at_def)

lemma interfaces_among_cong:
  "same_inputs s s' \<Longrightarrow> interfaces_among nI s' g = interfaces_among nI s g"
  by (simp add: same_inputs_def interfaces_among_def)

lemma init_vertex_effect:
  fixes nI :: "gsGeometry list \<Rightarrow> nat" and s :: gsApproxC1Spline and g :: "patchCorner list"
  assumes rng: "corners_in_range s g"
  defines "n \<equiv> length g" and "m \<equiv> interfaces_among nI s g"
  shows "\<exists>s'. init_vertex nI g s = Some s' \<and> same_inputs s s' \<and>
           (\<forall>c. kind_of s' c =
              (if c \<in> set g \<and> (n = 1 \<or> m \<le> n) then Some (claimed_kind n m) else kind_of s c)) \<and>
           (\<forall>c. c \<in> set g \<longrightarrow> 1 < n \<longrightarrow> m \<le> n \<longrightarrow>
              vertex_basis_of s' c =
                Some (vertex_basis_elevated (p_tilde s) (r_tilde s)
                        (discreteRegularity (m_options s)) (m_multiBasis s ! patch c))) \<and>
           (\<forall>c. c \<notin> set g \<longrightarrow> vertex_basis_of s' c = vertex_basis_of s c)"
proof -
  consider (one) "n = 1" | (none) "n = 0" | (many) "1 < n" by linarith
  then show ?thesis
  proof cases
    case one
    then obtain c where g: "g = [c]" unfolding n_def by (cases g) auto
    let ?src = "m_multiBasis s ! patch c"
    let ?vb = "if degreeT ?src 0 - discreteRegularity (m_options s) = 1
              then reduceContinuityT 1 ?src else ?src"
    from rng g have r: "patch c < length (m_multiBasis s)" "patch c < length (m_bases s)"
      by (simp_all add: corners_in_range_def)
    from set_corner[OF r(2), of ?vb "- 1"] obtain s' where
      s': "do { s1 \<leftarrow> upd_basis (patch c) (setVertexBasis ?vb (m_index c)) s;
               upd_basis (patch c) (setKindOfVertex (- 1) (m_index c)) s1 } = Some s'"
      and f: "same_inputs s s'"
      and k: "\<And>c'. kind_of s' c' = (if c' = c then Some (- 1) else kind_of s c')"
      and b: "\<And>c'. vertex_basis_of s' c' = (if c' = c then Some ?vb else vertex_basis_of s c')"
      by blast
    have "init_vertex nI g s = Some s'"
      using r(1) s' by (simp add: init_vertex_def g elem_at_def Let_def)
    moreover have "\<forall>c'. kind_of s' c' =
       (if c' \<in> set g \<and> (n = 1 \<or> m \<le> n) then Some (claimed_kind n m) else kind_of s c')"
      using one by (simp add: k g claimed_kind_def)
    moreover have "\<forall>c'. c' \<notin> set g \<longrightarrow> vertex_basis_of s' c' = vertex_basis_of s c'"
      by (simp add: b g)
    ultimately show ?thesis using f one by auto
  next
    case none
    then have "g = []" unfolding n_def by simp
    then show ?thesis by (simp add: init_vertex_def same_inputs_refl)
  next
    case many
    from rng have "list_all (\<lambda>i. i < length (patches (m_patches s))) (map patch g)"
      by (simp add: corners_in_range_def nPatches_def list_all_iff)
    then have ap: "addPatches (patches (m_patches s)) (map patch g)
        = Some (map (\<lambda>c. patches (m_patches s) ! patch c) g)"
      by (simp add: addPatches_in_range comp_def)
    have unf: "init_vertex nI g s =
        (if n = m then vertex_loop 0 g s else if m < n then vertex_loop 1 g s else Some s)"
      using many by (simp add: init_vertex_def Let_def ap n_def m_def interfaces_among_def)
    consider (eq) "n = m" | (gt) "m < n" | (lt) "n < m" by linarith
    then show ?thesis
    proof cases
      case eq
      from vertex_loop_effect[OF rng, of 0] unf eq many show ?thesis
        by (auto simp: claimed_kind_def)
    next
      case gt
      from vertex_loop_effect[OF rng, of 1] unf gt many show ?thesis
        by (auto simp: claimed_kind_def)
    next
      case lt
      with unf many show ?thesis by (simp add: same_inputs_refl)
    qed
  qed
qed

lemma init_vertices_effect:
  fixes nI :: "gsGeometry list \<Rightarrow> nat"
  assumes "list_all (corners_in_range s) gs" and "distinct (concat gs)"
  shows "\<exists>s'. init_vertices nI gs s = Some s' \<and> same_inputs s s' \<and>
     (\<forall>g\<in>set gs. length g = 1 \<or> interfaces_among nI s g \<le> length g \<longrightarrow>
        (\<forall>c\<in>set g. kind_of s' c
            = Some (claimed_kind (length g) (interfaces_among nI s g)))) \<and>
     (\<forall>g\<in>set gs. 1 < length g \<and> interfaces_among nI s g \<le> length g \<longrightarrow>
        (\<forall>c\<in>set g. vertex_basis_of s' c
            = Some (vertex_basis_elevated (p_tilde s) (r_tilde s)
                      (discreteRegularity (m_options s)) (m_multiBasis s ! patch c)))) \<and>
     (\<forall>c. c \<notin> set (concat gs) \<longrightarrow>
        kind_of s' c = kind_of s c \<and> vertex_basis_of s' c = vertex_basis_of s c)"
  using assms
proof (induction gs arbitrary: s)
  case Nil
  then show ?case by (simp add: same_inputs_refl)
next
  case (Cons g gs)
  from Cons.prems have rng: "corners_in_range s g" and rngs: "list_all (corners_in_range s) gs"
    and d: "distinct (concat gs)" and disj: "set g \<inter> set (concat gs) = {}"
    by simp_all
  from init_vertex_effect[OF rng, of nI] obtain s1 where
    r1: "init_vertex nI g s = Some s1" and f1: "same_inputs s s1"
    and k1: "\<And>c. kind_of s1 c =
              (if c \<in> set g \<and> (length g = 1 \<or> interfaces_among nI s g \<le> length g)
               then Some (claimed_kind (length g) (interfaces_among nI s g)) else kind_of s c)"
    and b1: "\<And>c. c \<in> set g \<Longrightarrow> 1 < length g \<Longrightarrow> interfaces_among nI s g \<le> length g \<Longrightarrow>
              vertex_basis_of s1 c =
                Some (vertex_basis_elevated (p_tilde s) (r_tilde s)
                        (discreteRegularity (m_options s)) (m_multiBasis s ! patch c))"
    and n1: "\<And>c. c \<notin> set g \<Longrightarrow> vertex_basis_of s1 c = vertex_basis_of s c"
    by blast
  from rngs f1 have "list_all (corners_in_range s1) gs"
    by (simp add: list_all_iff corners_in_range_cong)
  from Cons.IH[OF this d] obtain s' where
    r2: "init_vertices nI gs s1 = Some s'" and f2: "same_inputs s1 s'"
    and k2: "\<And>g' c. g' \<in> set gs \<Longrightarrow>
              length g' = 1 \<or> interfaces_among nI s1 g' \<le> length g' \<Longrightarrow> c \<in> set g' \<Longrightarrow>
              kind_of s' c = Some (claimed_kind (length g') (interfaces_among nI s1 g'))"
    and b2: "\<And>g' c. g' \<in> set gs \<Longrightarrow>
              1 < length g' \<and> interfaces_among nI s1 g' \<le> length g' \<Longrightarrow> c \<in> set g' \<Longrightarrow>
              vertex_basis_of s' c
                = Some (vertex_basis_elevated (p_tilde s1) (r_tilde s1)
                      (discreteRegularity (m_options s1)) (m_multiBasis s1 ! patch c))"
    and n2: "\<And>c. c \<notin> set (concat gs) \<Longrightarrow>
              kind_of s' c = kind_of s1 c \<and> vertex_basis_of s' c = vertex_basis_of s1 c"
    by blast
  from f1 have eqs: "p_tilde s1 = p_tilde s" "r_tilde s1 = r_tilde s"
    "m_options s1 = m_options s" "m_multiBasis s1 = m_multiBasis s"
    by (simp_all add: same_inputs_def)
  note ia = interfaces_among_cong[OF f1, of nI]
  have run: "init_vertices nI (g # gs) s = Some s'" by (simp add: r1 r2)
  have K: "kind_of s' c = Some (claimed_kind (length g') (interfaces_among nI s g'))"
    if "g' \<in> set (g # gs)" "length g' = 1 \<or> interfaces_among nI s g' \<le> length g'" "c \<in> set g'"
    for g' c
  proof (cases "g' \<in> set gs")
    case True
    with that k2[of g' c] show ?thesis by (simp add: ia)
  next
    case False
    with that have g': "g' = g" by simp
    with that disj have "c \<notin> set (concat gs)" by blast
    with n2 have "kind_of s' c = kind_of s1 c" by simp
    with that g' show ?thesis by (simp add: k1)
  qed
  have B: "vertex_basis_of s' c
            = Some (vertex_basis_elevated (p_tilde s) (r_tilde s)
                      (discreteRegularity (m_options s)) (m_multiBasis s ! patch c))"
    if "g' \<in> set (g # gs)" "1 < length g' \<and> interfaces_among nI s g' \<le> length g'" "c \<in> set g'"
    for g' c
  proof (cases "g' \<in> set gs")
    case True
    with that b2[of g' c] show ?thesis by (simp add: ia eqs)
  next
    case False
    with that have g': "g' = g" by simp
    with that disj have "c \<notin> set (concat gs)" by blast
    with n2 have "vertex_basis_of s' c = vertex_basis_of s1 c" by simp
    with that g' show ?thesis by (simp add: b1)
  qed
  have N: "kind_of s' c = kind_of s c \<and> vertex_basis_of s' c = vertex_basis_of s c"
    if "c \<notin> set (concat (g # gs))" for c
    using that n2[of c] k1[of c] n1[of c] by simp
  from run same_inputs_trans[OF f1 f2] K B N show ?case by blast
qed

lemma vertex_basis_elevated_components:
  "comp0 (vertex_basis_elevated pt rt r b) = vertex_chain pt rt r (comp0 b)"
  "comp1 (vertex_basis_elevated pt rt r b) = vertex_chain pt rt r (comp1 b)"
  by (simp_all add: vertex_basis_elevated_def vertex_chain_def degreeElevateT_def
      reduceContinuityT_def Let_def)

lemma m_knots_degreeElevate:
  "m_knots kv = a # mid @ [b] \<Longrightarrow>
   m_knots (degreeElevate i kv) = apsnd (\<lambda>m. m + i) a # map (apsnd (\<lambda>m. m + i)) mid
      @ [apsnd (\<lambda>m. m + i) b]"
  by (simp add: degreeElevate_def apsnd_def map_prod_def split_beta)

lemma m_knots_increaseMultiplicity:
  "m_knots kv = a # mid @ [b] \<Longrightarrow>
   m_knots (increaseMultiplicity i kv) = a # map (apsnd (\<lambda>m. m + i)) mid @ [b]"
  by (simp add: increaseMultiplicity_def interior_upd_decomp del: interior_upd.simps)

lemma map_apsnd_add:
  "map (apsnd (\<lambda>m::int. m + j)) (map (apsnd (\<lambda>m. m + i)) (mid :: (real \<times> int) list))
     = map (apsnd (\<lambda>m. m + (i + j))) mid"
  by (simp add: comp_def apsnd_def map_prod_def split_beta add.assoc)

lemma vertex_chain_knots:
  assumes "m_knots kv = a # mid @ [b]"
  shows "\<exists>a' b'. fst a' = fst a \<and> fst b' = fst b \<and>
     m_knots (vertex_chain pt rt r kv)
       = a' # map (apsnd (\<lambda>m. m + ((pt - 1) + (if r \<noteq> 1 then 1 else 0)
                                 + (if rt < r - 1 then r - rt - 1 else 0)))) mid @ [b']"
proof -
  let ?e = "apsnd (\<lambda>m. m + (pt - 1)) :: real \<times> int \<Rightarrow> real \<times> int"
  note k0 = m_knots_degreeElevate[OF assms, of "pt - 1"]
  note k1 = m_knots_increaseMultiplicity[OF k0, of 1, unfolded map_apsnd_add]
  note k2 = m_knots_increaseMultiplicity[OF k0, of "r - rt - 1", unfolded map_apsnd_add]
  note k3 = m_knots_increaseMultiplicity[OF k1, of "r - rt - 1", unfolded map_apsnd_add]
  have "m_knots (vertex_chain pt rt r kv)
       = ?e a # map (apsnd (\<lambda>m. m + ((pt - 1) + (if r \<noteq> 1 then 1 else 0)
                                 + (if rt < r - 1 then r - rt - 1 else 0)))) mid @ [?e b]"
  proof (cases "r \<noteq> 1")
    case True
    show ?thesis
    proof (cases "rt < r - 1")
      case True
      with \<open>r \<noteq> 1\<close> show ?thesis using k3 by (simp add: vertex_chain_def Let_def)
    next
      case False
      with \<open>r \<noteq> 1\<close> show ?thesis using k1 by (simp add: vertex_chain_def Let_def)
    qed
  next
    case False
    show ?thesis
    proof (cases "rt < r - 1")
      case True
      with \<open>\<not> r \<noteq> 1\<close> show ?thesis using k2 by (simp add: vertex_chain_def Let_def)
    next
      case False
      with \<open>\<not> r \<noteq> 1\<close> show ?thesis using k0 by (simp add: vertex_chain_def Let_def)
    qed
  qed
  moreover have "fst (?e a) = fst a" "fst (?e b) = fst b" by simp_all
  ultimately show ?thesis by blast
qed

lemma degree_vertex_chain: "degree (vertex_chain pt rt r kv) = degree kv + (pt - 1)"
  by (simp add: vertex_chain_def Let_def degree_def degreeElevate_def increaseMultiplicity_def)

lemma vertex_chain_law:
  assumes c: "clamped kv"
  shows "degree (vertex_chain pt rt r kv) = degree kv + (pt - 1)"
    and "unique (vertex_chain pt rt r kv) = unique kv"
    and "\<forall>x\<in>set (interior_knots kv).
           continuity_at (vertex_chain pt rt r kv) x
             = continuity_at kv x - (if r \<noteq> 1 then 1 else 0)
                 - (if rt < r - 1 then r - rt - 1 else 0)"
proof -
  let ?f = "\<lambda>m. m + ((pt - 1) + (if r \<noteq> 1 then 1 else 0) + (if rt < r - 1 then r - rt - 1 else 0))"
  from c obtain a mid b where k: "m_knots kv = a # mid @ [b]"
    and d: "distinct (map fst (a # mid @ [b]))"
    and i: "interior_knots kv = map fst mid"
    by (rule clamped_decomp)
  from vertex_chain_knots[OF k, of pt rt r] obtain a' b' where
    fa: "fst a' = fst a" and fb: "fst b' = fst b"
    and k': "m_knots (vertex_chain pt rt r kv) = a' # map (apsnd ?f) mid @ [b']"
    by blast
  show "degree (vertex_chain pt rt r kv) = degree kv + (pt - 1)"
    by (rule degree_vertex_chain)
  show "unique (vertex_chain pt rt r kv) = unique kv"
    by (simp add: unique_def k k' fa fb comp_def)
  show "\<forall>x\<in>set (interior_knots kv).
           continuity_at (vertex_chain pt rt r kv) x
             = continuity_at kv x - (if r \<noteq> 1 then 1 else 0)
                 - (if rt < r - 1 then r - rt - 1 else 0)"
  proof
    fix x assume "x \<in> set (interior_knots kv)"
    with i have x: "x \<in> fst ` set mid" by simp
    then obtain m where m: "map_of mid x = Some m" by (rule map_of_mid_Some)
    have e1: "map_of (m_knots kv) x = map_of mid x"
      unfolding k by (rule map_of_mid[OF d x refl refl])
    have "map fst (map (apsnd ?f) mid) = map fst mid" by (simp add: comp_def)
    with fa have e2: "map_of (m_knots (vertex_chain pt rt r kv)) x = map_of (map (apsnd ?f) mid) x"
      unfolding k' by (intro map_of_mid[OF d x])
    have "mult_at kv x = m" by (simp add: mult_at_def e1 m)
    moreover have "mult_at (vertex_chain pt rt r kv) x = ?f m"
      by (simp add: mult_at_def e2 map_of_map_snd m)
    ultimately show "continuity_at (vertex_chain pt rt r kv) x
             = continuity_at kv x - (if r \<noteq> 1 then 1 else 0)
                 - (if rt < r - 1 then r - rt - 1 else 0)"
      by (simp add: continuity_at_def degree_vertex_chain)
  qed
qed

text \<open>
  Claim C2, as the code has it.  When the patch numbers of the vertex groups are in range
  and no corner is listed twice, the loop over the vertices returns, and for every group
  and every corner in it: a group of exactly one corner gives the kind -1; a group of more
  than one corner whose size equals the number of interfaces of the temporary multipatch
  gives every corner the kind 0; a group of more than one corner whose size exceeds the
  number of interfaces gives every corner the kind 1.  (A group with fewer corners than
  interfaces is not covered.)
\<close>

theorem vertex_kinds:
  fixes nI :: "gsGeometry list \<Rightarrow> nat"
  assumes "list_all (corners_in_range s) (vertices (m_patches s))"
    and "distinct (concat (vertices (m_patches s)))"
  shows "\<exists>s'. init_vertices nI (vertices (m_patches s)) s = Some s' \<and>
     (\<forall>g\<in>set (vertices (m_patches s)). \<forall>c\<in>set g.
        (length g = 1 \<longrightarrow> kind_of s' c = Some (- 1)) \<and>
        (1 < length g \<and> length g = interfaces_among nI s g \<longrightarrow> kind_of s' c = Some 0) \<and>
        (1 < length g \<and> interfaces_among nI s g < length g \<longrightarrow> kind_of s' c = Some 1))"
proof -
  from init_vertices_effect[OF assms, of nI] obtain s' where
    r: "init_vertices nI (vertices (m_patches s)) s = Some s'"
    and k: "\<And>g c. g \<in> set (vertices (m_patches s)) \<Longrightarrow>
              length g = 1 \<or> interfaces_among nI s g \<le> length g \<Longrightarrow> c \<in> set g \<Longrightarrow>
              kind_of s' c = Some (claimed_kind (length g) (interfaces_among nI s g))"
    by blast
  have "(length g = 1 \<longrightarrow> kind_of s' c = Some (- 1)) \<and>
        (1 < length g \<and> length g = interfaces_among nI s g \<longrightarrow> kind_of s' c = Some 0) \<and>
        (1 < length g \<and> interfaces_among nI s g < length g \<longrightarrow> kind_of s' c = Some 1)"
    if "g \<in> set (vertices (m_patches s))" "c \<in> set g" for g c
    using k[OF that(1) _ that(2)] by (auto simp: claimed_kind_def)
  with r show ?thesis by blast
qed

text \<open>
  Claim C2 says that every group that is neither a single corner nor has as many corners
  as interfaces gets the kind 1, and that every corner gets a kind.  For three corners
  whose patches have six interfaces among them (three quadrilaterals around a pole of a
  closed surface) the source's test \<open>patchIndex.size() > temp_mp.interfaces().size()\<close>
  fails after the test for equality has failed, and nothing is set.
\<close>

theorem fewer_corners_than_interfaces_untagged:
  "length [corner 0 4, corner 1 3, corner 2 1] \<noteq> 1 \<and>
   length [corner 0 4, corner 1 3, corner 2 1] \<noteq> (6::nat) \<and>
   init_vertex (\<lambda>ps. 6) [corner 0 4, corner 1 3, corner 2 1] spline_ex = Some spline_ex \<and>
   kind_of spline_ex (corner 0 4) = None \<and> kind_of spline_ex (corner 1 3) = None \<and>
   kind_of spline_ex (corner 2 1) = None"
  by (simp add: init_vertex_def Let_def corner_def spline_ex_def mp_ex_def elem_at_def
      kind_of_def emptyC1Basis_def)

lemma spline_ex_wf:
  "list_all (corners_in_range spline_ex) (vertices (m_patches spline_ex))"
  "distinct (concat (vertices (m_patches spline_ex)))"
  "list_all (\<lambda>b. clamped (comp0 b) \<and> clamped (comp1 b)) (m_multiBasis spline_ex)"
  by (simp_all add: spline_ex_def mp_ex_def corners_in_range_def nPatches_def corner_def
      bicubic_def clamped_kv_cubic)

lemma spline_ex_interfaces:
  "interfaces_among topology_ex spline_ex [corner 0 1] = 1"
  "interfaces_among topology_ex spline_ex [corner 0 2, corner 1 1] = 1"
  "interfaces_among topology_ex spline_ex [corner 0 4, corner 1 3, corner 2 1] = 3"
  by (simp_all add: interfaces_among_def topology_ex_def)

theorem vertex_kinds_witness:
  "list_all (corners_in_range spline_ex) (vertices (m_patches spline_ex)) \<and>
   distinct (concat (vertices (m_patches spline_ex))) \<and>
   vertices (m_patches spline_ex)
     = [[corner 0 1], [corner 0 2, corner 1 1], [corner 0 4, corner 1 3, corner 2 1]] \<and>
   interfaces_among topology_ex spline_ex [corner 0 2, corner 1 1] = 1 \<and>
   interfaces_among topology_ex spline_ex [corner 0 4, corner 1 3, corner 2 1] = 3 \<and>
   (\<exists>s'. init_vertices topology_ex (vertices (m_patches spline_ex)) spline_ex = Some s' \<and>
      kind_of s' (corner 0 1) = Some (- 1) \<and>
      kind_of s' (corner 0 2) = Some 1 \<and> kind_of s' (corner 1 1) = Some 1 \<and>
      kind_of s' (corner 0 4) = Some 0 \<and> kind_of s' (corner 1 3) = Some 0 \<and>
      kind_of s' (corner 2 1) = Some 0)"
proof -
  have v: "vertices (m_patches spline_ex)
     = [[corner 0 1], [corner 0 2, corner 1 1], [corner 0 4, corner 1 3, corner 2 1]]"
    by (simp add: spline_ex_def mp_ex_def)
  from vertex_kinds[OF spline_ex_wf(1,2), of topology_ex] obtain s' where
    "init_vertices topology_ex (vertices (m_patches spline_ex)) spline_ex = Some s'"
    and k: "\<forall>g\<in>set (vertices (m_patches spline_ex)). \<forall>c\<in>set g.
        (length g = 1 \<longrightarrow> kind_of s' c = Some (- 1)) \<and>
        (1 < length g \<and> length g = interfaces_among topology_ex spline_ex g
           \<longrightarrow> kind_of s' c = Some 0) \<and>
        (1 < length g \<and> interfaces_among topology_ex spline_ex g < length g
           \<longrightarrow> kind_of s' c = Some 1)"
    by blast
  moreover from k have "kind_of s' (corner 0 1) = Some (- 1) \<and>
      kind_of s' (corner 0 2) = Some 1 \<and> kind_of s' (corner 1 1) = Some 1 \<and>
      kind_of s' (corner 0 4) = Some 0 \<and> kind_of s' (corner 1 3) = Some 0 \<and>
      kind_of s' (corner 2 1) = Some 0"
    using spline_ex_interfaces by (simp add: v)
  ultimately show ?thesis using spline_ex_wf(1,2) v spline_ex_interfaces by blast
qed

text \<open>
  Claim C6, as the code has it.  For a vertex group of more than one corner that the loop
  classifies (at least as many corners as interfaces) and every corner in it, the vertex
  basis set by the loop is the patch's basis of \<open>m_multiBasis\<close> with, in both directions,
  the degree raised by \<open>p_tilde - 1\<close> at unchanged break points, and the continuity at
  every interior break point reduced by 1 exactly when the discrete regularity \<open>r\<close> is
  not 1, and by a further \<open>r - r_tilde - 1\<close> when \<open>r_tilde < r - 1\<close>.
\<close>

theorem vertex_basis_assigned:
  fixes nI :: "gsGeometry list \<Rightarrow> nat"
  assumes "list_all (corners_in_range s) (vertices (m_patches s))"
    and "distinct (concat (vertices (m_patches s)))"
    and "list_all (\<lambda>b. clamped (comp0 b) \<and> clamped (comp1 b)) (m_multiBasis s)"
    and "g \<in> set (vertices (m_patches s))" and "1 < length g"
    and "interfaces_among nI s g \<le> length g" and "c \<in> set g"
  shows "\<exists>s' b. init_vertices nI (vertices (m_patches s)) s = Some s' \<and>
     vertex_basis_of s' c = Some b \<and>
     (\<forall>dir\<in>{0, 1}.
        degreeT b dir = degreeT (m_multiBasis s ! patch c) dir + (p_tilde s - 1) \<and>
        unique (component b dir) = unique (component (m_multiBasis s ! patch c) dir) \<and>
        (\<forall>x\<in>set (interior_knots (component (m_multiBasis s ! patch c) dir)).
           continuity_at (component b dir) x
             = continuity_at (component (m_multiBasis s ! patch c) dir) x
               - (if discreteRegularity (m_options s) \<noteq> 1 then 1 else 0)
               - (if r_tilde s < discreteRegularity (m_options s) - 1
                  then discreteRegularity (m_options s) - r_tilde s - 1 else 0)))"
proof -
  let ?r = "discreteRegularity (m_options s)"
  let ?src = "m_multiBasis s ! patch c"
  let ?vb = "vertex_basis_elevated (p_tilde s) (r_tilde s) ?r ?src"
  from init_vertices_effect[OF assms(1,2), of nI] obtain s' where
    r: "init_vertices nI (vertices (m_patches s)) s = Some s'"
    and "\<And>g c. g \<in> set (vertices (m_patches s)) \<Longrightarrow>
           1 < length g \<and> interfaces_among nI s g \<le> length g \<Longrightarrow> c \<in> set g \<Longrightarrow>
           vertex_basis_of s' c
             = Some (vertex_basis_elevated (p_tilde s) (r_tilde s)
                       (discreteRegularity (m_options s)) (m_multiBasis s ! patch c))"
    by blast
  with assms(4-7) have b: "vertex_basis_of s' c = Some ?vb" by blast
  from assms(1,4,7) have "patch c < length (m_multiBasis s)"
    by (auto simp: list_all_iff corners_in_range_def)
  with assms(3) have cl: "clamped (comp0 ?src)" "clamped (comp1 ?src)"
    by (simp_all add: list_all_length)
  have "degreeT ?vb dir = degreeT ?src dir + (p_tilde s - 1) \<and>
        unique (component ?vb dir) = unique (component ?src dir) \<and>
        (\<forall>x\<in>set (interior_knots (component ?src dir)).
           continuity_at (component ?vb dir) x
             = continuity_at (component ?src dir) x
               - (if ?r \<noteq> 1 then 1 else 0)
               - (if r_tilde s < ?r - 1 then ?r - r_tilde s - 1 else 0))" for dir
    using vertex_chain_law[OF cl(1), of "p_tilde s" "r_tilde s" ?r]
      vertex_chain_law[OF cl(2), of "p_tilde s" "r_tilde s" ?r]
    by (simp add: degreeT_def component_def vertex_basis_elevated_components)
  with r b show ?thesis by blast
qed

lemma vertex_basis_elevated_ex:
  "vertex_basis_elevated 3 1 1 bicubic = \<lparr>comp0 = kv_edge_ex, comp1 = kv_edge_ex\<rparr>"
  "vertex_basis_elevated 3 1 4 biquintic = \<lparr>comp0 = kv_septic, comp1 = kv_septic\<rparr>"
  by (simp_all add: vertex_basis_elevated_def Let_def degreeElevateT_def reduceContinuityT_def
      degreeElevate_def increaseMultiplicity_def bicubic_def biquintic_def kv_cubic_def
      kv_quintic_def kv_edge_ex_def kv_septic_def)

text \<open>
  Claim C6 says that the continuity is reduced to \<open>r - 1\<close> for every \<open>r\<close>, and further
  to \<open>r - r_tilde - 1\<close>.  For \<open>r = 1\<close> (bicubic patches of continuity 1, \<open>p_tilde = 3\<close>,
  \<open>r_tilde = 1\<close>) the guard \<open>if (r != 1)\<close> skips the reduction: the vertex basis has
  degree 5 and continuity 1, not 0.  For \<open>r = 4\<close> (biquintic patches of continuity 4)
  the continuity goes to 3 and then down by \<open>r - r_tilde - 1 = 2\<close> to 1, not to 2.
\<close>

theorem vertex_continuity_not_reduced_to:
  "discreteRegularity (m_options spline_ex) = 1 \<and> r_tilde spline_ex = 1 \<and>
   p_tilde spline_ex = 3 \<and> m_multiBasis spline_ex ! 0 = bicubic \<and>
   Option.bind (init_vertices topology_ex (vertices (m_patches spline_ex)) spline_ex)
     (\<lambda>s'. vertex_basis_of s' (corner 0 2)) = Some \<lparr>comp0 = kv_edge_ex, comp1 = kv_edge_ex\<rparr> \<and>
   continuity_at kv_cubic (1 / 2) = 1 \<and> continuity_at kv_edge_ex (1 / 2) = 1 \<and>
   discreteRegularity (m_options spline_ex4) = 4 \<and> r_tilde spline_ex4 = 1 \<and>
   p_tilde spline_ex4 = 3 \<and> m_multiBasis spline_ex4 ! 0 = biquintic \<and>
   Option.bind (init_vertices topology_ex (vertices (m_patches spline_ex4)) spline_ex4)
     (\<lambda>s'. vertex_basis_of s' (corner 0 2)) = Some \<lparr>comp0 = kv_septic, comp1 = kv_septic\<rparr> \<and>
   continuity_at kv_quintic (1 / 2) = 4 \<and> continuity_at kv_septic (1 / 2) = 1"
proof -
  have c: "continuity_at kv_cubic (1 / 2) = 1" "continuity_at kv_edge_ex (1 / 2) = 1"
    "continuity_at kv_quintic (1 / 2) = 4" "continuity_at kv_septic (1 / 2) = 1"
    by (simp_all add: continuity_at_def degree_def mult_at_def kv_cubic_def kv_edge_ex_def
        kv_quintic_def kv_septic_def)
  have p: "discreteRegularity (m_options spline_ex) = 1" "r_tilde spline_ex = 1"
    "p_tilde spline_ex = 3" "m_multiBasis spline_ex ! 0 = bicubic"
    "discreteRegularity (m_options spline_ex4) = 4" "r_tilde spline_ex4 = 1"
    "p_tilde spline_ex4 = 3" "m_multiBasis spline_ex4 ! 0 = biquintic"
    by (simp_all add: spline_ex_def spline_ex4_def)
  have w4: "list_all (corners_in_range spline_ex4) (vertices (m_patches spline_ex4))"
    "distinct (concat (vertices (m_patches spline_ex4)))"
    by (simp_all add: spline_ex4_def spline_ex_def mp_ex_def corners_in_range_def nPatches_def
        corner_def)
  have v: "vertices (m_patches spline_ex)
     = [[corner 0 1], [corner 0 2, corner 1 1], [corner 0 4, corner 1 3, corner 2 1]]"
    "vertices (m_patches spline_ex4)
     = [[corner 0 1], [corner 0 2, corner 1 1], [corner 0 4, corner 1 3, corner 2 1]]"
    by (simp_all add: spline_ex_def spline_ex4_def mp_ex_def)
  have i4: "interfaces_among topology_ex spline_ex4 [corner 0 2, corner 1 1] = 1"
    by (simp add: interfaces_among_def topology_ex_def)
  from init_vertices_effect[OF spline_ex_wf(1,2), of topology_ex] obtain s1 where
    r1: "init_vertices topology_ex (vertices (m_patches spline_ex)) spline_ex = Some s1"
    and b1: "\<forall>g\<in>set (vertices (m_patches spline_ex)).
           1 < length g \<and> interfaces_among topology_ex spline_ex g \<le> length g \<longrightarrow>
           (\<forall>c\<in>set g. vertex_basis_of s1 c
             = Some (vertex_basis_elevated (p_tilde spline_ex) (r_tilde spline_ex)
                 (discreteRegularity (m_options spline_ex)) (m_multiBasis spline_ex ! patch c)))"
    by blast
  from b1 spline_ex_interfaces(2) have
    e1: "vertex_basis_of s1 (corner 0 2) = Some \<lparr>comp0 = kv_edge_ex, comp1 = kv_edge_ex\<rparr>"
    using vertex_basis_elevated_ex(1) by (simp add: v p) (simp add: corner_def p)
  from init_vertices_effect[OF w4, of topology_ex] obtain s4 where
    r4: "init_vertices topology_ex (vertices (m_patches spline_ex4)) spline_ex4 = Some s4"
    and b4: "\<forall>g\<in>set (vertices (m_patches spline_ex4)).
           1 < length g \<and> interfaces_among topology_ex spline_ex4 g \<le> length g \<longrightarrow>
           (\<forall>c\<in>set g. vertex_basis_of s4 c
             = Some (vertex_basis_elevated (p_tilde spline_ex4) (r_tilde spline_ex4)
                 (discreteRegularity (m_options spline_ex4)) (m_multiBasis spline_ex4 ! patch c)))"
    by blast
  from b4 i4 have
    e4: "vertex_basis_of s4 (corner 0 2) = Some \<lparr>comp0 = kv_septic, comp1 = kv_septic\<rparr>"
    using vertex_basis_elevated_ex(2) by (simp add: v p) (simp add: corner_def p)
  show ?thesis by (simp add: c p r1 r4 e1 e4)
qed

theorem vertex_basis_assigned_witness:
  "list_all (corners_in_range spline_ex4) (vertices (m_patches spline_ex4)) \<and>
   distinct (concat (vertices (m_patches spline_ex4))) \<and>
   list_all (\<lambda>b. clamped (comp0 b) \<and> clamped (comp1 b)) (m_multiBasis spline_ex4) \<and>
   [corner 0 4, corner 1 3, corner 2 1] \<in> set (vertices (m_patches spline_ex4)) \<and>
   interfaces_among topology_ex spline_ex4 [corner 0 4, corner 1 3, corner 2 1] = 3 \<and>
   continuity_at kv_quintic (1 / 2) = 4 \<and>
   (\<exists>s' b. init_vertices topology_ex (vertices (m_patches spline_ex4)) spline_ex4 = Some s' \<and>
      vertex_basis_of s' (corner 0 4) = Some b \<and>
      degreeT b 0 = 7 \<and> degreeT b 1 = 7 \<and>
      continuity_at (component b 0) (1 / 2) = 1 \<and>
      continuity_at (component b 1) (1 / 2) = 1)"
proof -
  have w: "list_all (corners_in_range spline_ex4) (vertices (m_patches spline_ex4))"
    "distinct (concat (vertices (m_patches spline_ex4)))"
    "list_all (\<lambda>b. clamped (comp0 b) \<and> clamped (comp1 b)) (m_multiBasis spline_ex4)"
    by (simp_all add: spline_ex4_def spline_ex_def mp_ex_def corners_in_range_def nPatches_def
        corner_def biquintic_def clamped_def kv_quintic_def unique_def multiplicities_def)
  have g: "[corner 0 4, corner 1 3, corner 2 1] \<in> set (vertices (m_patches spline_ex4))"
    by (simp add: spline_ex4_def spline_ex_def mp_ex_def)
  have i: "interfaces_among topology_ex spline_ex4 [corner 0 4, corner 1 3, corner 2 1] = 3"
    by (simp add: interfaces_among_def topology_ex_def)
  have c: "continuity_at kv_quintic (1 / 2) = 4"
    by (simp add: continuity_at_def degree_def mult_at_def kv_quintic_def)
  have q: "degreeT biquintic 0 = 5" "degreeT biquintic 1 = 5"
    "interior_knots kv_quintic = [1 / 2]"
    "component biquintic 0 = kv_quintic" "component biquintic 1 = kv_quintic"
    by (simp_all add: degreeT_def component_def biquintic_def degree_def kv_quintic_def
        interior_knots_def unique_def)
  have p: "discreteRegularity (m_options spline_ex4) = 4" "r_tilde spline_ex4 = 1"
    "p_tilde spline_ex4 = 3" "m_multiBasis spline_ex4 ! patch (corner 0 4) = biquintic"
    by (simp_all add: spline_ex_def spline_ex4_def corner_def)
  from vertex_basis_assigned[OF w g _ _ _, of topology_ex "corner 0 4"] i
  obtain s' b where
    "init_vertices topology_ex (vertices (m_patches spline_ex4)) spline_ex4 = Some s'"
    "vertex_basis_of s' (corner 0 4) = Some b"
    "degreeT b 0 = 7 \<and> degreeT b 1 = 7 \<and>
      continuity_at (component b 0) (1 / 2) = 1 \<and>
      continuity_at (component b 1) (1 / 2) = 1"
    by (auto simp: p q c)
  with w g i c show ?thesis by blast
qed

section \<open>compute(): the interior pass and the order of the steps\<close>

lemma inner_loop_i_eq:
  "inner_loop_i sr sc du j i ri M =
     (ri + max 0 (du - 2 - i),
      M\<lparr>entries := entries M @ map (\<lambda>i'. ((sr + (ri + (i' - i)), sc + j * du + i'), 1)) [i..du - 3]\<rparr>)"
proof (induction sr sc du j i ri M rule: inner_loop_i.induct)
  case (1 sr sc du j i ri M)
  show ?case
  proof (cases "i < du - 2")
    case True
    then have u: "[i..du - 3] = i # [i + 1..du - 3]" by (simp add: upto_rec1)
    have f: "(\<lambda>i'. ((sr + (ri + 1 + (i' - (i + 1))), sc + j * du + i'), 1::real))
           = (\<lambda>i'. ((sr + (ri + (i' - i)), sc + j * du + i'), 1))"
      by (simp add: fun_eq_iff)
    from True 1 show ?thesis
      by (subst inner_loop_i.simps) (simp add: u f insert_entry_def)
  next
    case False
    then show ?thesis by (subst inner_loop_i.simps) simp
  qed
qed

lemma inner_loop_j_eq:
  "inner_loop_j sr sc du dv j ri M =
     (ri + int (length [j..dv - 3]) * max 0 (du - 4),
      M\<lparr>entries := entries M
         @ concat (map (\<lambda>j'. row_block sr sc du (ri + (j' - j) * max 0 (du - 4)) j') [j..dv - 3])\<rparr>)"
proof (induction sr sc du dv j ri M rule: inner_loop_j.induct)
  case (1 sr sc du dv j ri M)
  show ?case
  proof (cases "j < dv - 2")
    case True
    then have u: "[j..dv - 3] = j # [j + 1..dv - 3]" by (simp add: upto_rec1)
    let ?M = "M\<lparr>entries := entries M @ row_block sr sc du ri j\<rparr>"
    have i: "inner_loop_i sr sc du j 2 ri M = (ri + max 0 (du - 4), ?M)"
      by (simp add: inner_loop_i_eq row_block_def)
    have f: "(\<lambda>j'. row_block sr sc du (ri + max 0 (du - 4) + (j' - (j + 1)) * max 0 (du - 4)) j')
           = (\<lambda>j'. row_block sr sc du (ri + (j' - j) * max 0 (du - 4)) j')"
      by (simp add: fun_eq_iff algebra_simps)
    have "inner_loop_j sr sc du dv j ri M
        = inner_loop_j sr sc du dv (j + 1) (ri + max 0 (du - 4)) ?M"
      using True by (subst inner_loop_j.simps) (simp add: i)
    also have "\<dots> = (ri + max 0 (du - 4) + int (length [j + 1..dv - 3]) * max 0 (du - 4),
        ?M\<lparr>entries := entries ?M
         @ concat (map (\<lambda>j'. row_block sr sc du
                      (ri + max 0 (du - 4) + (j' - (j + 1)) * max 0 (du - 4)) j') [j + 1..dv - 3])\<rparr>)"
      by (rule "1.IH"[OF True i[symmetric]])
    finally show ?thesis
      by (simp add: u f algebra_simps)
  next
    case False
    then show ?thesis by (subst inner_loop_j.simps) simp
  qed
qed

lemma row_block_max:
  "row_block sr sc du ((j' - 2) * max 0 (du - 4)) j'
     = map (\<lambda>i. ((sr + ((j' - 2) * (du - 4) + (i - 2)), sc + j' * du + i), 1)) [2..du - 3]"
proof (cases "2 \<le> du - 3")
  case True
  then have "max 0 (du - 4) = du - 4" by simp
  then show ?thesis by (simp add: row_block_def)
next
  case False
  then show ?thesis by (simp add: row_block_def)
qed

lemma interior_step:
  assumes "basisInner b = Some inner"
    and "sr = sum_list (map size_rows (take np bs))"
    and "sc = sum_list (map size_cols (take np bs))"
    and "bs ! np = b"
  shows "snd (inner_loop_j sr sc (size1 ext (component inner 0)) (size1 ext (component inner 1))
            2 0 M)
         = M\<lparr>entries := entries M @ interior_block ext bs np\<rparr>"
  using assms
  by (simp add: inner_loop_j_eq interior_block_def Let_def row_block_max)

lemma interior_loop_eq:
  assumes "bases_ready s" and "np \<le> nPatches (m_patches s)"
    and "sr = sum_list (map size_rows (take np (m_bases s)))"
    and "sc = sum_list (map size_cols (take np (m_bases s)))"
  shows "interior_loop ext np sr sc s =
     Some (s\<lparr>m_matrix := (m_matrix s)\<lparr>entries := entries (m_matrix s)
               @ concat (map (interior_block ext (m_bases s)) [np..<nPatches (m_patches s)])\<rparr>,
             calls := calls s @ map InteriorBlock [np..<nPatches (m_patches s)]\<rparr>)"
  using assms
proof (induction "nPatches (m_patches s) - np" arbitrary: np sr sc s)
  case 0
  then have "\<not> np < nPatches (m_patches s)" by simp
  with 0 show ?case by (subst interior_loop.simps) simp
next
  case (Suc k)
  let ?n = "nPatches (m_patches s)"
  let ?b = "m_bases s ! np"
  from Suc.hyps(2) have lt: "np < ?n" by simp
  with Suc.prems(1) have len: "np < length (m_bases s)" by (simp add: bases_ready_def)
  from Suc.prems(1) lt len have "basisInner ?b \<noteq> None"
    by (simp add: bases_ready_def list_all_length)
  then obtain inner where inner: "basisInner ?b = Some inner" by blast
  let ?M = "(m_matrix s)\<lparr>entries := entries (m_matrix s) @ interior_block ext (m_bases s) np\<rparr>"
  let ?s1 = "s\<lparr>m_matrix := ?M, calls := calls s @ [InteriorBlock np]\<rparr>"
  have step: "interior_loop ext np sr sc s
      = interior_loop ext (np + 1) (sr + size_rows ?b) (sc + size_cols ?b) ?s1"
    using lt len inner interior_step[OF inner Suc.prems(3,4) refl, of ext "m_matrix s"]
    by (subst interior_loop.simps) (simp add: elem_at_def Let_def)
  have r1: "bases_ready ?s1" using Suc.prems(1) by (simp add: bases_ready_def)
  have k: "k = nPatches (m_patches ?s1) - (np + 1)" using Suc.hyps(2) by simp
  have n1: "np + 1 \<le> nPatches (m_patches ?s1)" using lt by simp
  have t: "take (Suc np) (m_bases s) = take np (m_bases s) @ [?b]"
    using len by (simp add: take_Suc_conv_app_nth)
  have sr1: "sr + size_rows ?b = sum_list (map size_rows (take (np + 1) (m_bases ?s1)))"
    and sc1: "sc + size_cols ?b = sum_list (map size_cols (take (np + 1) (m_bases ?s1)))"
    using Suc.prems(3,4) by (simp_all add: t)
  have u: "[np..<?n] = np # [np + 1..<?n]" using lt by (simp add: upt_conv_Cons)
  show ?case
    unfolding step Suc.hyps(1)[OF k r1 n1 sr1 sc1]
    by (simp add: u)
qed

lemma builders_cong:
  assumes "builders_frame s s1"
  shows "interface_builders ext s1 = interface_builders ext s"
    and "boundary_builders ext s1 = boundary_builders ext s"
    and "vertex_builders ext s1 = vertex_builders ext s"
  using assms
  by (simp_all add: builders_frame_def interface_builders_def boundary_builders_def
      vertex_builders_def fun_eq_iff)

lemma interface_loop_eq:
  "builders_frame s (interface_loop ext k s) \<and>
   calls (interface_loop ext k s)
     = calls s @ map InterfaceBuilder [k..<length (interfaces (m_patches s))] \<and>
   m_matrix (interface_loop ext k s)
     = interface_builders ext s [k..<length (interfaces (m_patches s))] (m_matrix s)"
proof (induction "length (interfaces (m_patches s)) - k" arbitrary: k s)
  case 0
  then show ?case
    by (subst (1 2 3) interface_loop.simps) (simp add: builders_frame_def interface_builders_def)
next
  case (Suc n)
  let ?s1 = "s\<lparr>m_matrix := saveBasisInterface ext (m_patches s) (m_bases s)
                 (interfaces (m_patches s) ! k) k (m_options s) (m_matrix s),
               calls := calls s @ [InterfaceBuilder k]\<rparr>"
  from Suc.hyps(2) have lt: "k < length (interfaces (m_patches s))" by simp
  then have step: "interface_loop ext k s = interface_loop ext (k + 1) ?s1"
    by (subst interface_loop.simps) (simp add: Let_def)
  have f: "builders_frame s ?s1" by (simp add: builders_frame_def)
  have "n = length (interfaces (m_patches ?s1)) - (k + 1)" using Suc.hyps(2) by simp
  from Suc.hyps(1)[OF this] lt show ?case
    unfolding step builders_cong[OF f]
    by (simp add: builders_frame_def upt_conv_Cons interface_builders_def)
qed

lemma boundary_loop_eq:
  "builders_frame s (boundary_loop ext k s) \<and>
   calls (boundary_loop ext k s)
     = calls s @ map BoundaryBuilder [k..<length (boundaries (m_patches s))] \<and>
   m_matrix (boundary_loop ext k s)
     = boundary_builders ext s [k..<length (boundaries (m_patches s))] (m_matrix s)"
proof (induction "length (boundaries (m_patches s)) - k" arbitrary: k s)
  case 0
  then show ?case
    by (subst (1 2 3) boundary_loop.simps) (simp add: builders_frame_def boundary_builders_def)
next
  case (Suc n)
  let ?s1 = "s\<lparr>m_matrix := saveBasisBoundary ext (m_patches s) (m_bases s)
                 (boundaries (m_patches s) ! k) k (m_options s) (m_matrix s),
               calls := calls s @ [BoundaryBuilder k]\<rparr>"
  from Suc.hyps(2) have lt: "k < length (boundaries (m_patches s))" by simp
  then have step: "boundary_loop ext k s = boundary_loop ext (k + 1) ?s1"
    by (subst boundary_loop.simps) (simp add: Let_def)
  have f: "builders_frame s ?s1" by (simp add: builders_frame_def)
  have "n = length (boundaries (m_patches ?s1)) - (k + 1)" using Suc.hyps(2) by simp
  from Suc.hyps(1)[OF this] lt show ?case
    unfolding step builders_cong[OF f]
    by (simp add: builders_frame_def upt_conv_Cons boundary_builders_def)
qed

lemma vertex_builder_loop_eq:
  "builders_frame s (vertex_builder_loop ext k s) \<and>
   calls (vertex_builder_loop ext k s)
     = calls s @ map VertexBuilder [k..<length (vertices (m_patches s))] \<and>
   m_matrix (vertex_builder_loop ext k s)
     = vertex_builders ext s [k..<length (vertices (m_patches s))] (m_matrix s)"
proof (induction "length (vertices (m_patches s)) - k" arbitrary: k s)
  case 0
  then show ?case
    by (subst (1 2 3) vertex_builder_loop.simps)
      (simp add: builders_frame_def vertex_builders_def)
next
  case (Suc n)
  let ?s1 = "s\<lparr>m_matrix := saveBasisVertex ext (m_patches s) (m_bases s)
                 (map patch (vertices (m_patches s) ! k))
                 (map m_index (vertices (m_patches s) ! k)) k (m_options s) (m_matrix s),
               calls := calls s @ [VertexBuilder k]\<rparr>"
  from Suc.hyps(2) have lt: "k < length (vertices (m_patches s))" by simp
  then have step: "vertex_builder_loop ext k s = vertex_builder_loop ext (k + 1) ?s1"
    by (subst vertex_builder_loop.simps) (simp add: Let_def)
  have f: "builders_frame s ?s1" by (simp add: builders_frame_def)
  have "n = length (vertices (m_patches ?s1)) - (k + 1)" using Suc.hyps(2) by simp
  from Suc.hyps(1)[OF this] lt show ?case
    unfolding step builders_cong[OF f]
    by (simp add: builders_frame_def upt_conv_Cons vertex_builders_def)
qed

lemma compute_eq:
  assumes "bases_ready s"
  shows "\<exists>s'. compute ext s = Some s' \<and> m_patches s' = m_patches s \<and>
           m_multiBasis s' = m_multiBasis s \<and> compressed (m_matrix s') \<and>
           calls s' = calls s
             @ map InteriorBlock [0..<nPatches (m_patches s)]
             @ map InterfaceBuilder [0..<length (interfaces (m_patches s))]
             @ map BoundaryBuilder [0..<length (boundaries (m_patches s))]
             @ map VertexBuilder [0..<length (vertices (m_patches s))]
             @ [Compress] \<and>
           m_matrix s' = makeCompressed
             (vertex_builders ext s [0..<length (vertices (m_patches s))]
               (boundary_builders ext s [0..<length (boundaries (m_patches s))]
                 (interface_builders ext s [0..<length (interfaces (m_patches s))]
                   (interior_filled ext s))))"
proof -
  let ?n = "nPatches (m_patches s)"
  let ?s1 = "s\<lparr>m_matrix := (m_matrix s)\<lparr>entries := entries (m_matrix s)
               @ concat (map (interior_block ext (m_bases s)) [0..<?n])\<rparr>,
             calls := calls s @ map InteriorBlock [0..<?n]\<rparr>"
  let ?s2 = "interface_loop ext 0 ?s1"
  let ?s3 = "boundary_loop ext 0 ?s2"
  let ?s4 = "vertex_builder_loop ext 0 ?s3"
  let ?s5 = "?s4\<lparr>m_matrix := makeCompressed (m_matrix ?s4), calls := calls ?s4 @ [Compress]\<rparr>"
  have i: "interior_loop ext 0 0 0 s = Some ?s1"
    by (rule interior_loop_eq[OF assms]) simp_all
  have f1: "builders_frame s ?s1" by (simp add: builders_frame_def)
  note l2 = interface_loop_eq[of ?s1 ext 0]
  note l3 = boundary_loop_eq[of ?s2 ext 0]
  note l4 = vertex_builder_loop_eq[of ?s3 ext 0]
  from l2 have f2: "builders_frame s ?s2" by (simp add: builders_frame_def)
  from l2 l3 have f3: "builders_frame s ?s3" by (simp add: builders_frame_def)
  from l2 l3 l4 have f: "m_patches ?s4 = m_patches s" "m_multiBasis ?s4 = m_multiBasis s"
    "m_bases ?s4 = m_bases s" "m_options ?s4 = m_options s"
    by (simp_all add: builders_frame_def)
  from l2 l3 l4 have c: "calls ?s4 = calls s
             @ map InteriorBlock [0..<?n]
             @ map InterfaceBuilder [0..<length (interfaces (m_patches s))]
             @ map BoundaryBuilder [0..<length (boundaries (m_patches s))]
             @ map VertexBuilder [0..<length (vertices (m_patches s))]"
    by (simp add: builders_frame_def)
  have m2: "m_matrix ?s2 = interface_builders ext s [0..<length (interfaces (m_patches s))]
      (interior_filled ext s)"
    using l2 by (simp add: builders_cong[OF f1] interior_filled_def)
  have m3: "m_matrix ?s3 = boundary_builders ext s [0..<length (boundaries (m_patches s))]
      (m_matrix ?s2)"
    using l3 f2 by (simp add: builders_cong[OF f2] builders_frame_def)
  have m4: "m_matrix ?s4 = vertex_builders ext s [0..<length (vertices (m_patches s))]
      (m_matrix ?s3)"
    using l4 f3 by (simp add: builders_cong[OF f3] builders_frame_def)
  from assms have len: "\<not> length (m_bases s) < ?n" by (simp add: bases_ready_def)
  have "compute ext s = Some (if info_switch (m_options s)
          then ?s5\<lparr>gsInfo_out := gsInfo_out ?s5 @ dim_lines ext (take ?n (m_bases s))\<rparr>
          else ?s5)"
    using len by (simp add: compute_def i Let_def f)
  moreover have "compressed (m_matrix ?s5)" by (simp add: makeCompressed_def)
  moreover have "m_matrix ?s5 = makeCompressed
             (vertex_builders ext s [0..<length (vertices (m_patches s))]
               (boundary_builders ext s [0..<length (boundaries (m_patches s))]
                 (interface_builders ext s [0..<length (interfaces (m_patches s))]
                   (interior_filled ext s))))"
  proof -
    have "m_matrix ?s5 = makeCompressed (m_matrix ?s4)" by simp
    also have "\<dots> = makeCompressed
             (vertex_builders ext s [0..<length (vertices (m_patches s))]
               (boundary_builders ext s [0..<length (boundaries (m_patches s))]
                 (interface_builders ext s [0..<length (interfaces (m_patches s))]
                   (interior_filled ext s))))"
      by (simp only: m4 m3 m2)
    finally show ?thesis .
  qed
  ultimately show ?thesis using f c by (cases "info_switch (m_options s)") simp_all
qed

lemma sorted_map_const: "sorted (map (\<lambda>x. c :: nat) xs)"
  by (induction xs) simp_all

text \<open>
  Claim C8.  When every patch has its container with an inner basis, \<open>compute()\<close> returns
  and its steps on the matrix are, in this order: the interior block of every patch, the
  builder of every interface, the builder of every boundary, the builder of every vertex
  group, and the compression.  The phases never go back, the compression happens exactly
  once and it is the last step, so no builder is invoked after it.  The matrix that
  \<open>compute()\<close> leaves is, whatever the builders do, the compression of what the builders
  of the vertex groups make of what the builders of the boundaries make of what the
  builders of the interfaces make of the matrix filled by the interior pass.
\<close>

theorem compute_order:
  assumes "bases_ready s"
  shows "\<exists>s' tr. compute ext s = Some s' \<and> calls s' = calls s @ tr \<and>
           tr = map InteriorBlock [0..<nPatches (m_patches s)]
             @ map InterfaceBuilder [0..<length (interfaces (m_patches s))]
             @ map BoundaryBuilder [0..<length (boundaries (m_patches s))]
             @ map VertexBuilder [0..<length (vertices (m_patches s))]
             @ [Compress] \<and>
           sorted (map phase tr) \<and> filter (\<lambda>c. c = Compress) tr = [Compress] \<and>
           last tr = Compress \<and> compressed (m_matrix s') \<and>
           m_matrix s' = makeCompressed
             (vertex_builders ext s [0..<length (vertices (m_patches s))]
               (boundary_builders ext s [0..<length (boundaries (m_patches s))]
                 (interface_builders ext s [0..<length (interfaces (m_patches s))]
                   (interior_filled ext s))))"
proof -
  let ?tr = "map InteriorBlock [0..<nPatches (m_patches s)]
             @ map InterfaceBuilder [0..<length (interfaces (m_patches s))]
             @ map BoundaryBuilder [0..<length (boundaries (m_patches s))]
             @ map VertexBuilder [0..<length (vertices (m_patches s))]
             @ [Compress]"
  from compute_eq[OF assms, of ext] obtain s' where
    "compute ext s = Some s'" "compressed (m_matrix s')" "calls s' = calls s @ ?tr"
    "m_matrix s' = makeCompressed
             (vertex_builders ext s [0..<length (vertices (m_patches s))]
               (boundary_builders ext s [0..<length (boundaries (m_patches s))]
                 (interface_builders ext s [0..<length (interfaces (m_patches s))]
                   (interior_filled ext s))))"
    by auto
  moreover have "sorted (map phase ?tr)"
    by (auto simp: sorted_append phase_def comp_def sorted_map_const)
  moreover have "filter (\<lambda>c. c = Compress) ?tr = [Compress]"
    by (simp add: filter_False comp_def)
  ultimately show ?thesis by auto
qed

text \<open>
  Claim C3.  When every patch has its container with an inner basis, the interior pass of
  \<open>compute()\<close> returns, and what it inserts into the matrix is, patch after patch, exactly
  the interior block of the patch as the spec words it: one entry of value 1 for each
  interior lattice index, at row shift_row + row_i and column shift_col + j * dim_u + i,
  and nothing else.
\<close>

theorem interior_pass_entries:
  assumes "bases_ready s"
  shows "\<exists>s'. interior_loop ext 0 0 0 s = Some s' \<and>
           entries (m_matrix s') = entries (m_matrix s)
             @ concat (map (interior_block ext (m_bases s)) [0..<nPatches (m_patches s)])"
proof -
  have "interior_loop ext 0 0 0 s =
     Some (s\<lparr>m_matrix := (m_matrix s)\<lparr>entries := entries (m_matrix s)
               @ concat (map (interior_block ext (m_bases s)) [0..<nPatches (m_patches s)])\<rparr>,
             calls := calls s @ map InteriorBlock [0..<nPatches (m_patches s)]\<rparr>)"
    by (rule interior_loop_eq[OF assms]) simp_all
  then show ?thesis by simp
qed

lemma spline_ready_ok: "bases_ready spline_ready"
  by (simp add: bases_ready_def spline_ready_def spline_ex_def mp_ex_def nPatches_def
      c1_ready_def)

theorem compute_order_witness:
  "bases_ready spline_ready \<and> calls spline_ready = [] \<and>
   entries (m_matrix spline_ready) = [] \<and>
   (\<exists>s'. compute ext_mark spline_ready = Some s' \<and>
      calls s' = [InteriorBlock 0, InteriorBlock 1, InteriorBlock 2, InterfaceBuilder 0,
                  BoundaryBuilder 0, BoundaryBuilder 1, VertexBuilder 0, VertexBuilder 1,
                  VertexBuilder 2, Compress] \<and>
      entries (m_matrix s')
        = [((0, 14), 1), ((1, 15), 1), ((2, 20), 1), ((3, 21), 1),
           ((36, 50), 1), ((37, 51), 1), ((38, 56), 1), ((39, 57), 1),
           ((72, 86), 1), ((73, 87), 1), ((74, 92), 1), ((75, 93), 1),
           ((100, 0), 2), ((200, 0), 3), ((200, 1), 3),
           ((300, 0), 4), ((300, 1), 4), ((300, 2), 4)] \<and>
      compressed (m_matrix s'))"
proof -
  have n: "nPatches (m_patches spline_ready) = 3"
    "length (interfaces (m_patches spline_ready)) = 1"
    "length (boundaries (m_patches spline_ready)) = 2"
    "length (vertices (m_patches spline_ready)) = 3"
    "calls spline_ready = []" "entries (m_matrix spline_ready) = []"
    "m_bases spline_ready = [c1_ready, c1_ready, c1_ready]"
    by (simp_all add: spline_ready_def spline_ex_def mp_ex_def nPatches_def)
  have u: "[0..<3] = [0, 1, 2]" "[0..<2] = [0, 1]" "[0..<1] = [0]"
    by (simp_all add: upt_rec)
  have d: "size1 ext_mark (component bicubic 0) = 6" "size1 ext_mark (component bicubic 1) = 6"
    by (simp_all add: ext_mark_def ext_ex_def component_def bicubic_def kv_cubic_def
        multiplicities_def degree_def)
  have b: "interior_block ext_mark [c1_ready, c1_ready, c1_ready] 0
             = [((0, 14), 1), ((1, 15), 1), ((2, 20), 1), ((3, 21), 1)]"
    "interior_block ext_mark [c1_ready, c1_ready, c1_ready] 1
             = [((36, 50), 1), ((37, 51), 1), ((38, 56), 1), ((39, 57), 1)]"
    "interior_block ext_mark [c1_ready, c1_ready, c1_ready] 2
             = [((72, 86), 1), ((73, 87), 1), ((74, 92), 1), ((75, 93), 1)]"
    by (simp_all add: interior_block_def c1_ready_def d Let_def upto_rec1)
  have e: "entries (makeCompressed
             (vertex_builders ext_mark spline_ready [0, 1, 2]
               (boundary_builders ext_mark spline_ready [0, 1]
                 (interface_builders ext_mark spline_ready [0]
                   (interior_filled ext_mark spline_ready)))))
        = [((0, 14), 1), ((1, 15), 1), ((2, 20), 1), ((3, 21), 1),
           ((36, 50), 1), ((37, 51), 1), ((38, 56), 1), ((39, 57), 1),
           ((72, 86), 1), ((73, 87), 1), ((74, 92), 1), ((75, 93), 1),
           ((100, 0), 2), ((200, 0), 3), ((200, 1), 3),
           ((300, 0), 4), ((300, 1), 4), ((300, 2), 4)]"
  proof -
    have "interior_filled ext_mark spline_ready
        = (m_matrix spline_ready)\<lparr>entries :=
          [((0, 14), 1), ((1, 15), 1), ((2, 20), 1), ((3, 21), 1),
           ((36, 50), 1), ((37, 51), 1), ((38, 56), 1), ((39, 57), 1),
           ((72, 86), 1), ((73, 87), 1), ((74, 92), 1), ((75, 93), 1)]\<rparr>"
      using b by (simp add: interior_filled_def n u)
    then show ?thesis
      by (simp add: makeCompressed_def vertex_builders_def boundary_builders_def
          interface_builders_def ext_mark_def insert_entry_def)
  qed
  from compute_order[OF spline_ready_ok, of ext_mark] obtain s' where
    r: "compute ext_mark spline_ready = Some s'"
    and c: "calls s' = [InteriorBlock 0, InteriorBlock 1, InteriorBlock 2, InterfaceBuilder 0,
                  BoundaryBuilder 0, BoundaryBuilder 1, VertexBuilder 0, VertexBuilder 1,
                  VertexBuilder 2, Compress]"
    and m: "m_matrix s' = makeCompressed
             (vertex_builders ext_mark spline_ready [0, 1, 2]
               (boundary_builders ext_mark spline_ready [0, 1]
                 (interface_builders ext_mark spline_ready [0]
                   (interior_filled ext_mark spline_ready))))"
    and p: "compressed (m_matrix s')"
    by (auto simp: n u)
  from e have "entries (m_matrix s')
        = [((0, 14), 1), ((1, 15), 1), ((2, 20), 1), ((3, 21), 1),
           ((36, 50), 1), ((37, 51), 1), ((38, 56), 1), ((39, 57), 1),
           ((72, 86), 1), ((73, 87), 1), ((74, 92), 1), ((75, 93), 1),
           ((100, 0), 2), ((200, 0), 3), ((200, 1), 3),
           ((300, 0), 4), ((300, 1), 4), ((300, 2), 4)]"
    by (simp only: m)
  with r c p show ?thesis by (simp add: n spline_ready_ok)
qed


theorem interior_pass_entries_witness:
  "bases_ready spline_ready \<and> entries (m_matrix spline_ready) = [] \<and>
   (\<exists>s'. interior_loop ext_ex 0 0 0 spline_ready = Some s' \<and>
      entries (m_matrix s')
        = [((0, 14), 1), ((1, 15), 1), ((2, 20), 1), ((3, 21), 1),
           ((36, 50), 1), ((37, 51), 1), ((38, 56), 1), ((39, 57), 1),
           ((72, 86), 1), ((73, 87), 1), ((74, 92), 1), ((75, 93), 1)])"
proof -
  have n: "nPatches (m_patches spline_ready) = 3" "entries (m_matrix spline_ready) = []"
    "m_bases spline_ready = [c1_ready, c1_ready, c1_ready]"
    by (simp_all add: spline_ready_def spline_ex_def mp_ex_def nPatches_def)
  have u: "[0..<3] = [0, 1, 2]" by (simp add: upt_rec)
  have d: "size1 ext_ex (component bicubic 0) = 6" "size1 ext_ex (component bicubic 1) = 6"
    by (simp_all add: ext_ex_def component_def bicubic_def kv_cubic_def multiplicities_def
        degree_def)
  have b: "interior_block ext_ex [c1_ready, c1_ready, c1_ready] 0
             = [((0, 14), 1), ((1, 15), 1), ((2, 20), 1), ((3, 21), 1)]"
    "interior_block ext_ex [c1_ready, c1_ready, c1_ready] 1
             = [((36, 50), 1), ((37, 51), 1), ((38, 56), 1), ((39, 57), 1)]"
    "interior_block ext_ex [c1_ready, c1_ready, c1_ready] 2
             = [((72, 86), 1), ((73, 87), 1), ((74, 92), 1), ((75, 93), 1)]"
    by (simp_all add: interior_block_def c1_ready_def d Let_def upto_rec1)
  from interior_pass_entries[OF spline_ready_ok, of ext_ex] b show ?thesis
    by (simp add: n u spline_ready_ok)
qed

section \<open>The iteration of constructAndSolveEquationSystem_2\<close>

lemma set_points_returns:
  "n \<le> length pts \<Longrightarrow>
   \<exists>pts'. set_points n i M pts = Some pts' \<and> length pts' = length pts"
proof (induction "n - i" arbitrary: i pts)
  case 0
  then show ?case by (subst set_points.simps) simp
next
  case (Suc d)
  then have lt: "i < n" "i < length pts" by simp_all
  let ?pts = "pts[i := (pts ! i)\<lparr>px := M i 0, py := M i 1\<rparr>]"
  have "d = n - (i + 1)" using Suc.hyps(2) by simp
  moreover have "n \<le> length ?pts" using Suc.prems by simp
  ultimately obtain pts' where "set_points n (i + 1) M ?pts = Some pts'"
    "length pts' = length ?pts"
    using Suc.hyps(1) by blast
  with lt show ?case by (subst set_points.simps) simp
qed

lemma power_loop_runs:
  assumes "n \<le> length (m_parameterPoints st)" and "k \<le> 101"
  shows "\<exists>st'. power_loop ext n k st = Some st' \<and>
           iterations st' = iterations st + (101 - k) \<and>
           LHS st' = LHS st \<and>
           RHS st' = (mat_mult ext (LHS st) ^^ (101 - k)) (RHS st) \<and>
           map fst (written st') = map fst (written st) @ mesh_files ext k"
  using assms
proof (induction "101 - k" arbitrary: k st)
  case 0
  then have "k = 101" by simp
  then show ?case by (subst power_loop.simps) (simp add: mesh_files_def)
next
  case (Suc d)
  then have le: "k \<le> 100" by simp
  let ?sol = "mat_mult ext (LHS st) (RHS st)"
  from set_points_returns[OF Suc.prems(1), of 0 ?sol] obtain pts where
    pts: "set_points n 0 ?sol (m_parameterPoints st) = Some pts"
    and len: "length pts = length (m_parameterPoints st)"
    by blast
  let ?w = "if k mod 5 = 0
            then written st @ [(''mesh'' @ to_string ext k, createFlatMesh ext pts)]
            else written st"
  let ?st1 = "st\<lparr>sol := ?sol, RHS := ?sol, m_parameterPoints := pts, written := ?w,
                 iterations := iterations st + 1\<rparr>"
  have step: "power_loop ext n k st = power_loop ext n (k + 1) ?st1"
    using le pts by (subst power_loop.simps) (simp add: Let_def)
  have d: "d = 101 - (k + 1)" using Suc.hyps(2) by simp
  have n1: "n \<le> length (m_parameterPoints ?st1)" using Suc.prems(1) len by simp
  have k1: "k + 1 \<le> 101" using le by simp
  from Suc.hyps(1)[OF d n1 k1] obtain st' where
    r: "power_loop ext n (k + 1) ?st1 = Some st'"
    and i: "iterations st' = iterations ?st1 + (101 - (k + 1))"
    and l: "LHS st' = LHS ?st1"
    and p: "RHS st' = (mat_mult ext (LHS ?st1) ^^ (101 - (k + 1))) (RHS ?st1)"
    and w: "map fst (written st') = map fst (written ?st1) @ mesh_files ext (k + 1)"
    by blast
  have e: "101 - k = Suc (101 - (k + 1))" using le by simp
  have u: "[k..<101] = k # [k + 1..<101]" using le by (simp add: upt_conv_Cons)
  have "map fst (written ?st1) @ mesh_files ext (k + 1) = map fst (written st) @ mesh_files ext k"
    by (simp add: mesh_files_def u)
  with r i l p w show ?case
    unfolding step by (simp add: e funpow_swap1)
qed

lemma lambda_cols_returns:
  "N \<le> length lambdas \<Longrightarrow> \<exists>LR'. lambda_cols lambdas N i j LR = Some LR'"
proof (induction "N - j" arbitrary: j LR)
  case 0
  then show ?case by (subst lambda_cols.simps) simp
next
  case (Suc d)
  then have lt: "j < N" "j < length lambdas" by simp_all
  have "d = N - (j + 1)" using Suc.hyps(2) by simp
  from Suc.hyps(1)[OF this Suc.prems] lt show ?case
    by (subst lambda_cols.simps) (simp add: elem_at_def)
qed

lemma lambda_rows_returns:
  "\<forall>i<n. N \<le> length (lam i) \<Longrightarrow> \<exists>LR'. lambda_rows lam n N i LR = Some LR'"
proof (induction "n - i" arbitrary: i LR)
  case 0
  then show ?case by (subst lambda_rows.simps) simp
next
  case (Suc d)
  then have lt: "i < n" by simp
  with Suc.prems obtain LR1 where c: "lambda_cols (lam i) N i 0 LR = Some LR1"
    using lambda_cols_returns by blast
  have "d = n - (i + 1)" using Suc.hyps(2) by simp
  from Suc.hyps(1)[OF this Suc.prems] lt c show ?case
    by (subst lambda_rows.simps) simp
qed

lemma boundary_rows_returns:
  "N \<le> length pts \<Longrightarrow> \<exists>LR'. boundary_rows pts N i LR = Some LR'"
proof (induction "N - i" arbitrary: i LR)
  case 0
  then show ?case by (subst boundary_rows.simps) simp
next
  case (Suc d)
  then have lt: "i < N" "i < length pts" by simp_all
  have "d = N - (i + 1)" using Suc.hyps(2) by simp
  from Suc.hyps(1)[OF this Suc.prems] lt show ?case
    by (subst boundary_rows.simps) (simp add: elem_at_def)
qed

lemma solver_runs:
  assumes "\<forall>i<n. N \<le> length (getLambdas ext i)"
    and "N \<le> length (m_parameterPoints st)" and "n \<le> length (m_parameterPoints st)"
  shows "\<exists>st' LR L R.
           lambda_rows (getLambdas ext) n N 0 (LHS st, RHS st) = Some LR \<and>
           boundary_rows (m_parameterPoints st) N n LR = Some (L, R) \<and>
           constructAndSolveEquationSystem_2 ext n N st = Some st' \<and>
           iterations st' = iterations st + 101 \<and>
           LHS st' = L \<and> RHS st' = (mat_mult ext L ^^ 101) R \<and>
           map fst (written st') = map fst (written st) @ mesh_files ext 0"
proof -
  from lambda_rows_returns[OF assms(1)] obtain LR1 where
    1: "lambda_rows (getLambdas ext) n N 0 (LHS st, RHS st) = Some LR1" by blast
  from boundary_rows_returns[OF assms(2)] obtain L R where
    2: "boundary_rows (m_parameterPoints st) N n LR1 = Some (L, R)" by (metis surj_pair)
  let ?st = "st\<lparr>LHS := L, RHS := R\<rparr>"
  have "n \<le> length (m_parameterPoints ?st)" using assms(3) by simp
  from power_loop_runs[OF this, of 0 ext] obtain st' where
    r: "power_loop ext n 0 ?st = Some st'"
    and i: "iterations st' = iterations st + 101"
    and l: "LHS st' = L"
    and p: "RHS st' = (mat_mult ext L ^^ 101) R"
    and w: "map fst (written st') = map fst (written st) @ mesh_files ext 0"
    by auto
  have "constructAndSolveEquationSystem_2 ext n N st = Some st'"
    using 1 2 r by (simp add: constructAndSolveEquationSystem_2_def)
  with 1 2 i l p w show ?thesis by blast
qed

lemma st_fan_ok:
  "\<forall>i<1. 4 \<le> length (getLambdas ext_fan i)"
  "4 \<le> length (m_parameterPoints st_fan)" "1 \<le> length (m_parameterPoints st_fan)"
  "iterations st_fan = 0"
  by (simp_all add: ext_fan_def st_fan_def)

text \<open>
  Claim C9, as the code has it.  For every neighbourhood whose weight vectors have \<open>N\<close>
  entries, with at least \<open>N\<close> (and \<open>n\<close>) parameter points, the function returns after the
  body of its loop has run exactly 101 times, for \<open>k = 0, ..., 100\<close>: the final \<open>RHS\<close> is
  the 101-fold product of \<open>LHS\<close> with the \<open>RHS\<close> that the two loops before it have
  filled, and a file was written for every multiple of 5 up to 100.  There is no test of convergence and no other exit.
\<close>

theorem power_iteration_count:
  assumes "\<forall>i<n. N \<le> length (getLambdas ext i)"
    and "N \<le> length (m_parameterPoints st)" and "n \<le> length (m_parameterPoints st)"
  shows "\<exists>st' LR L R.
           lambda_rows (getLambdas ext) n N 0 (LHS st, RHS st) = Some LR \<and>
           boundary_rows (m_parameterPoints st) N n LR = Some (L, R) \<and>
           constructAndSolveEquationSystem_2 ext n N st = Some st' \<and>
           iterations st' = iterations st + 101 \<and>
           LHS st' = L \<and> RHS st' = (mat_mult ext L ^^ 101) R \<and>
           map fst (written st') = map fst (written st) @ mesh_files ext 0"
  using assms by (rule solver_runs)

text \<open>
  Claim C9 says that the loop runs 100 times.  The loop is
  \<open>for (size_t k = 0; k <= 100; k++)\<close>: for one interior vertex between three boundary
  vertices its body runs 101 times.
\<close>

theorem one_hundred_and_one_iterations:
  "map_option iterations (constructAndSolveEquationSystem_2 ext_fan 1 4 st_fan) = Some 101"
proof -
  from solver_runs[OF st_fan_ok(1,2,3)] obtain st' where
    "constructAndSolveEquationSystem_2 ext_fan 1 4 st_fan = Some st'"
    "iterations st' = iterations st_fan + 101"
    by blast
  then show ?thesis by (simp add: st_fan_ok(4))
qed

theorem power_iteration_count_witness:
  "4 \<le> length (getLambdas ext_fan 0) \<and>
   4 \<le> length (m_parameterPoints st_fan) \<and> 1 \<le> length (m_parameterPoints st_fan) \<and>
   (\<exists>st'. constructAndSolveEquationSystem_2 ext_fan 1 4 st_fan = Some st' \<and>
      iterations st' = 101)"
  using power_iteration_count[OF st_fan_ok(1,2,3)] st_fan_ok by auto

section \<open>init() and compute() leave the caller's objects alone\<close>

lemma inputs_kept_refl: "inputs_kept s s"
  by (simp add: inputs_kept_def)

lemma inputs_kept_trans: "inputs_kept s s1 \<Longrightarrow> inputs_kept s1 s2 \<Longrightarrow> inputs_kept s s2"
  by (simp add: inputs_kept_def)

lemma upd_basis_kept: "upd_basis p f s = Some s' \<Longrightarrow> inputs_kept s s'"
  by (auto simp: upd_basis_def inputs_kept_def split: if_splits)

lemma for_each_kept:
  assumes "\<And>x s s'. body x s = Some s' \<Longrightarrow> inputs_kept s s'"
  shows "for_each body xs s = Some s' \<Longrightarrow> inputs_kept s s'"
proof (induction xs arbitrary: s)
  case Nil
  then show ?case by (simp add: inputs_kept_refl)
next
  case (Cons x xs)
  then obtain s1 where "body x s = Some s1" "for_each body xs s1 = Some s'"
    by (auto split: bind_splits)
  with assms Cons.IH show ?case by (blast intro: inputs_kept_trans)
qed

lemma init_container_kept: "init_container np s = Some s' \<Longrightarrow> inputs_kept s s'"
  by (auto simp: init_container_def inputs_kept_def Let_def)

lemma init_inner_kept: "init_inner np s = Some s' \<Longrightarrow> inputs_kept s s'"
  by (auto simp: init_inner_def Let_def split: bind_splits dest: upd_basis_kept)

lemma init_interface_kept:
  assumes "init_interface item s = Some s'"
  shows "inputs_kept s s'"
proof -
  from assms obtain s0 s1 s2 s3 s4 s5 s6 s7 s8 s9 p1 p2 p3 p4 p5 p6 p7 p8 p9 p10
      f1 f2 f3 f4 f5 f6 f7 f8 f9 f10 o1 o2 o3 where
    "s0 = s\<lparr>gsInfo_out := o1\<rparr>"
    "upd_basis p1 f1 (s0\<lparr>gsInfo_out := o2\<rparr>) = Some s1"
    "upd_basis p2 f2 s1 = Some s2" "upd_basis p3 f3 s2 = Some s3"
    "upd_basis p4 f4 s3 = Some s4" "upd_basis p5 f5 s4 = Some s5"
    "upd_basis p6 f6 s5 = Some s6" "upd_basis p7 f7 s6 = Some s7"
    "upd_basis p8 f8 s7 = Some s8"
    "upd_basis p9 f9 (s8\<lparr>gsInfo_out := o3\<rparr>) = Some s9"
    "upd_basis p10 f10 s9 = Some s'"
    unfolding init_interface_def Let_def
    by (auto split: bind_splits prod.splits)
  then show ?thesis
    by (auto simp: inputs_kept_def dest!: upd_basis_kept)
qed

lemma init_boundary_kept:
  assumes "init_boundary bside s = Some s'"
  shows "inputs_kept s s'"
proof -
  from assms obtain s1 s2 s3 p1 p2 p3 p4 f1 f2 f3 f4 o1 where
    "upd_basis p1 f1 s = Some s1"
    "upd_basis p2 f2 (s1\<lparr>gsInfo_out := o1\<rparr>) = Some s2"
    "upd_basis p3 f3 s2 = Some s3" "upd_basis p4 f4 s3 = Some s'"
    unfolding init_boundary_def Let_def
    by (auto split: bind_splits prod.splits)
  then show ?thesis
    by (auto simp: inputs_kept_def dest!: upd_basis_kept)
qed

lemma vertex_loop_kept: "vertex_loop k cs s = Some s' \<Longrightarrow> inputs_kept s s'"
proof (induction cs arbitrary: s)
  case Nil
  then show ?case by (simp add: inputs_kept_refl)
next
  case (Cons c cs)
  then obtain s1 s2 b where "upd_basis (patch c) (setVertexBasis b (m_index c)) s = Some s1"
    "upd_basis (patch c) (setKindOfVertex k (m_index c)) s1 = Some s2"
    "vertex_loop k cs s2 = Some s'"
    by (auto simp: Let_def split: bind_splits)
  with Cons.IH show ?case
    by (blast intro: inputs_kept_trans dest: upd_basis_kept)
qed

lemma init_vertex_kept:
  assumes "init_vertex nI g s = Some s'"
  shows "inputs_kept s s'"
proof -
  consider (one) "length g = 1" | (many) "1 < length g" | (none) "length g = 0" by linarith
  then show ?thesis
  proof cases
    case one
    with assms obtain s1 p f f' where "upd_basis p f s = Some s1" "upd_basis p f' s1 = Some s'"
      by (auto simp: init_vertex_def Let_def split: bind_splits)
    then show ?thesis by (blast intro: inputs_kept_trans dest: upd_basis_kept)
  next
    case many
    with assms have "vertex_loop 0 g s = Some s' \<or> vertex_loop 1 g s = Some s' \<or> s' = s"
      by (auto simp: init_vertex_def Let_def split: bind_splits if_splits)
    then show ?thesis by (auto dest: vertex_loop_kept simp: inputs_kept_refl)
  next
    case none
    with assms show ?thesis by (simp add: init_vertex_def inputs_kept_refl)
  qed
qed

lemma init_vertices_kept: "init_vertices nI gs s = Some s' \<Longrightarrow> inputs_kept s s'"
proof (induction gs arbitrary: s)
  case Nil
  then show ?case by (simp add: inputs_kept_refl)
next
  case (Cons g gs)
  then obtain s1 where "init_vertex nI g s = Some s1" "init_vertices nI gs s1 = Some s'"
    by (auto split: bind_splits)
  with Cons.IH show ?case by (blast intro: inputs_kept_trans dest: init_vertex_kept)
qed

lemma size_matrix_kept: "inputs_kept s (size_matrix s)"
  by (simp add: size_matrix_def inputs_kept_def Let_def)

lemma print_patch_kept: "print_patch ext np s = Some s' \<Longrightarrow> inputs_kept s s'"
  by (auto simp: print_patch_def inputs_kept_def split: bind_splits)

lemma init_kept:
  assumes "init ext s = Some s'"
  shows "inputs_kept s s'"
proof -
  from assms obtain s1 s2 s3 s4 s5 s6 where
    1: "for_each init_container [0..<nPatches (m_patches s)] s = Some s1"
    and 2: "for_each init_inner [0..<nPatches (m_patches s1)] s1 = Some s2"
    and 3: "for_each init_interface (interfaces (m_patches s2)) s2 = Some s3"
    and 4: "for_each init_boundary (boundaries (m_patches s3)) s3 = Some s4"
    and 5: "init_vertices (nInterfaces ext) (vertices (m_patches s4)) s4 = Some s5"
    and 6: "for_each (\<lambda>np. upd_basis np (c1_init ext)) [0..<nPatches (m_patches s5)] s5 = Some s6"
    and 7: "(if info_switch (m_options (size_matrix s6))
             then for_each (print_patch ext) [0..<nPatches (m_patches (size_matrix s6))]
                    (size_matrix s6)
             else Some (size_matrix s6)) = Some s'"
    unfolding init_def Let_def by (auto split: bind_splits)
  note k1 = for_each_kept[OF init_container_kept 1]
  note k2 = for_each_kept[OF init_inner_kept 2]
  note k3 = for_each_kept[OF init_interface_kept 3]
  note k4 = for_each_kept[OF init_boundary_kept 4]
  note k5 = init_vertices_kept[OF 5]
  note k6 = for_each_kept[OF upd_basis_kept 6]
  have k7: "inputs_kept (size_matrix s6) s'"
    using 7 for_each_kept[OF print_patch_kept]
    by (auto simp: inputs_kept_refl split: if_splits)
  from k1 k2 k3 k4 k5 k6 size_matrix_kept[of s6] k7 show ?thesis
    by (simp add: inputs_kept_def)
qed

lemma interior_loop_kept:
  "interior_loop ext np sr sc s = Some s' \<Longrightarrow> inputs_kept s s'"
proof (induction "nPatches (m_patches s) - np" arbitrary: np sr sc s)
  case 0
  then show ?case by (subst (asm) interior_loop.simps) (simp add: inputs_kept_refl)
next
  case (Suc d)
  then have lt: "np < nPatches (m_patches s)" by simp
  from Suc.prems lt obtain M sr' sc' where
    r: "interior_loop ext (np + 1) sr' sc'
          (s\<lparr>m_matrix := M, calls := calls s @ [InteriorBlock np]\<rparr>) = Some s'"
    by (subst (asm) interior_loop.simps) (auto simp: Let_def split: bind_splits)
  let ?s1 = "s\<lparr>m_matrix := M, calls := calls s @ [InteriorBlock np]\<rparr>"
  have "d = nPatches (m_patches ?s1) - (np + 1)" using Suc.hyps(2) by simp
  from Suc.hyps(1)[OF this r] show ?case by (simp add: inputs_kept_def)
qed

lemma compute_kept:
  assumes "compute ext s = Some s'"
  shows "inputs_kept s s'"
proof -
  from assms obtain s1 where 1: "interior_loop ext 0 0 0 s = Some s1"
    and 2: "m_patches s' = m_patches (vertex_builder_loop ext 0 (boundary_loop ext 0
               (interface_loop ext 0 s1)))"
      "m_multiBasis s' = m_multiBasis (vertex_builder_loop ext 0 (boundary_loop ext 0
               (interface_loop ext 0 s1)))"
    unfolding compute_def Let_def by (auto split: bind_splits if_splits)
  from interface_loop_eq[of s1 ext 0]
    boundary_loop_eq[of "interface_loop ext 0 s1" ext 0]
    vertex_builder_loop_eq[of "boundary_loop ext 0 (interface_loop ext 0 s1)" ext 0]
    interior_loop_kept[OF 1] 2
  show ?thesis by (simp add: builders_frame_def inputs_kept_def)
qed

text \<open>
  Claim C10.  Whenever \<open>init()\<close> and then \<open>compute()\<close> return, the multi-patch geometry
  \<open>m_patches\<close> and the multi-basis \<open>m_multiBasis\<close> are the same after \<open>init()\<close> and after
  \<open>compute()\<close> as before: knot insertion, degree elevation and reduction of continuity
  act on the copies held in the locals, and what the loops write are the containers of
  \<open>m_bases\<close>, the matrix and the output.
\<close>

theorem inputs_not_modified:
  assumes "init ext s = Some s1" and "compute ext s1 = Some s2"
  shows "m_patches s1 = m_patches s \<and> m_multiBasis s1 = m_multiBasis s \<and>
         m_patches s2 = m_patches s \<and> m_multiBasis s2 = m_multiBasis s"
  using init_kept[OF assms(1)] compute_kept[OF assms(2)] by (simp add: inputs_kept_def)

lemma spline_start_runs:
  "Option.bind (init ext_ex spline_start) (compute ext_ex) \<noteq> None"
  by code_simp

theorem inputs_not_modified_witness:
  "\<exists>s1 s2. init ext_ex spline_start = Some s1 \<and> compute ext_ex s1 = Some s2 \<and>
     m_patches s1 = mp_ex \<and> m_multiBasis s1 = [bicubic, bicubic, bicubic] \<and>
     m_patches s2 = mp_ex \<and> m_multiBasis s2 = [bicubic, bicubic, bicubic]"
proof -
  from spline_start_runs obtain s1 s2 where
    r: "init ext_ex spline_start = Some s1" "compute ext_ex s1 = Some s2"
    by (auto split: bind_splits)
  have "m_patches spline_start = mp_ex" "m_multiBasis spline_start = [bicubic, bicubic, bicubic]"
    by (simp_all add: spline_start_def spline_ex_def)
  with inputs_not_modified[OF r] r show ?thesis by simp
qed

end
